(* ===== verification/Prelude.thy ===== *)
theory Prelude
  imports Complex_Main "HOL-Library.Word" "HOL-Library.Char_ord"
    "HOL-Library.List_Lexorder" "HOL-Library.Product_Lexorder" "HOL-Library.AList" "HOL-Library.Multiset"
begin

text \<open>
  Shared by every component: the JavaScript values the scripts handle (strings as UTF-16 code
  units, doubles with their special values, the JSON-shaped values of a message or a push), the
  language primitives the code uses on them (truthiness, property reads, \<open>typeof\<close>,
  \<open>Number.isSafeInteger\<close>, \<open>Array.from(s).length\<close>, the hexadecimal and digit classes of
  the regular expressions), and the generic lemmas on lists and counting.
\<close>

named_theorems js_simps "evaluation of the JavaScript primitives"
named_theorems model_defs "definitions of the model that component proofs unfold together"

section \<open>Strings\<close>

type_synonym code_unit = "16 word"
type_synonym jsstring = "code_unit list"

definition js :: "string \<Rightarrow> jsstring" where
  "js s = map of_char s"

lemma of_char_code_unit_inject: "(of_char c :: code_unit) = of_char d \<longleftrightarrow> c = d"
proof
  assume "(of_char c :: code_unit) = of_char d"
  then have "unat (of_nat (of_char c) :: code_unit) = unat (of_nat (of_char d) :: code_unit)"
    by (simp add: of_nat_of_char)
  then have "(of_char c :: nat) = of_char d"
    using nat_of_char_less_256 [of c] nat_of_char_less_256 [of d] by (simp add: unat_of_nat)
  then show "c = d" by simp
qed simp

lemma inj_of_char_code_unit: "inj (of_char :: char \<Rightarrow> code_unit)"
  by (rule injI) (simp add: of_char_code_unit_inject)

lemma js_eq_iff [simp, js_simps]: "js s = js t \<longleftrightarrow> s = t"
  by (simp add: js_def inj_map_eq_map inj_of_char_code_unit)

lemma js_length [simp]: "length (js s) = length s"
  by (simp add: js_def)

lemma js_Nil_iff [simp]: "js s = [] \<longleftrightarrow> s = []"
  by (simp add: js_def)

text \<open>
  \<open>Array.from(s).length\<close> counts code points: a high surrogate followed by a low one is one
  element, every other code unit (a lone surrogate too) is one element of its own.
\<close>

definition high_surrogate :: "code_unit \<Rightarrow> bool" where
  "high_surrogate u \<longleftrightarrow> 0xD800 \<le> u \<and> u \<le> 0xDBFF"

definition low_surrogate :: "code_unit \<Rightarrow> bool" where
  "low_surrogate u \<longleftrightarrow> 0xDC00 \<le> u \<and> u \<le> 0xDFFF"

fun array_from_length :: "jsstring \<Rightarrow> nat" where
  "array_from_length [] = 0"
| "array_from_length [u] = 1"
| "array_from_length (u # v # s) =
     (if high_surrogate u \<and> low_surrogate v then Suc (array_from_length s)
      else Suc (array_from_length (v # s)))"

lemma array_from_length_le: "array_from_length s \<le> length s"
  by (induction s rule: array_from_length.induct) auto

lemma length_le_array_from: "length s \<le> 2 * array_from_length s"
  by (induction s rule: array_from_length.induct) auto

lemma array_from_length_0_iff [simp]: "array_from_length s = 0 \<longleftrightarrow> s = []"
  by (induction s rule: array_from_length.induct) auto

text \<open>Surrogates lie above every code unit that a character of a literal has.\<close>

lemma js_unit_no_surrogate: "u \<in> set (js s) \<Longrightarrow> \<not> high_surrogate u"
proof -
  assume "u \<in> set (js s)"
  then obtain c where "u = of_nat (of_char c)"
    by (auto simp: js_def of_nat_of_char)
  moreover have "(of_char c :: nat) mod 65536 < 256"
    using nat_of_char_less_256 [of c] by (rule order_le_less_trans [OF mod_less_eq_dividend])
  ultimately have "unat u < 256"
    by (simp add: unat_of_nat)
  then show "\<not> high_surrogate u"
    by (simp add: high_surrogate_def word_le_nat_alt)
qed

lemma array_from_length_no_surrogate:
  "(\<And>u. u \<in> set s \<Longrightarrow> \<not> high_surrogate u) \<Longrightarrow> array_from_length s = length s"
  by (induction s rule: array_from_length.induct) auto

lemma array_from_length_js [simp]: "array_from_length (js s) = length s"
  using array_from_length_no_surrogate [of "js s"] js_unit_no_surrogate by simp

definition starts_with :: "jsstring \<Rightarrow> jsstring \<Rightarrow> bool" where
  "starts_with s t \<longleftrightarrow> take (length t) s = t"

text \<open>The character classes of the regular expressions, and the anchored \<open>{n}\<close> repetition.\<close>

definition is_digit :: "code_unit \<Rightarrow> bool" where
  "is_digit u \<longleftrightarrow> 0x30 \<le> u \<and> u \<le> 0x39"

definition is_lower_hex :: "code_unit \<Rightarrow> bool" where
  "is_lower_hex u \<longleftrightarrow> 0x61 \<le> u \<and> u \<le> 0x66 \<or> is_digit u"

definition hex_exactly :: "nat \<Rightarrow> jsstring \<Rightarrow> bool" where
  "hex_exactly n s \<longleftrightarrow> length s = n \<and> list_all is_lower_hex s"

section \<open>Values\<close>

text \<open>
  A finite double is the rational it denotes; \<open>-0\<close> is not told from \<open>0\<close>, which none of
  the comparisons below does either.
\<close>

datatype jsnum = NaN | PosInf | NegInf | Num rat

datatype jsval =
    JUndefined
  | JNull
  | JBool bool
  | JNum jsnum
  | JStr jsstring
  | JArr "jsval list"
  | JObj "(jsstring \<times> jsval) list"

abbreviation jint :: "int \<Rightarrow> jsval" where
  "jint i \<equiv> JNum (Num (of_int i))"

abbreviation jlit :: "string \<Rightarrow> jsval" where
  "jlit s \<equiv> JStr (js s)"

text \<open>
  A property read \<open>v.p\<close>. The code reads no property that an array, a string or a number
  has, so these give \<open>undefined\<close>; reads on \<open>undefined\<close> and \<open>null\<close> are guarded
  (\<open>!value ||\<close> or \<open>?.\<close>) wherever they can happen.
\<close>

fun js_get :: "jsval \<Rightarrow> string \<Rightarrow> jsval" where
  "js_get (JObj fs) p = (case map_of fs (js p) of None \<Rightarrow> JUndefined | Some v \<Rightarrow> v)"
| "js_get _ p = JUndefined"

text \<open>An assignment \<open>v.p = x\<close>, and \<open>Object.assign\<close> or a spread of several properties.\<close>

fun js_put :: "string \<Rightarrow> jsval \<Rightarrow> jsval \<Rightarrow> jsval" where
  "js_put p x (JObj fs) = JObj (AList.update (js p) x fs)"
| "js_put p x v = v"

fun js_assign :: "jsval \<Rightarrow> (jsstring \<times> jsval) list \<Rightarrow> jsval" where
  "js_assign (JObj fs) patch = JObj (fold (\<lambda>(k, x). AList.update k x) patch fs)"
| "js_assign v patch = v"

text \<open>What \<open>JSON.stringify\<close> keeps of an object literal: the properties that are defined.\<close>

definition defined_fields :: "(jsstring \<times> jsval) list \<Rightarrow> jsval" where
  "defined_fields fs = JObj (filter (\<lambda>(k, v). v \<noteq> JUndefined) fs)"

fun truthy :: "jsval \<Rightarrow> bool" where
  "truthy JUndefined = False"
| "truthy JNull = False"
| "truthy (JBool b) = b"
| "truthy (JNum NaN) = False"
| "truthy (JNum (Num q)) = (q \<noteq> 0)"
| "truthy (JNum _) = True"
| "truthy (JStr s) = (s \<noteq> [])"
| "truthy _ = True"

fun typeof_object :: "jsval \<Rightarrow> bool" where
  "typeof_object JNull = True"
| "typeof_object (JArr _) = True"
| "typeof_object (JObj _) = True"
| "typeof_object _ = False"

fun typeof_boolean :: "jsval \<Rightarrow> bool" where
  "typeof_boolean (JBool _) = True"
| "typeof_boolean _ = False"

text \<open>\<open>typeof v === 'string'\<close>, with the string.\<close>

fun js_string :: "jsval \<Rightarrow> jsstring option" where
  "js_string (JStr s) = Some s"
| "js_string _ = None"

lemma js_string_Some_iff: "js_string v = Some s \<longleftrightarrow> v = JStr s"
  by (cases v) auto

definition MAX_SAFE_INTEGER :: int where
  "MAX_SAFE_INTEGER = 9007199254740991"

text \<open>
  \<open>Number.isSafeInteger(v)\<close>, with the integer it finds. Sums and differences of two such
  numbers that stay below \<open>MAX_SAFE_INTEGER\<close> are exact, so the model computes on \<open>int\<close>.
\<close>

fun safe_integer :: "jsval \<Rightarrow> int option" where
  "safe_integer (JNum (Num q)) =
     (if q = of_int \<lfloor>q\<rfloor> \<and> \<bar>\<lfloor>q\<rfloor>\<bar> \<le> MAX_SAFE_INTEGER then Some \<lfloor>q\<rfloor> else None)"
| "safe_integer _ = None"

lemma safe_integer_Some_iff:
  "safe_integer v = Some i \<longleftrightarrow> v = jint i \<and> \<bar>i\<bar> \<le> MAX_SAFE_INTEGER"
  by (induction v rule: safe_integer.induct) auto

lemma safe_integer_jint [simp, js_simps]:
  "safe_integer (jint i) = (if \<bar>i\<bar> \<le> MAX_SAFE_INTEGER then Some i else None)"
  by simp

section \<open>Failures\<close>

text \<open>What a rejected promise or a thrown exception carries.\<close>

datatype js_error = Error string | TypeError | AssertionError string

type_synonym 'a promise = "js_error + 'a"

fun fulfilled :: "'a promise \<Rightarrow> bool" where
  "fulfilled (Inl _) = False"
| "fulfilled (Inr _) = True"

text \<open>One step after another: what fails first is the result.\<close>

definition and_then :: "'a promise \<Rightarrow> ('a \<Rightarrow> 'b promise) \<Rightarrow> 'b promise" where
  "and_then m f = (case m of Inl e \<Rightarrow> Inl e | Inr a \<Rightarrow> f a)"

lemma and_then_simps [simp, js_simps]: "and_then (Inl e) f = Inl e" "and_then (Inr a) f = f a"
  by (simp_all add: and_then_def)

lemma and_then_Inr: "and_then m f = Inr b \<longleftrightarrow> (\<exists>a. m = Inr a \<and> f a = Inr b)"
  by (cases m) auto

section \<open>Sorted lists\<close>

lemma nth_mem_take_iff: "distinct xs \<Longrightarrow> j < length xs \<Longrightarrow> xs ! j \<in> set (take n xs) \<longleftrightarrow> j < n"
  by (auto simp: in_set_conv_nth nth_eq_iff_index_eq)

lemma sorted_above_nth:
  assumes "sorted xs" and "distinct xs" and "j < length xs"
  shows "{x \<in> set xs. xs ! j \<le> x} = set (drop j xs)"
proof -
  have above: "xs ! j \<le> xs ! i \<longleftrightarrow> j \<le> i" if "i < length xs" for i
    using assms that sorted_nth_mono [of xs] nth_eq_iff_index_eq [of xs i j]
    by (metis nat_le_linear order_antisym)
  show ?thesis
  proof (rule set_eqI)
    fix x
    show "x \<in> {x \<in> set xs. xs ! j \<le> x} \<longleftrightarrow> x \<in> set (drop j xs)"
    proof
      assume "x \<in> {x \<in> set xs. xs ! j \<le> x}"
      then obtain i where "i < length xs" "x = xs ! i" "j \<le> i"
        by (auto simp: in_set_conv_nth above)
      then show "x \<in> set (drop j xs)"
        by (auto simp: in_set_conv_nth intro!: exI [of _ "i - j"])
    next
      assume "x \<in> set (drop j xs)"
      then show "x \<in> {x \<in> set xs. xs ! j \<le> x}"
        using assms above by (auto simp: in_set_conv_nth)
          (metis le_add1 less_diff_conv add.commute nth_mem)+
    qed
  qed
qed

lemma sorted_rank:
  assumes "sorted xs" and "distinct xs" and "x \<in> set xs"
  shows "x \<in> set (take (length xs - m) xs) \<longleftrightarrow> m < card {y \<in> set xs. x \<le> y}"
proof -
  from assms(3) obtain j where j: "j < length xs" "x = xs ! j"
    by (auto simp: in_set_conv_nth)
  with assms have "card {y \<in> set xs. x \<le> y} = length xs - j"
    by (simp add: sorted_above_nth distinct_card)
  with j assms(2) show ?thesis
    by (auto simp: nth_mem_take_iff)
qed

lemma sorted_prefix_filter:
  assumes "sorted xs" and "\<And>x y. x \<le> y \<Longrightarrow> P y \<Longrightarrow> P x"
  shows "take (length (filter P xs)) xs = filter P xs"
  using assms(1)
proof (induction xs)
  case (Cons x xs)
  show ?case
  proof (cases "P x")
    case True
    with Cons show ?thesis by simp
  next
    case False
    with Cons.prems assms(2) have "filter P xs = []" by (auto simp: filter_empty_conv)
    with False show ?thesis by simp
  qed
qed simp

lemma set_take_max: "set (take (max m n) xs) = set (take m xs) \<union> set (take n xs)"
  using set_take_subset_set_take [of m n xs] set_take_subset_set_take [of n m xs]
  by (auto simp: max_def)

end
