(* ===== verification/ObjectStore.thy ===== *)
theory ObjectStore
  imports Prelude
begin

text \<open>
  The IndexedDB interface the service worker uses (\<open>notifications-sw.js\<close>): an object store with
  \<open>get\<close>, \<open>put\<close>, \<open>delete\<close>, \<open>count\<close>, and a transaction that either commits or
  leaves the store as it was and rejects. The interface is the locale \<open>object_store\<close>; the
  association lists of \<open>HOL-Library.AList\<close> with distinct keys implement it. The locale
  \<open>dedup_ledger\<close> is the contract of a store in which a key is claimed at most once until it is
  removed.
\<close>

section \<open>Object stores\<close>

locale object_store =
  fixes emp :: "'s"
    and get :: "'s \<Rightarrow> 'k \<Rightarrow> 'v option"
    and put :: "'k \<Rightarrow> 'v \<Rightarrow> 's \<Rightarrow> 's"
    and del :: "'k \<Rightarrow> 's \<Rightarrow> 's"
    and cnt :: "'s \<Rightarrow> nat"
    and inv :: "'s \<Rightarrow> bool"
  assumes get_emp: "get emp k = None"
    and get_put: "inv s \<Longrightarrow> get (put k v s) = (get s)(k \<mapsto> v)"
    and get_del: "inv s \<Longrightarrow> get (del k s) = (get s)(k := None)"
    and cnt_card: "inv s \<Longrightarrow> cnt s = card (dom (get s))"
    and fin: "inv s \<Longrightarrow> finite (dom (get s))"
    and inv_emp: "inv emp"
    and inv_put: "inv s \<Longrightarrow> inv (put k v s)"
    and inv_del: "inv s \<Longrightarrow> inv (del k s)"
begin

lemma dom_put: "inv s \<Longrightarrow> dom (get (put k v s)) = insert k (dom (get s))"
  by (simp add: get_put)

lemma dom_del: "inv s \<Longrightarrow> dom (get (del k s)) = dom (get s) - {k}"
  by (simp add: get_del)

lemma cnt_put_fresh: "inv s \<Longrightarrow> get s k = None \<Longrightarrow> cnt (put k v s) = Suc (cnt s)"
  by (simp add: cnt_card inv_put dom_put fin domIff)

lemma cnt_put_known: "inv s \<Longrightarrow> get s k = Some w \<Longrightarrow> cnt (put k v s) = cnt s"
  by (simp add: cnt_card inv_put dom_put domI insert_absorb)

lemma cnt_del: "inv s \<Longrightarrow> get s k = Some v \<Longrightarrow> cnt (del k s) = cnt s - 1"
  by (simp add: cnt_card inv_del dom_del domI)

lemma del_put_fresh: "inv s \<Longrightarrow> get s k = None \<Longrightarrow> get (del k (put k v s)) = get s"
  by (simp add: get_put get_del inv_put fun_upd_idem)

lemma inv_fold_del: "inv s \<Longrightarrow> inv (fold del ks s)"
  by (induction ks arbitrary: s) (simp_all add: inv_del)

lemma get_fold_del:
  "inv s \<Longrightarrow> get (fold del ks s) k = (if k \<in> set ks then None else get s k)"
  by (induction ks arbitrary: s) (auto simp: inv_del get_del)

lemma cnt_fold_del:
  assumes "inv s" and "distinct ks" and "set ks \<subseteq> dom (get s)"
  shows "cnt (fold del ks s) = cnt s - length ks"
proof -
  have "dom (get (fold del ks s)) = dom (get s) - set ks"
    using assms(1) by (auto simp: get_fold_del domIff split: if_splits)
  then show ?thesis
    using assms by (simp add: cnt_card inv_fold_del fin card_Diff_subset distinct_card)
qed

end

section \<open>Association lists as an object store\<close>

type_synonym ('k, 'v) store = "('k \<times> 'v) list"

abbreviation store_get :: "('k, 'v) store \<Rightarrow> 'k \<Rightarrow> 'v option" where
  "store_get s k \<equiv> map_of s k"

abbreviation store_put :: "'k \<Rightarrow> 'v \<Rightarrow> ('k, 'v) store \<Rightarrow> ('k, 'v) store" where
  "store_put \<equiv> AList.update"

abbreviation store_delete :: "'k \<Rightarrow> ('k, 'v) store \<Rightarrow> ('k, 'v) store" where
  "store_delete \<equiv> AList.delete"

abbreviation store_count :: "('k, 'v) store \<Rightarrow> nat" where
  "store_count s \<equiv> length s"

abbreviation store_ok :: "('k, 'v) store \<Rightarrow> bool" where
  "store_ok s \<equiv> distinct (map fst s)"

lemma store_count_card: "store_ok s \<Longrightarrow> store_count s = card (dom (store_get s))"
proof -
  assume ok: "store_ok s"
  have "dom (store_get s) = set (map fst s)"
    by (simp add: dom_map_of_conv_image_fst)
  then show ?thesis
    using distinct_card [OF ok] by simp
qed

interpretation idb: object_store "[]" store_get store_put store_delete store_count store_ok
  by unfold_locales
    (simp_all add: fun_eq_iff update_conv delete_conv distinct_update distinct_delete finite_dom_map_of
      store_count_card)

lemma store_get_put [simp]:
  "store_get (store_put k v s) k' = (if k' = k then Some v else store_get s k')"
  by (simp add: update_conv)

lemma store_get_delete [simp]:
  "store_get (store_delete k s) k' = (if k' = k then None else store_get s k')"
  by (simp add: delete_conv)

section \<open>Transactions\<close>

text \<open>
  What the browser does to one transaction: it runs and commits, the database cannot be opened, or
  the transaction fails or is aborted. An aborted transaction has no effect on its stores.
\<close>

datatype tx_fault = NoFault | OpenFails | TxFails

definition openDatabase :: "tx_fault \<Rightarrow> 'db \<Rightarrow> 'db promise" where
  "openDatabase f db =
     (case f of
        OpenFails \<Rightarrow> Inl (Error ''Notification storage unavailable'')
      | _ \<Rightarrow> Inr db)"

definition transaction ::
  "tx_fault \<Rightarrow> string \<Rightarrow> ('db \<Rightarrow> 'db \<times> 'a) \<Rightarrow> 'db \<Rightarrow> 'db \<times> 'a promise" where
  "transaction f msg body db =
     (case openDatabase f db of
        Inl e \<Rightarrow> (db, Inl e)
      | Inr db1 \<Rightarrow>
          if f = TxFails then (db, Inl (Error msg))
          else (case body db1 of (db2, r) \<Rightarrow> (db2, Inr r)))"

lemma transaction_simps [simp]:
  "transaction NoFault msg body db = (fst (body db), Inr (snd (body db)))"
  "transaction OpenFails msg body db = (db, Inl (Error ''Notification storage unavailable''))"
  "transaction TxFails msg body db = (db, Inl (Error msg))"
  by (simp_all add: transaction_def openDatabase_def split: prod.split)

lemma transaction_cases:
  obtains (commit) "f = NoFault" "transaction f msg body db = (fst (body db), Inr (snd (body db)))"
  | (fail) e where "f \<noteq> NoFault" "transaction f msg body db = (db, Inl e)"
  by (cases f) auto

section \<open>Claims\<close>

text \<open>
  A ledger in which a key is claimed once: a claim wins exactly when the key is absent, and no
  operation but a winning claim of a key makes it present. Every history of claims and removals of
  one key then alternates, so the claims won are at most one more than the times the key was lost.
\<close>

locale dedup_ledger =
  fixes holds :: "'s \<Rightarrow> 'k \<Rightarrow> bool"
    and claim :: "'e \<Rightarrow> 'k \<Rightarrow> 's \<Rightarrow> 's \<times> bool"
    and release :: "'e \<Rightarrow> 'k \<Rightarrow> 's \<Rightarrow> 's"
    and inv :: "'s \<Rightarrow> bool"
  assumes claim_wins: "inv s \<Longrightarrow> snd (claim e k s) \<Longrightarrow> \<not> holds s k"
    and claim_loses: "inv s \<Longrightarrow> \<not> snd (claim e k s) \<Longrightarrow> holds (fst (claim e k s)) k \<Longrightarrow> holds s k"
    and claim_frame: "inv s \<Longrightarrow> k' \<noteq> k \<Longrightarrow> holds (fst (claim e k s)) k' \<Longrightarrow> holds s k'"
    and release_frame: "inv s \<Longrightarrow> holds (release e k s) k' \<Longrightarrow> holds s k'"
    and inv_claim: "inv s \<Longrightarrow> inv (fst (claim e k s))"
    and inv_release: "inv s \<Longrightarrow> inv (release e k s)"
begin

fun step :: "'s \<Rightarrow> 'e \<times> 'k \<times> bool \<Rightarrow> 's \<times> bool" where
  "step s (e, k, True) = claim e k s"
| "step s (e, k, False) = (release e k s, False)"

fun wins :: "'k \<Rightarrow> 's \<Rightarrow> ('e \<times> 'k \<times> bool) list \<Rightarrow> nat" where
  "wins k s [] = 0"
| "wins k s (x # xs) = of_bool (snd (step s x) \<and> fst (snd x) = k) + wins k (fst (step s x)) xs"

fun losses :: "'k \<Rightarrow> 's \<Rightarrow> ('e \<times> 'k \<times> bool) list \<Rightarrow> nat" where
  "losses k s [] = 0"
| "losses k s (x # xs) =
     of_bool ((holds s k \<or> snd (step s x) \<and> fst (snd x) = k) \<and> \<not> holds (fst (step s x)) k)
     + losses k (fst (step s x)) xs"

lemma inv_step: "inv s \<Longrightarrow> inv (fst (step s x))"
  by (cases "(s, x)" rule: step.cases) (auto simp: inv_claim inv_release)

lemma claim_new:
  assumes "inv s" and "holds (fst (claim e k' s)) k" and "\<not> holds s k"
  shows "k' = k \<and> snd (claim e k' s)"
  using assms claim_frame [of s k k' e] claim_loses [of s e k] by blast

lemma step_balance:
  assumes "inv s"
  shows "of_bool (holds s k) + of_bool (snd (step s x) \<and> fst (snd x) = k)
    = (of_bool (holds (fst (step s x)) k)
       + of_bool ((holds s k \<or> snd (step s x) \<and> fst (snd x) = k) \<and> \<not> holds (fst (step s x)) k) :: nat)"
  using assms
  by (cases "(s, x)" rule: step.cases)
     (auto dest: claim_wins release_frame claim_new)

lemma wins_balance:
  "inv s \<Longrightarrow> wins k s xs + of_bool (holds s k) \<le> losses k s xs + 1"
proof (induction xs arbitrary: s)
  case Nil
  then show ?case by simp
next
  case (Cons x xs)
  show ?case
    using Cons.IH [OF inv_step [OF Cons.prems, of x]] step_balance [OF Cons.prems, of k x]
    by simp
qed

lemma wins_once: "inv s \<Longrightarrow> losses k s xs = 0 \<Longrightarrow> wins k s xs \<le> 1"
  using wins_balance [of s k xs] by simp

end

end
