(* ===== verification/NotificationEvents.thy ===== *)
theory NotificationEvents
  imports ObjectStore
begin

text \<open>
  The events a push carries and the ledger of the ones already shown
  (\<open>notifications-sw.js\<close>, lines 3-5 and 58-121): validation (\<open>normalizedEvent\<close>), the
  bounded store of claimed keys (\<open>pruneEvents\<close>, \<open>claimEvent\<close>, \<open>releaseClaim\<close>) and
  the contract they keep (\<open>dedup_ledger\<close>). A call of \<open>Date.now()\<close> is a reading of a clock
  \<open>nat \<Rightarrow> int\<close>; the readings of one transaction are numbered in the order the code takes them.
\<close>

definition MAX_EVENTS :: nat where
  "MAX_EVENTS = 4096"

definition RETENTION_MS :: int where
  "RETENTION_MS = 30 * 24 * 60 * 60 * 1000"

definition MAX_EVENT_AGE_MS :: int where
  "MAX_EVENT_AGE_MS = 5 * 60 * 1000"

lemmas event_bounds = MAX_EVENTS_def RETENTION_MS_def MAX_EVENT_AGE_MS_def

section \<open>Validation\<close>

record event =
  ev_key :: jsstring
  ev_title :: jsstring
  ev_body :: jsstring
  ev_timestamp :: int

definition timestamp_ok :: "int \<Rightarrow> jsval \<Rightarrow> bool" where
  "timestamp_ok now v =
     (case safe_integer v of
        None \<Rightarrow> False
      | Some t \<Rightarrow> \<not> (t \<le> 0 \<or> t > now + 30000 \<or> now - t > MAX_EVENT_AGE_MS))"

text \<open>The checks on the envelope: schema, link, kind, source and their combination.\<close>

definition envelope_ok :: "jsval \<Rightarrow> bool" where
  "envelope_ok v \<longleftrightarrow>
     \<not> (\<not> truthy v \<or> \<not> typeof_object v \<or> js_get v ''schemaVersion'' \<noteq> jint 1
        \<or> js_get v ''url'' \<noteq> jlit ''/'')
     \<and> js_get v ''kind'' \<in> jlit ` {''native'', ''ev'', ''water'', ''lowBattery'', ''test''}
     \<and> js_get v ''source'' \<in> jlit ` {''victron'', ''ha'', ''system''}
     \<and> \<not> (js_get v ''kind'' = jlit ''native''
          \<and> js_get v ''source'' \<notin> jlit ` {''victron'', ''system''})"

definition normalizedEvent :: "int \<Rightarrow> jsval \<Rightarrow> event option" where
  "normalizedEvent now v =
    (if \<not> envelope_ok v then None
     else case js_string (js_get v ''eventKey'') of None \<Rightarrow> None | Some k \<Rightarrow>
       if \<not> hex_exactly 64 k then None
       else case js_string (js_get v ''title'') of None \<Rightarrow> None | Some t \<Rightarrow>
         if t = [] \<or> array_from_length t > 120 then None
         else case js_string (js_get v ''body'') of None \<Rightarrow> None | Some b \<Rightarrow>
           if array_from_length b > 1000 then None
           else if \<not> list_all (timestamp_ok now)
                     [js_get v ''sourceTimestampMs'', js_get v ''observedAtMs''] then None
           else Some \<lparr>ev_key = k, ev_title = t, ev_body = b,
                      ev_timestamp = the (safe_integer (js_get v ''sourceTimestampMs''))\<rparr>)"

text \<open>What a fresh, well-formed push says, as a relation between its fields and the event.\<close>

definition fresh :: "int \<Rightarrow> int \<Rightarrow> bool" where
  "fresh now t \<longleftrightarrow> 0 < t \<and> t \<le> MAX_SAFE_INTEGER \<and> t \<le> now + 30000 \<and> now \<le> t + MAX_EVENT_AGE_MS"

lemma timestamp_ok_iff: "timestamp_ok now v \<longleftrightarrow> (\<exists>t. v = jint t \<and> fresh now t)"
  by (auto simp: timestamp_ok_def fresh_def safe_integer_Some_iff split: option.splits)

definition source_allowed :: "string \<Rightarrow> string \<Rightarrow> bool" where
  "source_allowed kind source \<longleftrightarrow>
     kind \<in> {''native'', ''ev'', ''water'', ''lowBattery'', ''test''}
     \<and> source \<in> {''victron'', ''ha'', ''system''}
     \<and> \<not> (kind = ''native'' \<and> source \<notin> {''victron'', ''system''})"

definition well_formed_push :: "int \<Rightarrow> jsval \<Rightarrow> event \<Rightarrow> bool" where
  "well_formed_push now v e \<longleftrightarrow>
     js_get v ''schemaVersion'' = jint 1 \<and> js_get v ''url'' = jlit ''/''
     \<and> (\<exists>kind source. js_get v ''kind'' = jlit kind \<and> js_get v ''source'' = jlit source
          \<and> source_allowed kind source)
     \<and> js_get v ''eventKey'' = JStr (ev_key e) \<and> hex_exactly 64 (ev_key e)
     \<and> js_get v ''title'' = JStr (ev_title e) \<and> array_from_length (ev_title e) \<in> {1..120}
     \<and> js_get v ''body'' = JStr (ev_body e) \<and> array_from_length (ev_body e) \<le> 1000
     \<and> js_get v ''sourceTimestampMs'' = jint (ev_timestamp e) \<and> fresh now (ev_timestamp e)
     \<and> (\<exists>t. js_get v ''observedAtMs'' = jint t \<and> fresh now t)"

lemma js_get_defined_object: "js_get v p \<noteq> JUndefined \<Longrightarrow> truthy v \<and> typeof_object v"
  by (cases v) auto

lemma jlit_pair_iff:
  "(x \<in> jlit ` K \<and> y \<in> jlit ` S \<and> \<not> (x = jlit n \<and> y \<notin> jlit ` S1))
     \<longleftrightarrow> (\<exists>k s. x = jlit k \<and> y = jlit s \<and> k \<in> K \<and> s \<in> S \<and> \<not> (k = n \<and> s \<notin> S1))"
  by auto

lemma envelope_ok_iff:
  "envelope_ok v \<longleftrightarrow>
     js_get v ''schemaVersion'' = jint 1 \<and> js_get v ''url'' = jlit ''/''
     \<and> (\<exists>kind source. js_get v ''kind'' = jlit kind \<and> js_get v ''source'' = jlit source
          \<and> source_allowed kind source)"
proof (cases "js_get v ''url'' = jlit ''/''")
  case True
  with js_get_defined_object [of v "''url''"] have "truthy v" "typeof_object v" by simp_all
  with True show ?thesis
    unfolding envelope_ok_def source_allowed_def jlit_pair_iff by (simp only: simp_thms de_Morgan_disj not_not)
next
  case False
  then show ?thesis unfolding envelope_ok_def by (simp only: simp_thms)
qed

lemma fresh_safe: "fresh now t \<Longrightarrow> \<bar>t\<bar> \<le> MAX_SAFE_INTEGER"
  by (auto simp: fresh_def)

lemma array_from_length_pos: "s \<noteq> [] \<longleftrightarrow> Suc 0 \<le> array_from_length s"
  using array_from_length_0_iff [of s] by linarith

lemma normalizedEvent_SomeE:
  assumes "normalizedEvent now v = Some e"
  obtains k t b ts ob where "envelope_ok v" "js_get v ''eventKey'' = JStr k" "hex_exactly 64 k"
    "js_get v ''title'' = JStr t" "t \<noteq> []" "array_from_length t \<le> 120"
    "js_get v ''body'' = JStr b" "array_from_length b \<le> 1000"
    "js_get v ''sourceTimestampMs'' = jint ts" "fresh now ts"
    "js_get v ''observedAtMs'' = jint ob" "fresh now ob"
    "e = \<lparr>ev_key = k, ev_title = t, ev_body = b, ev_timestamp = ts\<rparr>"
  using assms
  by (auto simp: normalizedEvent_def timestamp_ok_iff js_string_Some_iff fresh_safe not_less
      split: if_splits option.splits)

lemma normalizedEvent_SomeD: "normalizedEvent now v = Some e \<Longrightarrow> well_formed_push now v e"
  by (erule normalizedEvent_SomeE)
     (simp add: well_formed_push_def envelope_ok_iff array_from_length_pos)

lemma normalizedEvent_SomeI: "well_formed_push now v e \<Longrightarrow> normalizedEvent now v = Some e"
  unfolding well_formed_push_def envelope_ok_iff [symmetric] conj_assoc [symmetric]
  by (auto simp: normalizedEvent_def envelope_ok_iff timestamp_ok_iff fresh_safe
      array_from_length_pos)

lemma normalizedEvent_iff: "normalizedEvent now v = Some e \<longleftrightarrow> well_formed_push now v e"
  using normalizedEvent_SomeD normalizedEvent_SomeI by blast

section \<open>The ledger of claimed events\<close>

text \<open>
  A record of the store \<open>events\<close> and its order in the index \<open>expires\<close>: by expiry, and
  records of equal expiry by primary key, the order in which an index cursor visits them.
\<close>

datatype event_record = EventRecord (rec_key: jsstring) (rec_expires: int)

instantiation event_record :: linorder
begin

definition less_eq_event_record :: "event_record \<Rightarrow> event_record \<Rightarrow> bool" where
  "less_eq_event_record r q \<longleftrightarrow> (rec_expires r, rec_key r) \<le> (rec_expires q, rec_key q)"

definition less_event_record :: "event_record \<Rightarrow> event_record \<Rightarrow> bool" where
  "less_event_record r q \<longleftrightarrow> (rec_expires r, rec_key r) < (rec_expires q, rec_key q)"

instance
  by standard (auto simp: less_eq_event_record_def less_event_record_def event_record.expand)

end

type_synonym event_store = "(jsstring, event_record) store"

definition records :: "event_store \<Rightarrow> event_record set" where
  "records s = snd ` set s"

text \<open>The cursor loop: the records to delete, from the index in order.\<close>

fun prune_cursor :: "(nat \<Rightarrow> int) \<Rightarrow> int \<Rightarrow> event_record list \<Rightarrow> event_record list" where
  "prune_cursor clk excess [] = []"
| "prune_cursor clk excess (r # rs) =
     (if excess > 0 then r # prune_cursor clk (excess - 1) rs
      else if rec_expires r \<le> clk 0 then r # prune_cursor (\<lambda>i. clk (Suc i)) (excess - 1) rs
      else [])"

definition expires_index :: "event_store \<Rightarrow> event_record list" where
  "expires_index s = sort (map snd s)"

definition pruned :: "(nat \<Rightarrow> int) \<Rightarrow> event_store \<Rightarrow> event_record list" where
  "pruned clk s = prune_cursor clk (max 0 (int (store_count s) - int MAX_EVENTS)) (expires_index s)"

definition pruneEvents :: "(nat \<Rightarrow> int) \<Rightarrow> event_store \<Rightarrow> event_store" where
  "pruneEvents clk s = fold store_delete (map rec_key (pruned clk s)) s"

definition claimEvent ::
  "tx_fault \<Rightarrow> (nat \<Rightarrow> int) \<Rightarrow> event \<Rightarrow> event_store \<Rightarrow> event_store \<times> bool promise" where
  "claimEvent f clk ev =
     transaction f ''Notification deduplication unavailable''
       (\<lambda>s. case store_get s (ev_key ev) of
               None \<Rightarrow> (pruneEvents (\<lambda>i. clk (Suc i))
                          (store_put (ev_key ev) (EventRecord (ev_key ev) (clk 0 + RETENTION_MS)) s), True)
             | Some r \<Rightarrow> (pruneEvents clk s, False))"

definition releaseClaim :: "tx_fault \<Rightarrow> jsstring \<Rightarrow> event_store \<Rightarrow> event_store \<times> unit promise" where
  "releaseClaim f k =
     transaction f ''Notification storage unavailable'' (\<lambda>s. (store_delete k s, ()))"

text \<open>Primary keys are unique and are the \<open>key\<close> of their record (\<open>keyPath: 'key'\<close>).\<close>

definition ledger_ok :: "event_store \<Rightarrow> bool" where
  "ledger_ok s \<longleftrightarrow> store_ok s \<and> (\<forall>k r. store_get s k = Some r \<longrightarrow> rec_key r = k)"

subsection \<open>The cursor loop\<close>

lemma prune_cursor_prefix: "\<exists>n. prune_cursor clk excess rs = take n rs \<and> nat excess \<le> n"
proof (induction clk excess rs rule: prune_cursor.induct)
  case (1 clk excess)
  then show ?case by auto
next
  case (2 clk excess r rs)
  show ?case
  proof (cases "excess > 0")
    case True
    with "2.IH"(1) obtain n where "prune_cursor clk (excess - 1) rs = take n rs" "nat (excess - 1) \<le> n"
      by blast
    with True have "prune_cursor clk excess (r # rs) = take (Suc n) (r # rs) \<and> nat excess \<le> Suc n"
      by auto
    then show ?thesis by blast
  next
    case False
    note le = this
    show ?thesis
    proof (cases "rec_expires r \<le> clk 0")
      case True
      with le "2.IH"(2) obtain n where "prune_cursor (\<lambda>i. clk (Suc i)) (excess - 1) rs = take n rs"
        by blast
      with le True have "prune_cursor clk excess (r # rs) = take (Suc n) (r # rs) \<and> nat excess \<le> Suc n"
        by simp
      then show ?thesis by blast
    next
      case False
      with le have "prune_cursor clk excess (r # rs) = take 0 (r # rs) \<and> nat excess \<le> 0"
        by simp
      then show ?thesis by blast
    qed
  qed
qed

lemma take_nat_Cons: "0 < (i::int) \<Longrightarrow> take (nat i) (r # rs) = r # take (nat (i - 1)) rs"
  by (simp add: take_Cons' nat_diff_distrib)

lemma nat_pos_Suc: "0 < (i::int) \<Longrightarrow> nat i = Suc (nat (i - 1))"
  by simp

lemma prune_cursor_nth:
  assumes "r \<in> set (prune_cursor clk excess rs)"
  shows "(\<exists>i. rec_expires r \<le> clk i) \<or> r \<in> set (take (nat excess) rs)"
  using assms
proof (induction clk excess rs rule: prune_cursor.induct)
  case (2 clk excess q rs)
  show ?case
  proof (cases "excess > 0")
    case True
    with 2 show ?thesis by (auto simp: take_nat_Cons)
  next
    case False
    with 2 show ?thesis by (auto split: if_splits)
  qed
qed simp

text \<open>With one reading for the whole loop: the oldest beyond the excess that have expired.\<close>

lemma prune_cursor_const:
  "sorted rs \<Longrightarrow>
   prune_cursor (\<lambda>_. now) excess rs
     = take (max (nat excess) (length (filter (\<lambda>r. rec_expires r \<le> now) rs))) rs"
proof (induction "\<lambda>_::nat. now" excess rs rule: prune_cursor.induct)
  case (2 excess r rs)
  have none: "filter (\<lambda>q. rec_expires q \<le> now) rs = []" if "\<not> rec_expires r \<le> now"
    using that 2(3) by (auto simp: filter_empty_conv less_eq_event_record_def less_eq_prod_def)
  show ?case
  proof (cases "excess > 0")
    case True
    with 2 none show ?thesis by (auto simp: nat_pos_Suc [OF True] max_Suc_Suc simp del: nat_eq_iff)
  next
    case False
    with 2 none show ?thesis by auto
  qed
qed simp

subsection \<open>What pruning keeps\<close>

lemma ledger_ok_store: "ledger_ok s \<Longrightarrow> store_ok s"
  by (simp add: ledger_ok_def)

lemma ledger_keys: "ledger_ok s \<Longrightarrow> map rec_key (map snd s) = map fst s"
  by (auto simp: ledger_ok_def)

lemma expires_index_sorted: "sorted (expires_index s)"
  by (simp add: expires_index_def)

lemma set_expires_index [simp]: "set (expires_index s) = records s"
  by (simp add: expires_index_def records_def)

lemma length_expires_index [simp]: "length (expires_index s) = store_count s"
  by (simp add: expires_index_def)

lemma distinct_index_keys:
  assumes "ledger_ok s"
  shows "distinct (map rec_key (expires_index s))"
proof -
  have "mset (map rec_key (expires_index s)) = mset (map rec_key (map snd s))"
    unfolding expires_index_def mset_map mset_sort ..
  then show ?thesis
    using ledger_keys [OF assms] ledger_ok_store [OF assms] mset_eq_imp_distinct_iff by metis
qed

lemma records_iff: "ledger_ok s \<Longrightarrow> r \<in> records s \<longleftrightarrow> store_get s (rec_key r) = Some r"
  by (force simp: records_def ledger_ok_def)

lemma pruned_take:
  obtains n where "pruned clk s = take n (expires_index s)" "store_count s - MAX_EVENTS \<le> n"
proof -
  from prune_cursor_prefix obtain n where
    n: "pruned clk s = take n (expires_index s)"
       "nat (max 0 (int (store_count s) - int MAX_EVENTS)) \<le> n"
    unfolding pruned_def by blast
  from n(2) have "store_count s - MAX_EVENTS \<le> n" by linarith
  with n(1) show ?thesis by (rule that)
qed

lemma pruned_subset: "set (pruned clk s) \<subseteq> records s"
  by (rule pruned_take [of clk s]) (metis set_expires_index set_take_subset)

lemma distinct_pruned_keys: "ledger_ok s \<Longrightarrow> distinct (map rec_key (pruned clk s))"
  by (rule pruned_take [of clk s]) (metis distinct_index_keys distinct_take take_map)

lemma get_pruneEvents:
  "ledger_ok s \<Longrightarrow> store_get (pruneEvents clk s) k
     = (if k \<in> rec_key ` set (pruned clk s) then None else store_get s k)"
  by (simp add: pruneEvents_def idb.get_fold_del ledger_ok_store)

lemma ledger_ok_pruneEvents: "ledger_ok s \<Longrightarrow> ledger_ok (pruneEvents clk s)"
proof -
  assume ok: "ledger_ok s"
  then have "store_ok (pruneEvents clk s)"
    unfolding pruneEvents_def by (intro idb.inv_fold_del ledger_ok_store)
  with ok show ?thesis
    by (auto simp: ledger_ok_def get_pruneEvents [OF ok] split: if_splits)
qed

lemma count_pruneEvents:
  assumes ok: "ledger_ok s"
  shows "store_count (pruneEvents clk s) = store_count s - length (pruned clk s)"
proof -
  have "set (map rec_key (pruned clk s)) \<subseteq> dom (store_get s)"
    using pruned_subset [of clk s] by (auto simp: records_iff [OF ok])
  with distinct_pruned_keys [OF ok] show ?thesis
    unfolding pruneEvents_def
    using idb.cnt_fold_del [of s "map rec_key (pruned clk s)"] ledger_ok_store [OF ok] by simp
qed

lemma pruneEvents_bounded: "ledger_ok s \<Longrightarrow> store_count (pruneEvents clk s) \<le> MAX_EVENTS"
  by (rule pruned_take [of clk s]) (simp add: count_pruneEvents)

lemma records_pruneEvents:
  assumes ok: "ledger_ok s"
  shows "records (pruneEvents clk s) = records s - set (pruned clk s)"
proof (rule set_eqI)
  fix r
  have "rec_key r \<in> rec_key ` set (pruned clk s) \<longleftrightarrow> r \<in> set (pruned clk s)" if "r \<in> records s"
    using that pruned_subset [of clk s] by (auto simp: records_iff [OF ok])
  then show "r \<in> records (pruneEvents clk s) \<longleftrightarrow> r \<in> records s - set (pruned clk s)"
    by (auto simp: records_iff [OF ledger_ok_pruneEvents [OF ok]] records_iff [OF ok]
        get_pruneEvents [OF ok] split: if_splits)
qed

lemma excess_take_iff:
  assumes "ledger_ok s" and "r \<in> records s"
  shows "r \<in> set (take (store_count s - MAX_EVENTS) (expires_index s))
    \<longleftrightarrow> MAX_EVENTS < card {q \<in> records s. r \<le> q}"
  using sorted_rank [of "expires_index s" r MAX_EVENTS] assms
    distinct_index_keys [OF assms(1)] expires_index_sorted [of s]
  by (simp add: distinct_map)

text \<open>A record goes only when it has expired or newer ones fill the store.\<close>

lemma pruned_reason:
  assumes "ledger_ok s" and "r \<in> set (pruned clk s)"
  shows "(\<exists>i. rec_expires r \<le> clk i) \<or> MAX_EVENTS < card {q \<in> records s. r \<le> q}"
proof -
  have "nat (max 0 (int (store_count s) - int MAX_EVENTS)) = store_count s - MAX_EVENTS"
    by linarith
  with prune_cursor_nth [OF assms(2) [unfolded pruned_def]] show ?thesis
    using excess_take_iff [OF assms(1)] pruned_subset assms(2) by (metis subsetD)
qed

lemma pruned_const:
  "pruned (\<lambda>_. now) s = take (max (store_count s - MAX_EVENTS)
     (length (filter (\<lambda>r. rec_expires r \<le> now) (expires_index s)))) (expires_index s)"
proof -
  have "nat (max 0 (int (store_count s) - int MAX_EVENTS)) = store_count s - MAX_EVENTS"
    by linarith
  then show ?thesis
    unfolding pruned_def by (simp only: prune_cursor_const [OF expires_index_sorted])
qed

lemma set_pruned_const:
  assumes "ledger_ok s"
  shows "set (pruned (\<lambda>_. now) s)
    = {r \<in> records s. rec_expires r \<le> now \<or> MAX_EVENTS < card {q \<in> records s. r \<le> q}}"
proof -
  have "take (length (filter (\<lambda>r. rec_expires r \<le> now) (expires_index s))) (expires_index s)
      = filter (\<lambda>r. rec_expires r \<le> now) (expires_index s)"
    by (rule sorted_prefix_filter [OF expires_index_sorted])
       (auto simp: less_eq_event_record_def less_eq_prod_def)
  then show ?thesis
    using excess_take_iff [OF assms] set_take_subset [of _ "expires_index s"]
    by (auto simp: pruned_const set_take_max)
qed

subsection \<open>Claims\<close>

abbreviation held :: "event_store \<Rightarrow> jsstring \<Rightarrow> bool" where
  "held s k \<equiv> store_get s k \<noteq> None"

definition claim_record :: "(nat \<Rightarrow> int) \<Rightarrow> event \<Rightarrow> event_record" where
  "claim_record clk ev = EventRecord (ev_key ev) (clk 0 + RETENTION_MS)"

lemma claim_record_fields [simp]:
  "rec_key (claim_record clk ev) = ev_key ev"
  "rec_expires (claim_record clk ev) = clk 0 + RETENTION_MS"
  by (simp_all add: claim_record_def)

lemma claimEvent_fail: "f \<noteq> NoFault \<Longrightarrow> \<exists>e. claimEvent f clk ev s = (s, Inl e)"
  by (cases f) (auto simp: claimEvent_def)

lemma claimEvent_known:
  "store_get s (ev_key ev) = Some r \<Longrightarrow> claimEvent NoFault clk ev s = (pruneEvents clk s, Inr False)"
  by (simp add: claimEvent_def)

lemma claimEvent_absent:
  "store_get s (ev_key ev) = None \<Longrightarrow>
   claimEvent NoFault clk ev s
     = (pruneEvents (\<lambda>i. clk (Suc i)) (store_put (ev_key ev) (claim_record clk ev) s), Inr True)"
  by (simp add: claimEvent_def claim_record_def)

lemma ledger_ok_put: "ledger_ok s \<Longrightarrow> ledger_ok (store_put (ev_key ev) (claim_record clk ev) s)"
  by (auto simp: ledger_ok_def distinct_update split: if_splits)

lemma ledger_ok_delete: "ledger_ok s \<Longrightarrow> ledger_ok (store_delete k s)"
  by (auto simp: ledger_ok_def distinct_delete split: if_splits)

lemma records_put_absent:
  assumes "ledger_ok s" and "store_get s (ev_key ev) = None"
  shows "records (store_put (ev_key ev) (claim_record clk ev) s) = insert (claim_record clk ev) (records s)"
proof (rule set_eqI)
  fix r
  show "r \<in> records (store_put (ev_key ev) (claim_record clk ev) s)
      \<longleftrightarrow> r \<in> insert (claim_record clk ev) (records s)"
    using assms(2)
    by (auto simp: records_iff [OF ledger_ok_put [OF assms(1)]] records_iff [OF assms(1)])
qed

lemma claimEvent_ok: "ledger_ok s \<Longrightarrow> ledger_ok (fst (claimEvent f clk ev s))"
  by (cases f; cases "store_get s (ev_key ev)")
     (simp_all add: claimEvent_known claimEvent_absent ledger_ok_pruneEvents ledger_ok_put,
      simp_all add: claimEvent_def)

lemma claimEvent_result:
  "snd (claimEvent f clk ev s) = Inr b \<longleftrightarrow> f = NoFault \<and> b = (\<not> held s (ev_key ev))"
  by (cases f) (auto simp: claimEvent_def split: option.splits)

lemma claimEvent_frame:
  "ledger_ok s \<Longrightarrow> held (fst (claimEvent f clk ev s)) k \<Longrightarrow>
   held s k \<or> k = ev_key ev \<and> snd (claimEvent f clk ev s) = Inr True"
  by (cases f; cases "store_get s (ev_key ev)")
     (auto simp: claimEvent_known claimEvent_absent get_pruneEvents ledger_ok_put split: if_splits,
      auto simp: claimEvent_def split: if_splits)

lemma claimEvent_bounded:
  "ledger_ok s \<Longrightarrow> store_count s \<le> MAX_EVENTS \<Longrightarrow> store_count (fst (claimEvent f clk ev s)) \<le> MAX_EVENTS"
  by (cases f; cases "store_get s (ev_key ev)")
     (simp_all add: claimEvent_known claimEvent_absent pruneEvents_bounded ledger_ok_put,
      simp_all add: claimEvent_def)

lemma releaseClaim_get:
  "store_get (fst (releaseClaim f k s)) k' = (if f = NoFault \<and> k' = k then None else store_get s k')"
  by (cases f) (simp_all add: releaseClaim_def)

lemma releaseClaim_ok: "ledger_ok s \<Longrightarrow> ledger_ok (fst (releaseClaim f k s))"
  by (cases f) (simp_all add: releaseClaim_def ledger_ok_delete)

text \<open>The worker's ledger keeps the contract of \<open>dedup_ledger\<close>.\<close>

definition ledger_claim ::
  "tx_fault \<times> (nat \<Rightarrow> int) \<times> event \<Rightarrow> jsstring \<Rightarrow> event_store \<Rightarrow> event_store \<times> bool" where
  "ledger_claim e k s =
     (case e of (f, clk, ev) \<Rightarrow>
        (case claimEvent f clk (ev\<lparr>ev_key := k\<rparr>) s of (s', r) \<Rightarrow> (s', r = Inr True)))"

definition ledger_release ::
  "tx_fault \<times> (nat \<Rightarrow> int) \<times> event \<Rightarrow> jsstring \<Rightarrow> event_store \<Rightarrow> event_store" where
  "ledger_release e k s = fst (releaseClaim (fst e) k s)"

lemma fst_ledger_claim: "fst (ledger_claim (f, clk, ev) k s) = fst (claimEvent f clk (ev\<lparr>ev_key := k\<rparr>) s)"
  by (simp add: ledger_claim_def split: prod.split)

lemma snd_ledger_claim: "snd (ledger_claim (f, clk, ev) k s) \<longleftrightarrow> f = NoFault \<and> \<not> held s k"
  using claimEvent_result [of f clk "ev\<lparr>ev_key := k\<rparr>" s True]
  by (cases "claimEvent f clk (ev\<lparr>ev_key := k\<rparr>) s") (simp add: ledger_claim_def)

interpretation worker_ledger: dedup_ledger held ledger_claim ledger_release ledger_ok
proof (unfold_locales, goal_cases)
  case (1 s e k)
  then show ?case by (cases e) (simp add: snd_ledger_claim)
next
  case (2 s e k)
  then show ?case
    using claimEvent_frame [of s]
    by (cases e) (fastforce simp: snd_ledger_claim fst_ledger_claim claimEvent_result)
next
  case (3 s k' k e)
  then show ?case
    using claimEvent_frame [of s] by (cases e) (fastforce simp: fst_ledger_claim)
next
  case (4 s e k k')
  then show ?case by (simp add: ledger_release_def releaseClaim_get split: if_splits)
next
  case (5 s e k)
  then show ?case by (cases e) (simp add: fst_ledger_claim claimEvent_ok)
next
  case (6 s e k)
  then show ?case by (simp add: ledger_release_def releaseClaim_ok)
qed

text \<open>A record that has not expired and is among the newest stays through a pruning.\<close>

lemma prune_retains:
  assumes ok: "ledger_ok s" and r: "store_get s k = Some r" and live: "\<forall>i. clk i < rec_expires r"
    and newest: "card {q \<in> records s. r \<le> q} \<le> MAX_EVENTS"
  shows "store_get (pruneEvents clk s) k = Some r"
proof -
  from ok r have key: "rec_key r = k" by (simp add: ledger_ok_def)
  have "r \<notin> set (pruned clk s)"
    using pruned_reason [OF ok, of r clk] live newest by (meson not_less)
  moreover have "q = r" if "q \<in> set (pruned clk s)" "rec_key q = k" for q
    using that r pruned_subset [of clk s] records_iff [OF ok, of q] by auto
  ultimately show ?thesis
    using get_pruneEvents [OF ok, of clk k] r by auto
qed

section \<open>Properties\<close>

text \<open>A push as the server sends it, at a given time; the examples below use it.\<close>

definition demo_key :: jsstring where
  "demo_key = replicate 64 0x61"

definition demo_push :: "int \<Rightarrow> jsval" where
  "demo_push t = JObj
     [(js ''schemaVersion'', jint 1), (js ''eventKey'', JStr demo_key), (js ''kind'', jlit ''native''),
      (js ''source'', jlit ''victron''), (js ''sourceTimestampMs'', jint t), (js ''observedAtMs'', jint t),
      (js ''title'', jlit ''Low battery''), (js ''body'', JStr []), (js ''url'', jlit ''/'')]"

definition demo_event :: "int \<Rightarrow> event" where
  "demo_event t = \<lparr>ev_key = demo_key, ev_title = js ''Low battery'', ev_body = [], ev_timestamp = t\<rparr>"

lemma demo_key_hex: "hex_exactly 64 demo_key"
  by (simp add: hex_exactly_def demo_key_def is_lower_hex_def is_digit_def list_all_iff)

lemma demo_push_accepted: "normalizedEvent 1000 (demo_push 1000) = Some (demo_event 1000)"
  by (simp add: normalizedEvent_def envelope_ok_def demo_push_def demo_event_def demo_key_hex
      timestamp_ok_def MAX_SAFE_INTEGER_def MAX_EVENT_AGE_MS_def image_iff)

text \<open>C16: \<open>normalizedEvent\<close> turns a pushed value into an event exactly when the value is a
  well-formed, fresh notification: schema 1, the root link, an allowed kind and source, a key of 64
  lower-case hexadecimal digits, a title of 1 to 120 and a body of at most 1000 code points, and two
  safe-integer timestamps neither older than five minutes nor more than 30 s ahead of the clock; the
  event then carries exactly the pushed key, title, body and source time.\<close>

theorem normalizedEvent_accepts_exactly:
  "normalizedEvent now v = Some e \<longleftrightarrow> well_formed_push now v e"
  by (rule normalizedEvent_iff)

text \<open>C17: with one reading of the clock, \<open>pruneEvents\<close> keeps exactly the records that have not
  expired and are among the \<open>MAX_EVENTS\<close> newest, although the code only walks a cursor with a
  decreasing counter.\<close>

theorem pruneEvents_keeps_newest:
  assumes "ledger_ok s"
  shows "records (pruneEvents (\<lambda>_. now) s)
    = {r \<in> records s. now < rec_expires r \<and> card {q \<in> records s. r \<le> q} \<le> MAX_EVENTS}"
  unfolding records_pruneEvents [OF assms] set_pruned_const [OF assms]
  by (auto simp: not_le not_less)

lemma pruneEvents_keeps_newest_witness:
  "records (pruneEvents (\<lambda>_. 7) [(js ''a'', EventRecord (js ''a'') 9), (js ''b'', EventRecord (js ''b'') 5)])
    = {r \<in> {EventRecord (js ''a'') 9, EventRecord (js ''b'') 5}. 7 < rec_expires r
       \<and> card {q \<in> {EventRecord (js ''a'') 9, EventRecord (js ''b'') 5}. r \<le> q} \<le> MAX_EVENTS}"
  using pruneEvents_keeps_newest
    [of "[(js ''a'', EventRecord (js ''a'') 9), (js ''b'', EventRecord (js ''b'') 5)]" 7]
  by (simp add: ledger_ok_def records_def)

text \<open>Whatever the clock does during the transaction, a claim never leaves the ledger with
  more than \<open>MAX_EVENTS\<close> records, and it keeps the primary keys unique and equal to the keys of
  their records.\<close>

theorem claimEvent_keeps_ledger_bounded:
  assumes "ledger_ok s" and "store_count s \<le> MAX_EVENTS"
  shows "ledger_ok (fst (claimEvent f clk ev s)) \<and> store_count (fst (claimEvent f clk ev s)) \<le> MAX_EVENTS"
  using assms claimEvent_ok claimEvent_bounded by blast

lemma claimEvent_keeps_ledger_bounded_witness:
  "ledger_ok (fst (claimEvent NoFault (\<lambda>_. 5) (demo_event 5) []))
   \<and> store_count (fst (claimEvent NoFault (\<lambda>_. 5) (demo_event 5) [])) \<le> MAX_EVENTS"
  using claimEvent_keeps_ledger_bounded [of "[]" NoFault "\<lambda>_. 5" "demo_event 5"]
  by (simp add: ledger_ok_def)

text \<open>A claim lasts. While no reading of the clock reaches its expiry and at most
  \<open>MAX_EVENTS\<close> records are at least as new, no later claim of another key removes it, so the
  key is refused to every further push of the same event.\<close>

theorem claim_outlives_other_claims:
  assumes "ledger_ok s" and "store_get s k = Some r" and "ev_key ev \<noteq> k"
    and "\<And>i. clk i < rec_expires r"
    and "card {q \<in> insert (claim_record clk ev) (records s). r \<le> q} \<le> MAX_EVENTS"
  shows "store_get (fst (claimEvent f clk ev s)) k = Some r"
proof (cases "f = NoFault")
  case False
  then show ?thesis using claimEvent_fail [of f clk ev s] assms(2) by force
next
  case True
  show ?thesis
  proof (cases "store_get s (ev_key ev)")
    case None
    with True assms show ?thesis
      by (simp add: claimEvent_absent prune_retains ledger_ok_put records_put_absent)
  next
    case (Some q)
    have "finite (insert (claim_record clk ev) (records s))" by (simp add: records_def)
    then have "card {q \<in> records s. r \<le> q}
        \<le> card {q \<in> insert (claim_record clk ev) (records s). r \<le> q}"
      by (intro card_mono) auto
    with True Some assms show ?thesis by (simp add: claimEvent_known prune_retains)
  qed
qed

lemma claim_outlives_other_claims_witness:
  "store_get (fst (claimEvent NoFault (\<lambda>_. 8) (demo_event 8) [(js ''a'', EventRecord (js ''a'') 9)])) (js ''a'')
    = Some (EventRecord (js ''a'') 9)"
proof (rule claim_outlives_other_claims)
  have "card {q \<in> {claim_record (\<lambda>_. 8) (demo_event 8), EventRecord (js ''a'') 9}. EventRecord (js ''a'') 9 \<le> q}
      \<le> card {claim_record (\<lambda>_. 8) (demo_event 8), EventRecord (js ''a'') 9}"
    by (intro card_mono) auto
  also have "\<dots> \<le> 2" by (simp add: card_insert_if)
  also have "\<dots> \<le> MAX_EVENTS" by (simp add: MAX_EVENTS_def)
  finally show "card {q \<in> insert (claim_record (\<lambda>_. 8) (demo_event 8)) (records [(js ''a'', EventRecord (js ''a'') 9)]).
      EventRecord (js ''a'') 9 \<le> q} \<le> MAX_EVENTS"
    by (simp add: records_def)
  have "length (ev_key (demo_event 8)) = 64" by (simp add: demo_event_def demo_key_def)
  then show "ev_key (demo_event 8) \<noteq> js ''a''" by auto
qed (simp_all add: ledger_ok_def)

text \<open>A fresh claim is kept by its own transaction: with a ledger within its bound that has
  room or holds an older record, and a clock that does not reach the new record's expiry meanwhile,
  the key is in the ledger afterwards.\<close>

theorem claim_recorded:
  assumes "ledger_ok s" and "store_count s \<le> MAX_EVENTS" and "store_get s (ev_key ev) = None"
    and "\<forall>i. clk (Suc i) < clk 0 + RETENTION_MS"
    and "store_count s < MAX_EVENTS \<or> (\<exists>q \<in> records s. q < claim_record clk ev)"
  shows "store_get (fst (claimEvent NoFault clk ev s)) (ev_key ev) = Some (claim_record clk ev)"
proof -
  let ?r = "claim_record clk ev"
  have fin: "finite (records s)" by (simp add: records_def)
  have card: "card (records s) = store_count s"
    using distinct_index_keys [OF assms(1)] distinct_card [of "expires_index s"]
    by (simp add: distinct_map)
  have "card {q \<in> insert ?r (records s). ?r \<le> q} \<le> MAX_EVENTS"
    using assms(5)
  proof
    assume "store_count s < MAX_EVENTS"
    moreover have "card {q \<in> insert ?r (records s). ?r \<le> q} \<le> card (insert ?r (records s))"
      using fin by (intro card_mono) auto
    ultimately show ?thesis using card_insert_le_m1 [OF _ , of "card (insert ?r (records s))" "records s" ?r] card fin
      by (simp add: card_insert_if split: if_splits)
  next
    assume "\<exists>q \<in> records s. q < ?r"
    then obtain q where q: "q \<in> records s" "q < ?r" by blast
    then have "{q \<in> insert ?r (records s). ?r \<le> q} \<subseteq> insert ?r (records s) - {q}" by auto
    then have "card {q \<in> insert ?r (records s). ?r \<le> q} \<le> card (insert ?r (records s) - {q})"
      using fin by (intro card_mono) auto
    also have "\<dots> \<le> card (records s)" using q fin by (simp add: card_insert_if)
    finally show ?thesis using card assms(2) by simp
  qed
  then show ?thesis
    using assms(3,4)
    by (simp add: claimEvent_absent prune_retains ledger_ok_put [OF assms(1)]
        records_put_absent [OF assms(1,3)])
qed

lemma claim_recorded_witness:
  "store_get (fst (claimEvent NoFault (\<lambda>_. 8) (demo_event 8) [])) (ev_key (demo_event 8))
    = Some (claim_record (\<lambda>_. 8) (demo_event 8))"
  by (rule claim_recorded) (simp_all add: ledger_ok_def event_bounds)

end
