(* ===== verification/NotificationSettings.thy ===== *)
theory NotificationSettings
  imports ObjectStore
begin

text \<open>
  The user's delivery choice (\<open>notifications-sw.js\<close>, lines 6 and 22-56): one saved object
  \<open>{enabled, generation}\<close>, read and changed in a transaction by every tab. A generation counts
  the choices that were retired; an operation that has to wait for the browser or the server names
  the generation it began in and is refused in any other. The locale \<open>intent_gate\<close> is that
  contract; the worker's \<open>changeSettings\<close> implements it.
\<close>

section \<open>Saved settings\<close>

record setting =
  enabled :: bool
  generation :: int

definition DEFAULT_SETTINGS :: setting where
  "DEFAULT_SETTINGS = \<lparr>enabled = False, generation = 0\<rparr>"

type_synonym settings_store = "(jsstring, jsval) store"

definition setting_object :: "setting \<Rightarrow> jsval" where
  "setting_object c = JObj [(js ''enabled'', JBool (enabled c)), (js ''generation'', jint (generation c))]"

text \<open>What a transaction finds: any saved value, read defensively.\<close>

definition current_setting :: "settings_store \<Rightarrow> setting" where
  "current_setting s =
     (let result = (case store_get s (js ''delivery'') of None \<Rightarrow> JUndefined | Some v \<Rightarrow> v);
          saved = (if truthy result then result else setting_object DEFAULT_SETTINGS)
      in \<lparr>enabled = (js_get saved ''enabled'' = JBool True),
          generation = (case safe_integer (js_get saved ''generation'') of Some g \<Rightarrow> g | None \<Rightarrow> 0)\<rparr>)"

record settings_result = setting +
  applied :: bool

definition settings ::
  "tx_fault \<Rightarrow> (setting \<Rightarrow> setting option) option \<Rightarrow> settings_store
    \<Rightarrow> settings_store \<times> settings_result promise" where
  "settings f update =
     transaction f ''Notification settings unavailable''
       (\<lambda>s. let current = current_setting s;
                next = (case update of None \<Rightarrow> None | Some u \<Rightarrow> u current);
                shown = (case next of None \<Rightarrow> current | Some n \<Rightarrow> n)
            in (case next of None \<Rightarrow> s | Some n \<Rightarrow> store_put (js ''delivery'') (setting_object n) s,
                setting.extend shown \<lparr>applied = (update = None \<or> next \<noteq> None)\<rparr>))"

section \<open>Changing the choice\<close>

definition change :: "jsval \<Rightarrow> setting \<Rightarrow> setting option" where
  "change request current =
     (let begins = (js_get request ''type'' = jlit ''notification-settings-begin'');
          chosen = js_get request ''enabled''
      in if (begins \<or> chosen = JBool True)
            \<and> safe_integer (js_get request ''generation'') \<noteq> Some (generation current) then None
         else if begins \<or> chosen = JBool False then
           if generation current \<ge> MAX_SAFE_INTEGER then None
           else Some \<lparr>enabled = False, generation = generation current + 1\<rparr>
         else Some \<lparr>enabled = True, generation = generation current\<rparr>)"

definition changeSettings ::
  "tx_fault \<Rightarrow> jsval \<Rightarrow> settings_store \<Rightarrow> settings_store \<times> settings_result promise" where
  "changeSettings f request = settings f (Some (change request))"

section \<open>Reading back what was saved\<close>

lemma setting_object_get [simp]:
  "js_get (setting_object c) ''enabled'' = JBool (enabled c)"
  "js_get (setting_object c) ''generation'' = jint (generation c)"
  "truthy (setting_object c)"
  by (simp_all add: setting_object_def)

lemma current_setting_safe: "\<bar>generation (current_setting s)\<bar> \<le> MAX_SAFE_INTEGER"
  by (auto simp: current_setting_def Let_def safe_integer_Some_iff MAX_SAFE_INTEGER_def
      split: option.splits)

lemma current_setting_put:
  "\<bar>generation c\<bar> \<le> MAX_SAFE_INTEGER \<Longrightarrow>
   current_setting (store_put (js ''delivery'') (setting_object c) s) = c"
  by (simp add: current_setting_def)

lemma current_setting_empty: "current_setting [] = DEFAULT_SETTINGS"
  by (simp add: current_setting_def DEFAULT_SETTINGS_def MAX_SAFE_INTEGER_def)

lemma current_setting_enabled:
  "enabled (current_setting s) \<longleftrightarrow>
   (\<exists>v. store_get s (js ''delivery'') = Some v \<and> truthy v \<and> js_get v ''enabled'' = JBool True)"
  by (auto simp: current_setting_def Let_def DEFAULT_SETTINGS_def split: option.splits)

lemma change_safe:
  "change request c = Some n \<Longrightarrow> \<bar>generation c\<bar> \<le> MAX_SAFE_INTEGER \<Longrightarrow> \<bar>generation n\<bar> \<le> MAX_SAFE_INTEGER"
  by (auto simp: change_def Let_def split: if_splits)

lemma settings_read [simp]:
  "settings NoFault None s = (s, Inr (setting.extend (current_setting s) \<lparr>applied = True\<rparr>))"
  by (simp add: settings_def)

lemma settings_read_store: "fst (settings f None s) = s"
  by (cases f) (simp_all add: settings_def)

lemma changeSettings_refused:
  "change request (current_setting s) = None \<Longrightarrow>
   changeSettings NoFault request s = (s, Inr (setting.extend (current_setting s) \<lparr>applied = False\<rparr>))"
  by (simp add: changeSettings_def settings_def)

lemma changeSettings_applied:
  "change request (current_setting s) = Some n \<Longrightarrow>
   changeSettings NoFault request s
     = (store_put (js ''delivery'') (setting_object n) s, Inr (setting.extend n \<lparr>applied = True\<rparr>))"
  by (simp add: changeSettings_def settings_def)

lemma changeSettings_fault: "f \<noteq> NoFault \<Longrightarrow> \<exists>e. changeSettings f request s = (s, Inl e)"
  by (cases f) (auto simp: changeSettings_def settings_def)

lemma current_setting_changeSettings:
  "current_setting (fst (changeSettings f request s)) =
     (if f = NoFault
      then case change request (current_setting s) of None \<Rightarrow> current_setting s | Some n \<Rightarrow> n
      else current_setting s)"
  using changeSettings_fault [of f request s] change_safe current_setting_safe
  by (cases "change request (current_setting s)"; cases "f = NoFault")
     (auto simp: changeSettings_refused changeSettings_applied current_setting_put)

section \<open>The generation gate\<close>

locale intent_gate =
  fixes on :: "'s \<Rightarrow> bool"
    and gen :: "'s \<Rightarrow> int"
    and act :: "'r \<Rightarrow> 's \<Rightarrow> 's"
  assumes act_cases:
    "on (act r s) = on s \<and> gen (act r s) = gen s
     \<or> \<not> on (act r s) \<and> gen (act r s) = gen s + 1
     \<or> on (act r s) \<and> gen (act r s) = gen s"
begin

lemma gen_act_mono: "gen s \<le> gen (act r s)"
  using act_cases [of r s] by auto

lemma gen_run_mono: "gen s \<le> gen (fold act rs s)"
  by (induction rs arbitrary: s) (auto intro: order_trans gen_act_mono)

text \<open>No ABA: a generation seen twice was the generation all along, and was never switched off.\<close>

lemma same_generation_between:
  assumes "gen (fold act (rs @ qs) s) = gen s"
  shows "gen (fold act rs s) = gen s"
  using assms gen_run_mono [of s rs] gen_run_mono [of "fold act rs s" qs] by simp

lemma same_generation_stays_on:
  "gen (fold act rs s) = gen s \<Longrightarrow> on s \<Longrightarrow> on (fold act rs s)"
proof (induction rs arbitrary: s)
  case (Cons r rs)
  from Cons.prems(1) gen_act_mono [of s r] gen_run_mono [of "act r s" rs]
  have eq: "gen (act r s) = gen s" "gen (fold act rs (act r s)) = gen (act r s)" by auto
  from eq(1) Cons.prems(2) act_cases [of r s] have "on (act r s)" by auto
  with eq(2) Cons.IH show ?case by simp
qed simp

lemma switched_off_generation:
  assumes "on s" and "\<not> on (fold act rs s)"
  shows "gen s < gen (fold act rs s)"
  using assms same_generation_stays_on [of rs s] gen_run_mono [of s rs] by fastforce

end

definition apply_request :: "tx_fault \<times> jsval \<Rightarrow> settings_store \<Rightarrow> settings_store" where
  "apply_request x s = fst (changeSettings (fst x) (snd x) s)"

lemma change_cases:
  assumes "change request c = Some n"
  obtains (retire) "\<not> enabled n" "generation n = generation c + 1" "generation c < MAX_SAFE_INTEGER"
  | (enable) "n = \<lparr>enabled = True, generation = generation c\<rparr>"
      "safe_integer (js_get request ''generation'') = Some (generation c)
       \<or> js_get request ''enabled'' \<notin> {JBool True, JBool False}"
  using assms by (auto simp: change_def Let_def split: if_splits)

interpretation worker_gate: intent_gate
  "\<lambda>s. enabled (current_setting s)" "\<lambda>s. generation (current_setting s)" apply_request
proof (unfold_locales, goal_cases)
  case (1 r s)
  show ?case
  proof (cases "change (snd r) (current_setting s)")
    case None
    then show ?thesis by (simp add: apply_request_def current_setting_changeSettings)
  next
    case (Some n)
    from Some show ?thesis
      by (cases rule: change_cases)
         (simp_all add: apply_request_def current_setting_changeSettings Some)
  qed
qed

section \<open>Properties\<close>

definition demo_enable :: "int \<Rightarrow> jsval" where
  "demo_enable g = JObj [(js ''type'', jlit ''notification-settings-set''), (js ''enabled'', JBool True),
     (js ''generation'', jint g)]"

definition demo_disable :: jsval where
  "demo_disable = JObj [(js ''type'', jlit ''notification-settings-set''), (js ''enabled'', JBool False)]"

definition demo_begin :: "int \<Rightarrow> jsval" where
  "demo_begin g = JObj [(js ''type'', jlit ''notification-settings-begin''), (js ''generation'', jint g)]"

lemmas demo_requests = demo_enable_def demo_disable_def demo_begin_def

text \<open>Delivery fails closed. Whatever the database holds under \<open>delivery\<close> (nothing, a
  legacy value, an object of any shape), it reads as enabled only if it is a truthy value whose
  \<open>enabled\<close> is literally \<open>true\<close>, and the generation it reads as is always a safe integer.\<close>

theorem saved_settings_fail_closed:
  "(enabled (current_setting s) \<longleftrightarrow>
      (\<exists>v. store_get s (js ''delivery'') = Some v \<and> truthy v \<and> js_get v ''enabled'' = JBool True))
   \<and> \<bar>generation (current_setting s)\<bar> \<le> MAX_SAFE_INTEGER"
  using current_setting_enabled current_setting_safe by blast

text \<open>The settings changeSettings reports are what the next transaction reads.\<close>

theorem changeSettings_read_back:
  assumes "snd (changeSettings f request s) = Inr r"
  shows "snd (settings NoFault None (fst (changeSettings f request s)))
    = Inr (setting.extend (setting.truncate r) \<lparr>applied = True\<rparr>)"
proof -
  from assms have "f = NoFault"
    using changeSettings_fault [of f request s] by force
  with assms show ?thesis
    using current_setting_changeSettings [of NoFault request s]
    by (cases "change request (current_setting s)")
       (auto simp: changeSettings_refused changeSettings_applied setting.extend_def setting.truncate_def)
qed

lemma changeSettings_read_back_witness:
  "snd (settings NoFault None (fst (changeSettings NoFault demo_disable [])))
    = Inr (setting.extend \<lparr>enabled = False, generation = 1\<rparr> \<lparr>applied = True\<rparr>)"
proof -
  have "change demo_disable (current_setting []) = Some \<lparr>enabled = False, generation = 1\<rparr>"
    by (simp add: change_def demo_disable_def current_setting_empty DEFAULT_SETTINGS_def MAX_SAFE_INTEGER_def)
  then have "snd (changeSettings NoFault demo_disable [])
      = Inr (setting.extend \<lparr>enabled = False, generation = 1\<rparr> \<lparr>applied = True\<rparr>)"
    by (simp add: changeSettings_applied)
  from changeSettings_read_back [OF this] show ?thesis
    by (simp add: setting.extend_def setting.truncate_def)
qed

end
