(* ===== verification/NotificationDelivery.thy ===== *)
theory NotificationDelivery
  imports NotificationEvents NotificationSettings
begin

text \<open>
  Showing one pushed event (\<open>notifications-sw.js\<close>, \<open>deliver\<close>, lines 123-146, and the push listener, 173-177). The
  function awaits six times; between two awaits it runs without interruption, and other pushes and
  messages run in between. It is therefore a \<open>task\<close> with one step per segment, and
  \<open>deliver\<close> is the task run alone to its end.
\<close>

section \<open>State\<close>

record notification =
  n_title :: jsstring
  n_body :: jsstring
  n_tag :: jsstring
  n_timestamp :: int
  n_icon :: string
  n_path :: string

record worker =
  w_settings :: settings_store
  w_events :: event_store
  w_shown :: "notification list"

text \<open>The answers of the browser to one segment: its transaction, its clock, its display.\<close>

record answer =
  a_fault :: tx_fault
  a_clock :: "nat \<Rightarrow> int"
  a_displays :: bool

datatype task =
    Arrived jsval
  | AwaitSettings event
  | AwaitClaim event setting
  | AwaitRecheck event setting
  | AwaitDisplay event
  | AwaitRelease event
  | Resolved bool
  | Thrown js_error

fun settled :: "task \<Rightarrow> bool" where
  "settled (Resolved _) = True"
| "settled (Thrown _) = True"
| "settled _ = False"

section \<open>Segments\<close>

text \<open>\<open>local_time t\<close> is \<open>new Date(t).toLocaleString(undefined, {timeZoneName: 'short'})\<close>.\<close>

definition notification_of :: "(int \<Rightarrow> jsstring) \<Rightarrow> event \<Rightarrow> notification" where
  "notification_of local_time e =
     (let bodyPrefix = (if ev_body e \<noteq> [] then ev_body e @ [0x0A] else [])
      in \<lparr>n_title = ev_title e,
          n_body = bodyPrefix @ js ''Event: '' @ local_time (ev_timestamp e),
          n_tag = ev_key e, n_timestamp = ev_timestamp e,
          n_icon = ''/notification-icon.svg'', n_path = ''/''\<rparr>)"

fun deliver_step :: "(int \<Rightarrow> jsstring) \<Rightarrow> answer \<Rightarrow> task \<Rightarrow> worker \<Rightarrow> worker \<times> task" where
  "deliver_step lt a (Arrived v) w =
     (w, case normalizedEvent (a_clock a 0) v of None \<Rightarrow> Resolved False | Some e \<Rightarrow> AwaitSettings e)"
| "deliver_step lt a (AwaitSettings e) w =
     (w, case snd (settings (a_fault a) None (w_settings w)) of
           Inl err \<Rightarrow> Thrown err
         | Inr config \<Rightarrow> if \<not> enabled config then Resolved False
                       else AwaitClaim e (setting.truncate config))"
| "deliver_step lt a (AwaitClaim e config) w =
     (case claimEvent (a_fault a) (a_clock a) e (w_events w) of
        (s, Inl err) \<Rightarrow> (w\<lparr>w_events := s\<rparr>, Thrown err)
      | (s, Inr won) \<Rightarrow> (w\<lparr>w_events := s\<rparr>, if \<not> won then Resolved False else AwaitRecheck e config))"
| "deliver_step lt a (AwaitRecheck e config) w =
     (w, case snd (settings (a_fault a) None (w_settings w)) of
           Inl err \<Rightarrow> Thrown err
         | Inr current \<Rightarrow>
             if \<not> enabled current \<or> generation current \<noteq> generation config then Resolved False
             else AwaitDisplay e)"
| "deliver_step lt a (AwaitDisplay e) w =
     (if a_displays a then (w\<lparr>w_shown := w_shown w @ [notification_of lt e]\<rparr>, Resolved True)
      else (w, AwaitRelease e))"
| "deliver_step lt a (AwaitRelease e) w =
     (case releaseClaim (a_fault a) (ev_key e) (w_events w) of
        (s, Inl err) \<Rightarrow> (w\<lparr>w_events := s\<rparr>, Thrown err)
      | (s, Inr _) \<Rightarrow> (w\<lparr>w_events := s\<rparr>,
                     Thrown (Error ''The browser could not display the notification'')))"
| "deliver_step lt a t w = (w, t)"

text \<open>A task alone: at most six segments, each with its own answers.\<close>

fun run_task :: "(int \<Rightarrow> jsstring) \<Rightarrow> answer list \<Rightarrow> task \<Rightarrow> worker \<Rightarrow> worker \<times> task" where
  "run_task lt [] t w = (w, t)"
| "run_task lt (a # as) t w = (case deliver_step lt a t w of (w', t') \<Rightarrow> run_task lt as t' w')"

definition deliver ::
  "(int \<Rightarrow> jsstring) \<Rightarrow> (nat \<Rightarrow> answer) \<Rightarrow> jsval \<Rightarrow> worker \<Rightarrow> worker \<times> task" where
  "deliver lt ans v w = run_task lt (map ans [0..<6]) (Arrived v) w"

text \<open>
  The push listener: \<open>deliver(event.data?.json())\<close> with every failure swallowed. The data is
  \<open>Inl\<close> where \<open>json()\<close> throws and \<open>JUndefined\<close> where the push carries none.
\<close>

definition on_push ::
  "(int \<Rightarrow> jsstring) \<Rightarrow> (nat \<Rightarrow> answer) \<Rightarrow> jsval promise \<Rightarrow> worker \<Rightarrow> worker \<times> unit promise" where
  "on_push lt ans data w =
     (case data of
        Inl _ \<Rightarrow> (w, Inr ())
      | Inr v \<Rightarrow> (case deliver lt ans v w of
          (w', Thrown _) \<Rightarrow> (w', Inr ())
        | (w', _) \<Rightarrow> (w', Inr ())))"

section \<open>One segment\<close>

lemma deliver_step_settled [simp]: "settled t \<Longrightarrow> deliver_step lt a t w = (w, t)"
  by (cases t) simp_all

lemma run_task_settled [simp]: "settled t \<Longrightarrow> run_task lt as t w = (w, t)"
  by (induction as) simp_all

text \<open>How far a task still has to go, which every segment shortens.\<close>

fun remaining :: "task \<Rightarrow> nat" where
  "remaining (Arrived _) = 6"
| "remaining (AwaitSettings _) = 5"
| "remaining (AwaitClaim _ _) = 4"
| "remaining (AwaitRecheck _ _) = 3"
| "remaining (AwaitDisplay _) = 2"
| "remaining (AwaitRelease _) = 1"
| "remaining _ = 0"

lemma remaining_0_iff: "remaining t = 0 \<longleftrightarrow> settled t"
  by (cases t) simp_all

lemma deliver_step_remaining:
  "deliver_step lt a t w = (w', t') \<Longrightarrow> \<not> settled t \<Longrightarrow> remaining t' < remaining t"
  by (cases t) (auto split: option.splits sum.splits prod.splits if_splits)

lemma run_task_settles: "remaining t \<le> length as \<Longrightarrow> settled (snd (run_task lt as t w))"
proof (induction as arbitrary: t w)
  case Nil
  then show ?case by (simp add: remaining_0_iff)
next
  case (Cons a as)
  show ?case
  proof (cases "settled t")
    case False
    obtain w' t' where step: "deliver_step lt a t w = (w', t')" by fastforce
    from deliver_step_remaining [OF step False] Cons.prems have "remaining t' \<le> length as" by simp
    with Cons.IH step show ?thesis by simp
  qed simp
qed

lemma deliver_step_settings: "w_settings (fst (deliver_step lt a t w)) = w_settings w"
  by (cases t) (auto split: option.splits sum.splits prod.splits)

lemma run_task_settings: "w_settings (fst (run_task lt as t w)) = w_settings w"
proof (induction as arbitrary: t w)
  case (Cons a as)
  obtain w' t' where "deliver_step lt a t w = (w', t')" by fastforce
  with Cons.IH deliver_step_settings [of lt a t w] show ?case by simp
qed simp

lemma deliver_step_ledger:
  "ledger_ok (w_events w) \<Longrightarrow> ledger_ok (w_events (fst (deliver_step lt a t w)))"
  using claimEvent_ok releaseClaim_ok
  by (cases t) (auto split: option.splits sum.splits prod.splits, (metis fst_conv)+)

text \<open>What each segment needs to go on, and what stops it.\<close>

lemma settings_read_result:
  "snd (settings f None s) = Inr c \<longleftrightarrow> f = NoFault \<and> c = setting.extend (current_setting s) \<lparr>applied = True\<rparr>"
  by (cases f) (auto simp: settings_def)

lemma extend_fields [simp]:
  "enabled (setting.extend c x) = enabled c" "generation (setting.extend c x) = generation c"
  "setting.truncate (setting.extend c x) = c"
  by (simp_all add: setting.extend_def setting.truncate_def)

lemma to_AwaitClaim:
  "deliver_step lt a t w = (w', AwaitClaim e c) \<longleftrightarrow>
   t = AwaitSettings e \<and> w' = w \<and> a_fault a = NoFault \<and> c = current_setting (w_settings w) \<and> enabled c"
  by (cases t)
     (auto simp: settings_read_result split: option.splits sum.splits prod.splits if_splits)

lemma to_AwaitSettings:
  "deliver_step lt a t w = (w', AwaitSettings e) \<and> \<not> settled t \<longleftrightarrow>
   (\<exists>v. t = Arrived v \<and> w' = w \<and> normalizedEvent (a_clock a 0) v = Some e)"
  by (cases t) (auto split: option.splits sum.splits prod.splits if_splits)

lemma claimEvent_pair:
  "claimEvent f clk e s = (s', Inr b) \<longleftrightarrow>
   f = NoFault \<and> b = (\<not> held s (ev_key e)) \<and> s' = fst (claimEvent NoFault clk e s)"
  using claimEvent_result [of f clk e s b] by (cases "claimEvent f clk e s") auto

lemma claimEvent_no_error [simp]: "claimEvent NoFault clk e s \<noteq> (s', Inl err)"
  by (auto simp: claimEvent_def split: option.splits)

lemma to_AwaitRecheck:
  "deliver_step lt a t w = (w', AwaitRecheck e c) \<longleftrightarrow>
   t = AwaitClaim e c \<and> a_fault a = NoFault \<and> \<not> held (w_events w) (ev_key e)
   \<and> w' = w\<lparr>w_events := fst (claimEvent NoFault (a_clock a) e (w_events w))\<rparr>"
  by (cases t)
     (auto simp: claimEvent_pair split: option.splits sum.splits prod.splits if_splits)

lemma to_AwaitDisplay:
  "deliver_step lt a t w = (w', AwaitDisplay e) \<longleftrightarrow>
   (\<exists>c. t = AwaitRecheck e c \<and> w' = w \<and> a_fault a = NoFault
      \<and> enabled (current_setting (w_settings w))
      \<and> generation (current_setting (w_settings w)) = generation c)"
  by (cases t)
     (auto simp: settings_read_result split: option.splits sum.splits prod.splits if_splits)

section \<open>A delivery alone\<close>

lemma upt6: "map f [0..<6] = [f 0, f 1, f 2, f 3, f 4, f 5]"
  by (simp add: eval_nat_numeral)

lemmas deliver_run = deliver_def upt6

lemma deliver_settles: "settled (snd (deliver lt ans v w))"
  unfolding deliver_def by (rule run_task_settles) simp

lemma deliver_invalid:
  "normalizedEvent (a_clock (ans 0) 0) v = None \<Longrightarrow> deliver lt ans v w = (w, Resolved False)"
  by (simp add: deliver_run)

lemma settings_read_cases:
  obtains "f = NoFault" "snd (settings f None s) = Inr (setting.extend (current_setting s) \<lparr>applied = True\<rparr>)"
  | e where "f \<noteq> NoFault" "snd (settings f None s) = Inl e"
  by (cases f) (auto simp: settings_def)

lemma deliver_off:
  assumes "normalizedEvent (a_clock (ans 0) 0) v = Some e"
    and "a_fault (ans 1) = NoFault" and "\<not> enabled (current_setting (w_settings w))"
  shows "deliver lt ans v w = (w, Resolved False)"
  using assms by (simp add: deliver_run)

lemma deliver_duplicate:
  assumes "normalizedEvent (a_clock (ans 0) 0) v = Some e"
    and "a_fault (ans 1) = NoFault" and "enabled (current_setting (w_settings w))"
    and "a_fault (ans 2) = NoFault" and "held (w_events w) (ev_key e)"
  shows "deliver lt ans v w
    = (w\<lparr>w_events := pruneEvents (a_clock (ans 2)) (w_events w)\<rparr>, Resolved False)"
  using assms by (auto simp: deliver_run claimEvent_known)

lemma deliver_won:
  assumes "normalizedEvent (a_clock (ans 0) 0) v = Some e"
    and "a_fault (ans 1) = NoFault" and "enabled (current_setting (w_settings w))"
    and "a_fault (ans 2) = NoFault" and "\<not> held (w_events w) (ev_key e)"
  shows "deliver lt ans v w = run_task lt [ans 3, ans 4, ans 5]
    (AwaitRecheck e (current_setting (w_settings w)))
    (w\<lparr>w_events := fst (claimEvent NoFault (a_clock (ans 2)) e (w_events w))\<rparr>)"
  using assms by (simp add: deliver_run claimEvent_absent)

lemma run_recheck:
  assumes "a_fault a = NoFault" and "enabled c" and "c = current_setting (w_settings w)"
  shows "run_task lt (a # as) (AwaitRecheck e c) w = run_task lt as (AwaitDisplay e) w"
  using assms by simp

lemma deliver_shows:
  "deliver lt ans v w = (w', Resolved True) \<longleftrightarrow>
   (\<exists>e. normalizedEvent (a_clock (ans 0) 0) v = Some e
      \<and> a_fault (ans 1) = NoFault \<and> enabled (current_setting (w_settings w))
      \<and> a_fault (ans 2) = NoFault \<and> \<not> held (w_events w) (ev_key e)
      \<and> a_fault (ans 3) = NoFault \<and> a_displays (ans 4)
      \<and> w' = w\<lparr>w_events := fst (claimEvent NoFault (a_clock (ans 2)) e (w_events w)),
               w_shown := w_shown w @ [notification_of lt e]\<rparr>)"
proof (cases "normalizedEvent (a_clock (ans 0) 0) v")
  case None
  then show ?thesis by (simp add: deliver_invalid)
next
  case (Some e)
  let ?s = "w_settings w"
  consider (read) "a_fault (ans 1) \<noteq> NoFault" | (off) "a_fault (ans 1) = NoFault" "\<not> enabled (current_setting ?s)"
    | (on) "a_fault (ans 1) = NoFault" "enabled (current_setting ?s)" by blast
  then show ?thesis
  proof cases
    case read
    then obtain err where "snd (settings (a_fault (ans 1)) None ?s) = Inl err"
      by (cases rule: settings_read_cases [of "a_fault (ans 1)" ?s]) auto
    with Some read show ?thesis by (simp add: deliver_run)
  next
    case off
    with Some show ?thesis by (simp add: deliver_off)
  next
    case on
    then show ?thesis
      using Some claimEvent_fail [of "a_fault (ans 2)" "a_clock (ans 2)" e "w_events w"]
      by (cases "a_fault (ans 2) = NoFault"; cases "store_get (w_events w) (ev_key e)";
          cases rule: settings_read_cases [of "a_fault (ans 3)" ?s])
         (auto simp: deliver_run claimEvent_known claimEvent_absent
           split: if_splits sum.splits prod.splits)
  qed
qed

section \<open>Properties\<close>

text \<open>C5: what \<open>deliver\<close> shows. Run alone, it resolves \<open>true\<close> exactly when the pushed
  value is a valid event, delivery is enabled, its key is not in the ledger, every transaction
  commits and the browser displays it; then precisely this event's notification has been added to
  the screen, its key has been claimed, and the settings are as before.\<close>

theorem deliver_shows_exactly_when:
  "deliver lt ans v w = (w', Resolved True) \<longleftrightarrow>
   (\<exists>e. normalizedEvent (a_clock (ans 0) 0) v = Some e
      \<and> a_fault (ans 1) = NoFault \<and> enabled (current_setting (w_settings w))
      \<and> a_fault (ans 2) = NoFault \<and> \<not> held (w_events w) (ev_key e)
      \<and> a_fault (ans 3) = NoFault \<and> a_displays (ans 4)
      \<and> w' = w\<lparr>w_events := fst (claimEvent NoFault (a_clock (ans 2)) e (w_events w)),
               w_shown := w_shown w @ [notification_of lt e]\<rparr>)"
  by (rule deliver_shows)

text \<open>A display the browser refuses can be retried. The delivery throws, shows nothing and
  gives its claim back, so that the same push delivered again, with the browser willing and every
  transaction committing, is displayed.\<close>

theorem refused_display_can_be_retried:
  assumes ok: "ledger_ok (w_events w)"
    and valid: "normalizedEvent (a_clock (ans 0) 0) v = Some e"
    and on: "enabled (current_setting (w_settings w))" and new: "\<not> held (w_events w) (ev_key e)"
    and commits: "\<forall>i. a_fault (ans i) = NoFault" and refused: "\<not> a_displays (ans 4)"
    and valid': "normalizedEvent (a_clock (ans' 0) 0) v = Some e"
    and commits': "\<forall>i. a_fault (ans' i) = NoFault" and shown: "a_displays (ans' 4)"
  shows "w_shown (fst (deliver lt ans v w)) = w_shown w
    \<and> snd (deliver lt ans v w) = Thrown (Error ''The browser could not display the notification'')
    \<and> snd (deliver lt ans' v (fst (deliver lt ans v w))) = Resolved True"
proof -
  let ?w = "fst (deliver lt ans v w)"
  have run: "deliver lt ans v w
      = (w\<lparr>w_events := fst (releaseClaim NoFault (ev_key e) (fst (claimEvent NoFault (a_clock (ans 2)) e (w_events w))))\<rparr>,
         Thrown (Error ''The browser could not display the notification''))"
    using valid on new commits refused
    by (simp add: deliver_run claimEvent_absent releaseClaim_def)
  then have "\<not> held (w_events ?w) (ev_key e)" "w_settings ?w = w_settings w" "w_shown ?w = w_shown w"
    by (simp_all add: releaseClaim_get)
  with valid' on commits' shown have "\<exists>w'. deliver lt ans' v ?w = (w', Resolved True)"
    by (simp add: deliver_shows)
  with run \<open>w_shown ?w = w_shown w\<close> show ?thesis by auto
qed

definition demo_worker :: worker where
  "demo_worker = \<lparr>w_settings = store_put (js ''delivery'') (setting_object \<lparr>enabled = True, generation = 1\<rparr>) [],
     w_events = [], w_shown = []\<rparr>"

definition demo_answers :: "bool \<Rightarrow> nat \<Rightarrow> answer" where
  "demo_answers d = (\<lambda>_. \<lparr>a_fault = NoFault, a_clock = (\<lambda>_. 1000), a_displays = d\<rparr>)"

lemma demo_worker_setting: "current_setting (w_settings demo_worker) = \<lparr>enabled = True, generation = 1\<rparr>"
  by (simp add: demo_worker_def current_setting_def MAX_SAFE_INTEGER_def)

lemma refused_display_can_be_retried_witness:
  "snd (deliver (\<lambda>_. js ''noon'') (demo_answers True) (demo_push 1000)
      (fst (deliver (\<lambda>_. js ''noon'') (demo_answers False) (demo_push 1000) demo_worker))) = Resolved True"
  using refused_display_can_be_retried [of demo_worker "demo_answers False" "demo_push 1000" "demo_event 1000"
      "demo_answers True" "\<lambda>_. js ''noon''"] demo_worker_setting demo_push_accepted
  by (simp add: demo_answers_def ledger_ok_def demo_worker_def)

end
