(* ===== verification/NotificationWorker.thy ===== *)
theory NotificationWorker
  imports NotificationDelivery
begin

text \<open>
  The service worker with any number of deliveries in flight and settings requests from any tab
  between their segments. Every IndexedDB transaction is one atomic step (a readwrite transaction
  excludes the others on its store), every other segment is one step too; which task moves, which
  request comes and what the browser answers is not determined. The history records what the
  ledger and the display did, for counting.
\<close>

section \<open>The system\<close>

datatype observation =
    Claimed jsstring
  | Pruned jsstring
  | Released jsstring
  | DisplayFailed jsstring
  | Shown jsstring

record system =
  sw :: worker
  tasks :: "task list"
  history :: "observation list"

definition claim_pruned :: "answer \<Rightarrow> event \<Rightarrow> event_store \<Rightarrow> jsstring list" where
  "claim_pruned a e s =
     (if a_fault a \<noteq> NoFault then []
      else map rec_key
        (if held s (ev_key e) then pruned (a_clock a) s
         else pruned (\<lambda>i. a_clock a (Suc i)) (store_put (ev_key e) (claim_record (a_clock a) e) s)))"

fun observe :: "answer \<Rightarrow> task \<Rightarrow> worker \<Rightarrow> observation list" where
  "observe a (AwaitClaim e c) w =
     (if a_fault a = NoFault \<and> \<not> held (w_events w) (ev_key e) then [Claimed (ev_key e)] else [])
     @ map Pruned (claim_pruned a e (w_events w))"
| "observe a (AwaitDisplay e) w =
     (if a_displays a then [Shown (ev_key e)] else [DisplayFailed (ev_key e)])"
| "observe a (AwaitRelease e) w =
     (if a_fault a = NoFault \<and> held (w_events w) (ev_key e) then [Released (ev_key e)] else [])"
| "observe a t w = []"

text \<open>One segment of task \<open>i\<close>.\<close>

definition advance :: "(int \<Rightarrow> jsstring) \<Rightarrow> nat \<Rightarrow> answer \<Rightarrow> system \<Rightarrow> system" where
  "advance lt i a st =
     (case deliver_step lt a (tasks st ! i) (sw st) of
        (w, t) \<Rightarrow> \<lparr>sw = w, tasks = (tasks st)[i := t],
                   history = history st @ observe a (tasks st ! i) (sw st)\<rparr>)"

inductive sw_step :: "(int \<Rightarrow> jsstring) \<Rightarrow> system \<Rightarrow> system \<Rightarrow> bool" for lt where
  push: "sw_step lt st (st\<lparr>tasks := tasks st @ [Arrived v]\<rparr>)"
| request: "sw_step lt st (st\<lparr>sw := (sw st)\<lparr>w_settings := apply_request x (w_settings (sw st))\<rparr>\<rparr>)"
| segment: "i < length (tasks st) \<Longrightarrow> sw_step lt st (advance lt i a st)"

text \<open>
  The browser starts the worker with whatever the database holds and nothing in flight, and may
  stop it at any segment; a stop is a run that ends there, and the next start begins again.
\<close>

definition starts :: "system \<Rightarrow> bool" where
  "starts st \<longleftrightarrow> tasks st = [] \<and> history st = [] \<and> w_shown (sw st) = []
     \<and> ledger_ok (w_events (sw st))"

definition sw_run :: "(int \<Rightarrow> jsstring) \<Rightarrow> system \<Rightarrow> system \<Rightarrow> bool" where
  "sw_run lt = (sw_step lt)\<^sup>*\<^sup>*"

inductive_cases sw_stepE: "sw_step lt st st'"

lemma advance_fields [simp]:
  "sw (advance lt i a st) = fst (deliver_step lt a (tasks st ! i) (sw st))"
  "tasks (advance lt i a st) = (tasks st)[i := snd (deliver_step lt a (tasks st ! i) (sw st))]"
  "history (advance lt i a st) = history st @ observe a (tasks st ! i) (sw st)"
  by (simp_all add: advance_def split: prod.split)

section \<open>Counting\<close>

text \<open>The tasks that hold a claim on \<open>k\<close>, and those about to release one.\<close>

fun owns :: "jsstring \<Rightarrow> task \<Rightarrow> bool" where
  "owns k (AwaitRecheck e _) = (ev_key e = k)"
| "owns k (AwaitDisplay e) = (ev_key e = k)"
| "owns k _ = False"

fun releasing :: "jsstring \<Rightarrow> task \<Rightarrow> bool" where
  "releasing k (AwaitRelease e) = (ev_key e = k)"
| "releasing k _ = False"

abbreviation seen :: "observation \<Rightarrow> system \<Rightarrow> nat" where
  "seen x st \<equiv> count_list (history st) x"

abbreviation many :: "(task \<Rightarrow> bool) \<Rightarrow> system \<Rightarrow> nat" where
  "many P st \<equiv> length (filter P (tasks st))"

definition balanced :: "nat \<Rightarrow> jsstring \<Rightarrow> system \<Rightarrow> bool" where
  "balanced h k st \<longleftrightarrow>
     ledger_ok (w_events (sw st))
     \<and> seen (Claimed k) st + h = seen (Pruned k) st + seen (Released k) st + of_bool (held (w_events (sw st)) k)
     \<and> seen (Shown k) st + seen (DisplayFailed k) st + many (owns k) st \<le> seen (Claimed k) st
     \<and> seen (Released k) st + many (releasing k) st \<le> seen (DisplayFailed k) st"

lemma count_list_map_Pruned:
  "count_list (map Pruned ks) (Pruned k) = count_list ks k"
  by (induction ks) auto

lemma count_list_map_Pruned_other [simp]:
  "x \<notin> range Pruned \<Longrightarrow> count_list (map Pruned ks) x = 0"
  by (induction ks) auto

lemma many_update:
  "i < length ts \<Longrightarrow> length (filter P (ts[i := t])) + of_bool (P (ts ! i)) = length (filter P ts) + of_bool (P t)"
proof (induction ts arbitrary: i)
  case (Cons x ts)
  then show ?case by (cases i) (auto simp: nth_Cons split: nat.splits)
qed simp

lemma count_list_distinct: "distinct xs \<Longrightarrow> count_list xs x = of_bool (x \<in> set xs)"
  by (induction xs) auto

lemma prune_balance:
  assumes ok: "ledger_ok s"
  shows "of_bool (held s k)
    = of_bool (held (pruneEvents clk s) k) + count_list (map rec_key (pruned clk s)) k"
proof -
  have "held s k" if "k \<in> rec_key ` set (pruned clk s)"
    using that pruned_subset [of clk s] by (auto simp: records_iff [OF ok])
  then show ?thesis
    by (auto simp: count_list_distinct [OF distinct_pruned_keys [OF ok]] get_pruneEvents [OF ok])
qed

lemma claim_balance:
  assumes ok: "ledger_ok s"
  shows "of_bool (held s k) + of_bool (a_fault a = NoFault \<and> \<not> held s (ev_key e) \<and> ev_key e = k)
    = of_bool (held (fst (claimEvent (a_fault a) (a_clock a) e s)) k) + count_list (claim_pruned a e s) k"
proof (cases "a_fault a = NoFault")
  case False
  then obtain err where "claimEvent (a_fault a) (a_clock a) e s = (s, Inl err)"
    using claimEvent_fail by blast
  with False show ?thesis by (simp add: claim_pruned_def)
next
  case True
  show ?thesis
  proof (cases "held s (ev_key e)")
    case held: True
    then obtain r where "store_get s (ev_key e) = Some r" by auto
    with True held show ?thesis
      using prune_balance [OF ok] by (simp add: claimEvent_known claim_pruned_def)
  next
    case False
    let ?s = "store_put (ev_key e) (claim_record (a_clock a) e) s"
    from False True have "of_bool (held s k) + of_bool (ev_key e = k) = (of_bool (held ?s k) :: nat)"
      by auto
    with True False show ?thesis
      using prune_balance [OF ledger_ok_put [OF ok]] by (simp add: claimEvent_absent claim_pruned_def)
  qed
qed

lemma release_balance:
  "of_bool (held s k)
    = of_bool (held (fst (releaseClaim f (ev_key e) s)) k)
      + (of_bool (f = NoFault \<and> held s (ev_key e) \<and> ev_key e = k) :: nat)"
  by (auto simp: releaseClaim_get)

lemma events_after_claim:
  "w_events (fst (deliver_step lt a (AwaitClaim e c) w))
     = fst (claimEvent (a_fault a) (a_clock a) e (w_events w))"
  by (auto split: prod.splits sum.splits)

lemma events_after_release:
  "w_events (fst (deliver_step lt a (AwaitRelease e) w)) = fst (releaseClaim (a_fault a) (ev_key e) (w_events w))"
  by (auto split: prod.splits sum.splits)

lemma observe_claim_counts:
  "count_list (observe a (AwaitClaim e c) w) (Claimed k)
     = of_bool (a_fault a = NoFault \<and> \<not> held (w_events w) (ev_key e) \<and> ev_key e = k)"
  "count_list (observe a (AwaitClaim e c) w) (Pruned k) = count_list (claim_pruned a e (w_events w)) k"
  "count_list (observe a (AwaitClaim e c) w) (Released k) = 0"
  by (auto simp: count_list_map_Pruned image_iff)

lemma observe_release_counts:
  "count_list (observe a (AwaitRelease e) w) (Claimed k) = 0"
  "count_list (observe a (AwaitRelease e) w) (Pruned k) = 0"
  "count_list (observe a (AwaitRelease e) w) (Released k)
     = of_bool (a_fault a = NoFault \<and> held (w_events w) (ev_key e) \<and> ev_key e = k)"
  by auto

lemma segment_ledger:
  assumes "ledger_ok (w_events w)"
  shows "of_bool (held (w_events w) k) + count_list (observe a t w) (Claimed k)
    = of_bool (held (w_events (fst (deliver_step lt a t w))) k)
      + count_list (observe a t w) (Pruned k) + count_list (observe a t w) (Released k)"
proof (cases t)
  case (AwaitClaim e c)
  show ?thesis
    unfolding AwaitClaim events_after_claim observe_claim_counts
    using claim_balance [OF assms, of k a e] by linarith
next
  case (AwaitRelease e)
  show ?thesis
    unfolding AwaitRelease events_after_release observe_release_counts
    using release_balance [of "w_events w" k "a_fault a" e] by linarith
qed simp_all

lemma segment_display:
  "count_list (observe a t w) (Shown k) + count_list (observe a t w) (DisplayFailed k)
     + of_bool (owns k (snd (deliver_step lt a t w)))
   \<le> count_list (observe a t w) (Claimed k) + of_bool (owns k t)"
  by (cases t)
     (auto simp: claimEvent_pair image_iff split: option.splits prod.splits sum.splits if_splits)

lemma segment_release:
  "count_list (observe a t w) (Released k) + of_bool (releasing k (snd (deliver_step lt a t w)))
   \<le> count_list (observe a t w) (DisplayFailed k) + of_bool (releasing k t)"
  by (cases t)
     (auto simp: image_iff split: option.splits prod.splits sum.splits if_splits)

section \<open>Every run is balanced\<close>

lemma sw_step_balanced:
  assumes "sw_step lt st st'" and "balanced h k st"
  shows "balanced h k st'"
  using assms(1)
proof cases
  case (push v)
  with assms(2) show ?thesis by (simp add: balanced_def)
next
  case (request x)
  with assms(2) show ?thesis by (simp add: balanced_def)
next
  case (segment i a)
  let ?t = "tasks st ! i" and ?w = "sw st"
  from assms(2) have ok: "ledger_ok (w_events ?w)" by (simp add: balanced_def)
  from many_update [OF segment(2), of "owns k" "snd (deliver_step lt a ?t ?w)"]
    many_update [OF segment(2), of "releasing k" "snd (deliver_step lt a ?t ?w)"]
    segment_ledger [OF ok, of k a ?t lt] segment_display [of a ?t ?w k lt]
    segment_release [of a ?t ?w k lt] deliver_step_ledger [OF ok, of lt a ?t] assms(2)
  show ?thesis
    unfolding segment(1) balanced_def by (simp add: count_list_append)
qed

lemma sw_run_balanced:
  assumes "sw_run lt st st'" and "balanced h k st"
  shows "balanced h k st'"
  using assms unfolding sw_run_def
  by (induction rule: rtranclp_induct) (blast intro: sw_step_balanced)+

lemma starts_balanced: "starts st \<Longrightarrow> balanced (of_bool (held (w_events (sw st)) k)) k st"
  by (simp add: starts_def balanced_def)

lemma shown_at_most:
  assumes "starts st" and "sw_run lt st st'"
  shows "seen (Shown k) st' \<le> 1 + seen (Pruned k) st'"
proof -
  from sw_run_balanced [OF assms(2) starts_balanced [OF assms(1)], of k]
  show ?thesis unfolding balanced_def by (auto simp: of_bool_def split: if_splits)
qed

text \<open>The notifications on screen are the \<open>Shown\<close> entries of the history.\<close>

definition displays :: "jsstring \<Rightarrow> worker \<Rightarrow> nat" where
  "displays k w = length (filter (\<lambda>n. n_tag n = k) (w_shown w))"

lemma segment_displays:
  "displays k (fst (deliver_step lt a t w)) = displays k w + count_list (observe a t w) (Shown k)"
  by (cases t)
     (auto simp: displays_def notification_of_def image_iff split: option.splits prod.splits sum.splits)

lemma displays_settings [simp]: "displays k (w\<lparr>w_settings := x\<rparr>) = displays k w"
  by (simp add: displays_def)

lemma sw_step_displays:
  "sw_step lt st st' \<Longrightarrow> displays k (sw st) = seen (Shown k) st \<Longrightarrow> displays k (sw st') = seen (Shown k) st'"
  by (induction rule: sw_step.induct) (simp_all add: segment_displays)

lemma sw_run_displays:
  assumes "starts st" and "sw_run lt st st'"
  shows "displays k (sw st') = seen (Shown k) st'"
  using assms(2) unfolding sw_run_def
proof (induction rule: rtranclp_induct)
  case base
  from assms(1) show ?case by (simp add: starts_def displays_def)
next
  case (step y z)
  then show ?case by (blast intro: sw_step_displays)
qed

section \<open>What is displayed\<close>

definition event_ok :: "event \<Rightarrow> bool" where
  "event_ok e \<longleftrightarrow> hex_exactly 64 (ev_key e) \<and> ev_title e \<noteq> [] \<and> array_from_length (ev_title e) \<le> 120
     \<and> array_from_length (ev_body e) \<le> 1000 \<and> 0 < ev_timestamp e"

fun task_event :: "task \<Rightarrow> event option" where
  "task_event (AwaitSettings e) = Some e"
| "task_event (AwaitClaim e _) = Some e"
| "task_event (AwaitRecheck e _) = Some e"
| "task_event (AwaitDisplay e) = Some e"
| "task_event (AwaitRelease e) = Some e"
| "task_event _ = None"

definition task_ok :: "task \<Rightarrow> bool" where
  "task_ok t \<longleftrightarrow> pred_option event_ok (task_event t)"

lemma normalizedEvent_event_ok: "normalizedEvent now v = Some e \<Longrightarrow> event_ok e"
  by (erule normalizedEvent_SomeE) (simp add: event_ok_def fresh_def)

lemma segment_task_ok: "task_ok t \<Longrightarrow> task_ok (snd (deliver_step lt a t w))"
  by (cases t)
     (auto simp: task_ok_def intro: normalizedEvent_event_ok
       split: option.splits prod.splits sum.splits)

definition shown_from :: "(int \<Rightarrow> jsstring) \<Rightarrow> notification \<Rightarrow> bool" where
  "shown_from lt n \<longleftrightarrow> (\<exists>e. event_ok e \<and> n = notification_of lt e)"

lemma segment_shown:
  "task_ok t \<Longrightarrow> list_all (shown_from lt) (w_shown w) \<Longrightarrow>
   list_all (shown_from lt) (w_shown (fst (deliver_step lt a t w)))"
  by (cases t)
     (auto simp: task_ok_def shown_from_def split: option.splits prod.splits sum.splits)

definition content_ok :: "(int \<Rightarrow> jsstring) \<Rightarrow> system \<Rightarrow> bool" where
  "content_ok lt st \<longleftrightarrow> list_all task_ok (tasks st) \<and> list_all (shown_from lt) (w_shown (sw st))"

lemma list_all_update: "list_all P ts \<Longrightarrow> P t \<Longrightarrow> list_all P (ts[i := t])"
  by (auto simp: list_all_iff dest: set_update_subset_insert [THEN subsetD])

lemma sw_step_content: "sw_step lt st st' \<Longrightarrow> content_ok lt st \<Longrightarrow> content_ok lt st'"
proof (induction rule: sw_step.induct)
  case (segment i st a)
  then have "task_ok (tasks st ! i)" by (auto simp: content_ok_def list_all_iff)
  with segment show ?case
    by (simp add: content_ok_def list_all_update segment_task_ok segment_shown)
qed (simp_all add: content_ok_def task_ok_def)

lemma sw_run_content: "sw_run lt st st' \<Longrightarrow> content_ok lt st \<Longrightarrow> content_ok lt st'"
  unfolding sw_run_def by (induction rule: rtranclp_induct) (blast intro: sw_step_content)+

section \<open>Consent\<close>

lemma sw_step_settings:
  "sw_step lt st st' \<Longrightarrow> \<exists>rs. w_settings (sw st') = fold apply_request rs (w_settings (sw st))"
proof (induction rule: sw_step.induct)
  case (push st v)
  have "w_settings (sw (st\<lparr>tasks := tasks st @ [Arrived v]\<rparr>)) = fold apply_request [] (w_settings (sw st))"
    by simp
  then show ?case by blast
next
  case (request st x)
  have "w_settings (sw (st\<lparr>sw := (sw st)\<lparr>w_settings := apply_request x (w_settings (sw st))\<rparr>\<rparr>))
      = fold apply_request [x] (w_settings (sw st))"
    by simp
  then show ?case by blast
next
  case (segment i st a)
  have "w_settings (sw (advance lt i a st)) = fold apply_request [] (w_settings (sw st))"
    by (simp add: deliver_step_settings)
  then show ?case by blast
qed

lemma sw_run_settings:
  "sw_run lt st st' \<Longrightarrow> \<exists>rs. w_settings (sw st') = fold apply_request rs (w_settings (sw st))"
  unfolding sw_run_def
proof (induction rule: rtranclp_induct)
  case base
  have "w_settings (sw st) = fold apply_request [] (w_settings (sw st))" by simp
  then show ?case by blast
next
  case (step y z)
  then obtain rs qs where "w_settings (sw y) = fold apply_request rs (w_settings (sw st))"
      "w_settings (sw z) = fold apply_request qs (w_settings (sw y))"
    using sw_step_settings by blast
  then have "w_settings (sw z) = fold apply_request (rs @ qs) (w_settings (sw st))" by simp
  then show ?case by blast
qed

text \<open>A task past its first read keeps the setting it read until it is done with it.\<close>

definition read_by :: "setting \<Rightarrow> task \<Rightarrow> bool" where
  "read_by c t \<longleftrightarrow> (\<forall>e c'. t = AwaitClaim e c' \<or> t = AwaitRecheck e c' \<longrightarrow> c' = c)
     \<and> (\<forall>v. t \<noteq> Arrived v) \<and> (\<forall>e. t \<noteq> AwaitSettings e)"

lemma segment_read_by: "read_by c t \<Longrightarrow> read_by c (snd (deliver_step lt a t w))"
  by (cases t) (auto simp: read_by_def split: option.splits prod.splits sum.splits)

definition reads_at :: "nat \<Rightarrow> setting \<Rightarrow> system \<Rightarrow> bool" where
  "reads_at i c st \<longleftrightarrow> i < length (tasks st) \<and> read_by c (tasks st ! i)"

lemma sw_step_reads_at: "sw_step lt st st' \<Longrightarrow> reads_at i c st \<Longrightarrow> reads_at i c st'"
proof (induction rule: sw_step.induct)
  case (segment j st a)
  then show ?case
    by (cases "j = i") (simp_all add: reads_at_def segment_read_by)
qed (simp_all add: reads_at_def nth_append)

lemma sw_run_reads_at: "sw_run lt st st' \<Longrightarrow> reads_at i c st \<Longrightarrow> reads_at i c st'"
  unfolding sw_run_def by (induction rule: rtranclp_induct) (blast intro: sw_step_reads_at)+

lemma gate_window:
  assumes "sw_run lt s1 s2" and "sw_run lt s2 s3"
    and "enabled (current_setting (w_settings (sw s1)))"
    and "generation (current_setting (w_settings (sw s3))) = generation (current_setting (w_settings (sw s1)))"
  shows "enabled (current_setting (w_settings (sw s2)))
    \<and> generation (current_setting (w_settings (sw s2))) = generation (current_setting (w_settings (sw s1)))"
proof -
  from sw_run_settings [OF assms(1)] obtain rs where
    rs: "w_settings (sw s2) = fold apply_request rs (w_settings (sw s1))" by blast
  from sw_run_settings [OF assms(2)] obtain qs where
    "w_settings (sw s3) = fold apply_request qs (w_settings (sw s2))" by blast
  with rs have "w_settings (sw s3) = fold apply_request (rs @ qs) (w_settings (sw s1))" by simp
  with assms(4) have "generation (current_setting (fold apply_request rs (w_settings (sw s1))))
      = generation (current_setting (w_settings (sw s1)))"
    using worker_gate.same_generation_between [of rs qs "w_settings (sw s1)"] by simp
  then show ?thesis
    using worker_gate.same_generation_stays_on [of rs "w_settings (sw s1)"] assms(3) rs by simp
qed

lemma to_AwaitClaim_reads:
  assumes "i < length (tasks s0)" and "tasks (advance lt i a s0) ! i = AwaitClaim e c"
    and "tasks s0 ! i = AwaitSettings e"
  shows "c = current_setting (w_settings (sw (advance lt i a s0))) \<and> enabled c \<and> reads_at i c (advance lt i a s0)"
proof -
  obtain w' t' where step: "deliver_step lt a (tasks s0 ! i) (sw s0) = (w', t')" by fastforce
  with assms(1,2) have "t' = AwaitClaim e c" by (simp del: deliver_step.simps)
  with step have "deliver_step lt a (tasks s0 ! i) (sw s0) = (w', AwaitClaim e c)" by simp
  from iffD1 [OF to_AwaitClaim this]
  have read: "w' = sw s0 \<and> c = current_setting (w_settings (sw s0)) \<and> enabled c" by blast
  have "sw (advance lt i a s0) = sw s0"
    using step read by simp
  then show ?thesis
    using assms(1,2) read by (auto simp: reads_at_def read_by_def simp del: deliver_step.simps)
qed

section \<open>Properties\<close>

text \<open>C1: an event is shown at most once. Over any run of the worker, with any number of
  deliveries of any pushes in flight, settings requests between their segments, transactions that
  fail and displays that are refused and retried, the notifications of one key are at most one more
  than the times pruning removed the key from the ledger; giving a claim back after a refused
  display never causes a second notification.\<close>

theorem shown_at_most_once:
  assumes "starts st" and "sw_run lt st st'"
  shows "displays k (sw st') \<le> 1 + seen (Pruned k) st'"
  unfolding sw_run_displays [OF assms] by (rule shown_at_most [OF assms])

definition demo_system :: system where
  "demo_system = \<lparr>sw = demo_worker, tasks = [], history = []\<rparr>"

lemma demo_starts: "starts demo_system"
  by (simp add: starts_def demo_system_def demo_worker_def ledger_ok_def)

lemma sw_run_one: "sw_step lt st st' \<Longrightarrow> sw_run lt st st'"
  by (simp add: sw_run_def)

lemma sw_run_trans: "sw_run lt st st' \<Longrightarrow> sw_run lt st' st'' \<Longrightarrow> sw_run lt st st''"
  by (simp add: sw_run_def)

text \<open>C3: only validated content reaches the screen. Every notification a run displays is the
  notification of a validated event: a 64-digit hexadecimal tag, a non-empty title of at most 120
  code points, a positive source time, the dashboard's icon and the root path.\<close>

theorem displayed_content_valid:
  assumes "starts st" and "sw_run lt st st'" and "n \<in> set (w_shown (sw st'))"
  shows "hex_exactly 64 (n_tag n) \<and> n_title n \<noteq> [] \<and> array_from_length (n_title n) \<le> 120
    \<and> 0 < n_timestamp n \<and> n_icon n = ''/notification-icon.svg'' \<and> n_path n = ''/''"
proof -
  from assms(1) have "content_ok lt st" by (simp add: starts_def content_ok_def)
  from sw_run_content [OF assms(2) this] assms(3) have "shown_from lt n"
    by (simp add: content_ok_def list_all_iff)
  then obtain e where "event_ok e" "n = notification_of lt e"
    unfolding shown_from_def by blast
  then show ?thesis
    by (simp add: notification_of_def event_ok_def)
qed

text \<open>C2: consent holds for the whole of a delivery. If a task read the settings and later passed
  its recheck, then in every state in between, whatever other tabs did, delivery was enabled and the
  generation was the one it read: nobody switched delivery off and on again behind its back.\<close>

theorem consent_throughout_delivery:
  assumes "i < length (tasks s0)" and "tasks s0 ! i = AwaitSettings e"
    and "tasks (advance lt i a s0) ! i = AwaitClaim e c"
    and "sw_run lt (advance lt i a s0) s2" and "sw_run lt s2 s3"
    and "tasks s3 ! i = AwaitRecheck e' c'" and "tasks (advance lt i b s3) ! i = AwaitDisplay e'"
  shows "enabled (current_setting (w_settings (sw s2)))
    \<and> generation (current_setting (w_settings (sw s2))) = generation c"
proof -
  let ?s1 = "advance lt i a s0"
  from to_AwaitClaim_reads [OF assms(1,3,2)]
  have c: "c = current_setting (w_settings (sw ?s1))" "enabled c" "reads_at i c ?s1" by auto
  have run: "sw_run lt ?s1 s3" using assms(4,5) by (rule sw_run_trans)
  from sw_run_reads_at [OF run c(3)] assms(6) have c': "c' = c" and i: "i < length (tasks s3)"
    by (auto simp: reads_at_def read_by_def)
  obtain w' t' where step: "deliver_step lt b (tasks s3 ! i) (sw s3) = (w', t')" by fastforce
  with assms(7) i have "t' = AwaitDisplay e'" by (simp del: deliver_step.simps)
  with step have "deliver_step lt b (tasks s3 ! i) (sw s3) = (w', AwaitDisplay e')" by simp
  from iffD1 [OF to_AwaitDisplay this] assms(6) c'
  have "generation (current_setting (w_settings (sw s3))) = generation c" by auto
  with gate_window [OF assms(4,5)] c show ?thesis by simp
qed

text \<open>A run of the demonstration system: one push, delivered segment by segment.\<close>

definition demo_run :: "nat \<Rightarrow> system" where
  "demo_run n = ((\<lambda>st. advance (\<lambda>_. []) 0 (demo_answers True 0) st) ^^ n)
     (demo_system\<lparr>tasks := [Arrived (demo_push 1000)]\<rparr>)"

lemma demo_run_Suc: "demo_run (Suc n) = advance (\<lambda>_. []) 0 (demo_answers True 0) (demo_run n)"
  by (simp add: demo_run_def)

lemma demo_run_next: "m = Suc n \<Longrightarrow> demo_run m = advance (\<lambda>_. []) 0 (demo_answers True 0) (demo_run n)"
  by (simp add: demo_run_Suc)

lemma demo_run_length: "length (tasks (demo_run n)) = 1"
  by (induction n) (simp_all add: demo_run_Suc, simp add: demo_run_def)

lemma demo_run_steps: "m \<le> n \<Longrightarrow> sw_run (\<lambda>_. []) (demo_run m) (demo_run n)"
proof (induction n rule: dec_induct)
  case (step n)
  have "sw_step (\<lambda>_. []) (demo_run n) (demo_run (Suc n))"
    unfolding demo_run_Suc by (rule sw_step.segment) (simp add: demo_run_length)
  with step show ?case by (blast intro: sw_run_one sw_run_trans)
qed (simp add: sw_run_def)

lemma demo_run_start: "sw_run (\<lambda>_. []) demo_system (demo_run n)"
proof -
  have "sw_step (\<lambda>_. []) demo_system (demo_run 0)"
    using sw_step.push [of "\<lambda>_. []" demo_system "demo_push 1000"] by (simp add: demo_run_def demo_system_def)
  then show ?thesis using demo_run_steps [of 0 n] by (blast intro: sw_run_one sw_run_trans)
qed

lemma demo_worker_fields [simp]:
  "w_events demo_worker = []" "w_shown demo_worker = []"
  "current_setting (w_settings demo_worker) = \<lparr>enabled = True, generation = 1\<rparr>"
  using demo_worker_setting by (simp_all add: demo_worker_def)

lemma demo_run_0: "demo_run 0 = \<lparr>sw = demo_worker, tasks = [Arrived (demo_push 1000)], history = []\<rparr>"
  by (simp add: demo_run_def demo_system_def)

lemma demo_run_1: "demo_run 1 = \<lparr>sw = demo_worker, tasks = [AwaitSettings (demo_event 1000)], history = []\<rparr>"
  using demo_run_next [of 1 0] by (simp add: demo_run_0 advance_def demo_answers_def demo_push_accepted)

lemma demo_run_2: "demo_run 2 = \<lparr>sw = demo_worker,
    tasks = [AwaitClaim (demo_event 1000) \<lparr>enabled = True, generation = 1\<rparr>], history = []\<rparr>"
  using demo_run_next [of 2 1] demo_run_1 by (simp add: advance_def demo_answers_def)

definition demo_ledger :: event_store where
  "demo_ledger = fst (claimEvent NoFault (\<lambda>_. 1000) (demo_event 1000) [])"

lemma demo_run_3: "\<exists>h. demo_run 3 = \<lparr>sw = demo_worker\<lparr>w_events := demo_ledger\<rparr>,
    tasks = [AwaitRecheck (demo_event 1000) \<lparr>enabled = True, generation = 1\<rparr>], history = h\<rparr>"
  using demo_run_next [of 3 2]
  by (simp add: demo_run_2 advance_def demo_answers_def demo_ledger_def claimEvent_absent)

lemma demo_run_4: "\<exists>h. demo_run 4 = \<lparr>sw = demo_worker\<lparr>w_events := demo_ledger\<rparr>,
    tasks = [AwaitDisplay (demo_event 1000)], history = h\<rparr>"
proof -
  have "demo_run 4 = advance (\<lambda>_. []) 0 (demo_answers True 0) (demo_run 3)"
    by (rule demo_run_next) simp
  with demo_run_3 show ?thesis by (auto simp: advance_def demo_answers_def)
qed

lemma demo_run_5: "w_shown (sw (demo_run 5)) = [notification_of (\<lambda>_. []) (demo_event 1000)]"
proof -
  have "demo_run 5 = advance (\<lambda>_. []) 0 (demo_answers True 0) (demo_run 4)"
    by (rule demo_run_next) simp
  with demo_run_4 show ?thesis by (auto simp: advance_def demo_answers_def)
qed

lemma shown_at_most_once_witness:
  "displays demo_key (sw (demo_run 5)) = 1 \<and> 1 \<le> 1 + seen (Pruned demo_key) (demo_run 5)"
  using shown_at_most_once [OF demo_starts demo_run_start, of demo_key 5] demo_run_5
  by (simp add: displays_def notification_of_def demo_event_def)

lemma displayed_content_valid_witness:
  "notification_of (\<lambda>_. []) (demo_event 1000) \<in> set (w_shown (sw (demo_run 5)))
   \<and> hex_exactly 64 (n_tag (notification_of (\<lambda>_. []) (demo_event 1000)))"
  using displayed_content_valid [OF demo_starts demo_run_start,
      of "notification_of (\<lambda>_. []) (demo_event 1000)" 5] demo_run_5
  by simp

lemma consent_throughout_delivery_witness:
  "enabled (current_setting (w_settings (sw (demo_run 3))))
   \<and> generation (current_setting (w_settings (sw (demo_run 3)))) = 1"
proof -
  have next2: "advance (\<lambda>_. []) 0 (demo_answers True 0) (demo_run 1) = demo_run 2"
    using demo_run_next [of 2 1] by simp
  have next4: "advance (\<lambda>_. []) 0 (demo_answers True 0) (demo_run 3) = demo_run 4"
    using demo_run_next [of 4 3] by simp
  have "enabled (current_setting (w_settings (sw (demo_run 3))))
    \<and> generation (current_setting (w_settings (sw (demo_run 3))))
      = generation \<lparr>enabled = True, generation = 1\<rparr>"
  proof (rule consent_throughout_delivery)
    show "sw_run (\<lambda>_. []) (advance (\<lambda>_. []) 0 (demo_answers True 0) (demo_run 1)) (demo_run 3)"
      unfolding next2 by (rule demo_run_steps) simp
    show "sw_run (\<lambda>_. []) (demo_run 3) (demo_run 3)" by (simp add: sw_run_def)
    show "tasks (advance (\<lambda>_. []) 0 (demo_answers True 0) (demo_run 3)) ! 0 = AwaitDisplay (demo_event 1000)"
      unfolding next4 using demo_run_4 by auto
    show "tasks (demo_run 3) ! 0 = AwaitRecheck (demo_event 1000) \<lparr>enabled = True, generation = 1\<rparr>"
      using demo_run_3 by auto
    show "tasks (advance (\<lambda>_. []) 0 (demo_answers True 0) (demo_run 1)) ! 0
        = AwaitClaim (demo_event 1000) \<lparr>enabled = True, generation = 1\<rparr>"
      unfolding next2 by (simp add: demo_run_2)
    show "0 < length (tasks (demo_run 1))" by (simp only: demo_run_length)
    show "tasks (demo_run 1) ! 0 = AwaitSettings (demo_event 1000)"
      unfolding demo_run_1 by simp
  qed
  then show ?thesis by simp
qed

end
