(* ===== verification/NotificationMessages.thy ===== *)
theory NotificationMessages
  imports NotificationSettings
begin

text \<open>
  The worker's other listeners (\<open>notifications-sw.js\<close>, lines 148-172 and 178-189): installation and
  activation, messages from dashboard windows, and clicks on a notification. A client is a window
  with its URL. \<open>parse_url\<close> is the URL parser of the platform: the origin and path of a URL, or
  \<open>None\<close> where \<open>new URL\<close> throws.
\<close>

type_synonym url_parser = "jsstring \<Rightarrow> (jsstring \<times> jsstring) option"

record client =
  c_id :: nat
  c_url :: jsstring

section \<open>Installation\<close>

record lifecycle =
  skips_waiting :: bool
  claims_clients :: bool

definition on_install :: "lifecycle \<Rightarrow> lifecycle" where
  "on_install l = l\<lparr>skips_waiting := True\<rparr>"

definition on_activate :: "lifecycle \<Rightarrow> lifecycle" where
  "on_activate l = l\<lparr>claims_clients := True\<rparr>"

section \<open>Messages\<close>

record message =
  m_origin :: jsstring
  m_source :: "jsstring option"
  m_data :: jsval
  m_port :: bool

datatype reply = Answer settings_result | Unavailable

text \<open>What handling a message does besides the store: an answer on the port, a broadcast.\<close>

record reaction =
  answers :: "reply list"
  notified :: "client list"

definition silent :: reaction where
  "silent = \<lparr>answers = [], notified = []\<rparr>"

definition answer :: "message \<Rightarrow> reply \<Rightarrow> client list \<Rightarrow> reaction" where
  "answer m r cs = \<lparr>answers = (if m_port m then [r] else []), notified = cs\<rparr>"

text \<open>The asynchronous part; \<open>windows\<close> is \<open>None\<close> where \<open>clients.matchAll\<close> rejects.\<close>

definition handle_request ::
  "tx_fault \<Rightarrow> client list option \<Rightarrow> message \<Rightarrow> settings_store \<Rightarrow> settings_store \<times> reaction" where
  "handle_request f windows m s =
     (let request = m_data m; kind = js_get request ''type'' in
      if kind = jlit ''notification-settings-get'' then
        (case settings f None s of
           (s', Inl _) \<Rightarrow> (s', answer m Unavailable [])
         | (s', Inr r) \<Rightarrow> (s', answer m (Answer r) []))
      else if kind = jlit ''notification-settings-set'' \<or> kind = jlit ''notification-settings-begin'' then
        (if kind = jlit ''notification-settings-set'' \<and> \<not> typeof_boolean (js_get request ''enabled'')
         then (s, silent)
         else case changeSettings f request s of
           (s', Inl _) \<Rightarrow> (s', answer m Unavailable [])
         | (s', Inr r) \<Rightarrow>
             if applied r then
               (case windows of
                  None \<Rightarrow> (s', answer m Unavailable [])
                | Some cs \<Rightarrow> (s', answer m (Answer r) cs))
             else (s', answer m (Answer r) []))
      else (s, silent))"

definition on_message ::
  "url_parser \<Rightarrow> jsstring \<Rightarrow> tx_fault \<Rightarrow> client list option \<Rightarrow> message
    \<Rightarrow> settings_store \<Rightarrow> settings_store \<times> reaction promise" where
  "on_message parse_url self f windows m s =
     (if m_origin m \<noteq> self then (s, Inr silent)
      else case m_source m of
        None \<Rightarrow> (s, Inr silent)
      | Some url \<Rightarrow>
          if url = [] then (s, Inr silent)
          else case parse_url url of
            None \<Rightarrow> (s, Inl TypeError)
          | Some (origin, path) \<Rightarrow>
              if origin \<noteq> self then (s, Inr silent)
              else (case handle_request f windows m s of (s', r) \<Rightarrow> (s', Inr r)))"

section \<open>Clicks\<close>

datatype click_effect = Focus client | OpenWindow string

fun find_dashboard :: "url_parser \<Rightarrow> jsstring \<Rightarrow> client list \<Rightarrow> client option promise" where
  "find_dashboard parse_url self [] = Inr None"
| "find_dashboard parse_url self (c # cs) =
     (case parse_url (c_url c) of
        None \<Rightarrow> Inl TypeError
      | Some (origin, path) \<Rightarrow>
          if origin = self \<and> path = js ''/'' then Inr (Some c) else find_dashboard parse_url self cs)"

definition on_click ::
  "url_parser \<Rightarrow> jsstring \<Rightarrow> client list promise \<Rightarrow> click_effect promise" where
  "on_click parse_url self windows =
     (case windows of
        Inl e \<Rightarrow> Inl e
      | Inr cs \<Rightarrow>
          (case find_dashboard parse_url self cs of
             Inl e \<Rightarrow> Inl e
           | Inr (Some c) \<Rightarrow> Inr (Focus c)
           | Inr None \<Rightarrow> Inr (OpenWindow ''/'')))"

section \<open>Who may configure the worker\<close>

text \<open>A message from a window of the worker's own origin.\<close>

definition own_window :: "url_parser \<Rightarrow> jsstring \<Rightarrow> message \<Rightarrow> bool" where
  "own_window parse_url self m \<longleftrightarrow>
     m_origin m = self \<and>
     (case m_source m of None \<Rightarrow> False | Some url \<Rightarrow> url \<noteq> [] \<and> map_option fst (parse_url url) = Some self)"

lemma on_message_own:
  "own_window parse_url self m \<Longrightarrow>
   on_message parse_url self f windows m s
     = (fst (handle_request f windows m s), Inr (snd (handle_request f windows m s)))"
  by (auto simp: own_window_def on_message_def split: option.splits prod.splits)

lemma on_message_foreign:
  "\<not> own_window parse_url self m \<Longrightarrow>
   on_message parse_url self f windows m s = (s, Inr silent)
   \<or> on_message parse_url self f windows m s = (s, Inl TypeError)"
  by (auto simp: own_window_def on_message_def split: option.splits prod.splits)

definition changes_settings :: "message \<Rightarrow> bool" where
  "changes_settings m \<longleftrightarrow>
     js_get (m_data m) ''type'' = jlit ''notification-settings-begin''
     \<or> js_get (m_data m) ''type'' = jlit ''notification-settings-set''
       \<and> typeof_boolean (js_get (m_data m) ''enabled'')"

lemma handle_request_store:
  "fst (handle_request f windows m s) =
     (if changes_settings m then fst (changeSettings f (m_data m) s) else s)"
  using settings_read_store [of f s]
  by (auto simp: handle_request_def changes_settings_def Let_def split: prod.splits sum.splits option.splits)

lemma handle_request_notified:
  "notified (snd (handle_request f windows m s)) =
     (case (windows, snd (changeSettings f (m_data m) s)) of
        (Some cs, Inr r) \<Rightarrow> if changes_settings m \<and> applied r then cs else []
      | _ \<Rightarrow> [])"
  by (auto simp: handle_request_def changes_settings_def Let_def silent_def answer_def
      split: prod.splits sum.splits option.splits)

section \<open>Retired intents\<close>

lemma change_disable:
  assumes "js_get d ''type'' = jlit ''notification-settings-set''" and "js_get d ''enabled'' = JBool False"
    and "generation c < MAX_SAFE_INTEGER"
  shows "change d c = Some \<lparr>enabled = False, generation = generation c + 1\<rparr>"
  using assms by (simp add: change_def)

lemma change_enable:
  assumes "js_get r ''type'' = jlit ''notification-settings-set''" and "js_get r ''enabled'' = JBool True"
    and "safe_integer (js_get r ''generation'') = Some g"
  shows "change r c = (if g = generation c then Some \<lparr>enabled = True, generation = g\<rparr> else None)"
  using assms by (simp add: change_def)

lemma change_begin:
  assumes "js_get r ''type'' = jlit ''notification-settings-begin''"
    and "safe_integer (js_get r ''generation'') = Some g"
  shows "change r c = (if g = generation c \<and> g < MAX_SAFE_INTEGER
    then Some \<lparr>enabled = False, generation = g + 1\<rparr> else None)"
  using assms by (auto simp: change_def Let_def)

lemma generation_after_disable:
  assumes "js_get d ''type'' = jlit ''notification-settings-set''" and "js_get d ''enabled'' = JBool False"
    and "generation (current_setting (fold apply_request rs s)) < MAX_SAFE_INTEGER"
  shows "generation (current_setting s)
    < generation (current_setting (fold apply_request (rs @ (NoFault, d) # qs) s))"
proof -
  let ?s1 = "fold apply_request rs s"
  have "generation (current_setting (apply_request (NoFault, d) ?s1)) = generation (current_setting ?s1) + 1"
    using assms by (simp add: apply_request_def current_setting_changeSettings change_disable)
  with worker_gate.gen_run_mono [of s rs]
    worker_gate.gen_run_mono [of "apply_request (NoFault, d) ?s1" qs]
  show ?thesis by simp
qed

section \<open>Properties\<close>

text \<open>A parser for the examples: everything before the last character is the origin.\<close>

definition demo_url :: url_parser where
  "demo_url u = (if u = [] then None else Some (butlast u, [last u]))"

definition demo_message :: "jsval \<Rightarrow> message" where
  "demo_message v = \<lparr>m_origin = js ''o'', m_source = Some (js ''o/''), m_data = v, m_port = True\<rparr>"

text \<open>Only the dashboard's own windows configure the worker. A message whose origin, or whose
  source window's origin, is not the worker's changes nothing, gets no answer and is not announced;
  so is one without a source window. Where the source's URL does not parse, the listener throws.\<close>

theorem foreign_message_inert:
  assumes "\<not> own_window parse_url self m"
  shows "fst (on_message parse_url self f windows m s) = s
    \<and> snd (on_message parse_url self f windows m s) \<in> {Inr silent, Inl TypeError}"
  using on_message_foreign [OF assms, of f windows s] by auto

lemma foreign_message_inert_witness:
  "fst (on_message demo_url (js ''x'') NoFault None (demo_message demo_disable) []) = []
   \<and> snd (on_message demo_url (js ''x'') NoFault None (demo_message demo_disable) []) \<in> {Inr silent, Inl TypeError}"
  by (rule foreign_message_inert) (simp add: own_window_def demo_message_def)

text \<open>Every window is told of a change exactly when one was saved. For a message of the
  worker's own window, with the open windows known, the windows notified are all of them if the
  request was one that changes settings and its change was applied, and none otherwise; and the
  settings differ afterwards only through \<open>changeSettings\<close>.\<close>

theorem own_message_announces_changes:
  assumes "own_window parse_url self m"
  shows "on_message parse_url self f (Some cs) m s = (s', Inr r) \<Longrightarrow>
    s' = (if changes_settings m then fst (changeSettings f (m_data m) s) else s)
    \<and> notified r = (case snd (changeSettings f (m_data m) s) of
        Inr res \<Rightarrow> if changes_settings m \<and> applied res then cs else [] | Inl _ \<Rightarrow> [])"
  using handle_request_store [of f "Some cs" m s] handle_request_notified [of f "Some cs" m s]
  by (auto simp: on_message_own [OF assms])

lemma own_message_announces_changes_witness:
  "on_message demo_url (js ''o'') NoFault (Some [\<lparr>c_id = 1, c_url = js ''o/''\<rparr>]) (demo_message demo_disable) []
     = (store_put (js ''delivery'') (setting_object \<lparr>enabled = False, generation = 1\<rparr>) [],
        Inr \<lparr>answers = [Answer (setting.extend \<lparr>enabled = False, generation = 1\<rparr> \<lparr>applied = True\<rparr>)],
             notified = [\<lparr>c_id = 1, c_url = js ''o/''\<rparr>]\<rparr>)
   \<and> store_put (js ''delivery'') (setting_object \<lparr>enabled = False, generation = 1\<rparr>) []
        = fst (changeSettings NoFault demo_disable [])"
proof -
  let ?m = "demo_message demo_disable"
  have own: "own_window demo_url (js ''o'') ?m"
    by (simp add: own_window_def demo_message_def demo_url_def js_def)
  have "change demo_disable (current_setting []) = Some \<lparr>enabled = False, generation = 1\<rparr>"
    by (simp add: change_def demo_disable_def current_setting_empty DEFAULT_SETTINGS_def MAX_SAFE_INTEGER_def)
  then have saved: "changeSettings NoFault demo_disable []
      = (store_put (js ''delivery'') (setting_object \<lparr>enabled = False, generation = 1\<rparr>) [],
         Inr (setting.extend \<lparr>enabled = False, generation = 1\<rparr> \<lparr>applied = True\<rparr>))"
    by (rule changeSettings_applied)
  have fields: "js_get demo_disable ''type'' = jlit ''notification-settings-set''"
      "js_get demo_disable ''enabled'' = JBool False"
    by (simp_all add: demo_disable_def)
  have run: "on_message demo_url (js ''o'') NoFault (Some [\<lparr>c_id = 1, c_url = js ''o/''\<rparr>]) ?m []
     = (store_put (js ''delivery'') (setting_object \<lparr>enabled = False, generation = 1\<rparr>) [],
        Inr \<lparr>answers = [Answer (setting.extend \<lparr>enabled = False, generation = 1\<rparr> \<lparr>applied = True\<rparr>)],
             notified = [\<lparr>c_id = 1, c_url = js ''o/''\<rparr>]\<rparr>)"
    unfolding on_message_own [OF own]
    by (simp add: handle_request_def demo_message_def saved fields answer_def setting.extend_def)
  have "changes_settings ?m" by (simp add: changes_settings_def demo_message_def fields)
  with own_message_announces_changes [OF own run] run show ?thesis
    by (simp add: demo_message_def)
qed

text \<open>C4: a Disable retires every enabling that is still under way. However the other tabs'
  requests and the database's failures are interleaved, an Enable that names a generation read
  before a committed Disable is refused and leaves the settings as they are.\<close>

theorem disable_retires_pending_enable:
  assumes "js_get d ''type'' = jlit ''notification-settings-set''" "js_get d ''enabled'' = JBool False"
    and "js_get r ''type'' = jlit ''notification-settings-set''" "js_get r ''enabled'' = JBool True"
    and "safe_integer (js_get r ''generation'') = Some g" and "g \<le> generation (current_setting s)"
    and "generation (current_setting (fold apply_request before s)) < MAX_SAFE_INTEGER"
    and "s' = fold apply_request (before @ (NoFault, d) # after) s"
  shows "changeSettings NoFault r s'
    = (s', Inr (setting.extend (current_setting s') \<lparr>applied = False\<rparr>))"
proof -
  from generation_after_disable [OF assms(1,2,7), of after] assms(6,8)
  have "g \<noteq> generation (current_setting s')" by simp
  then show ?thesis
    using change_enable [OF assms(3,4,5), of "current_setting s'"] by (simp add: changeSettings_refused)
qed

lemma disable_retires_pending_enable_witness:
  "\<exists>s'. s' = fold apply_request [(NoFault, demo_begin 0), (NoFault, demo_disable), (OpenFails, demo_disable)] []
     \<and> changeSettings NoFault (demo_enable 0) s'
        = (s', Inr (setting.extend (current_setting s') \<lparr>applied = False\<rparr>))"
  using disable_retires_pending_enable [of demo_disable "demo_enable 0" 0 "[]" "[(NoFault, demo_begin 0)]"
      "fold apply_request [(NoFault, demo_begin 0), (NoFault, demo_disable), (OpenFails, demo_disable)] []"
      "[(OpenFails, demo_disable)]"]
  by (simp add: demo_requests current_setting_empty DEFAULT_SETTINGS_def MAX_SAFE_INTEGER_def
      apply_request_def current_setting_changeSettings change_def)

text \<open>An enabling that nothing retires completes. After an applied \<open>begin\<close>, an Enable with
  the generation it answered turns delivery on if no other request retired that generation.\<close>

theorem begun_enable_completes:
  assumes "js_get b ''type'' = jlit ''notification-settings-begin''"
    and "safe_integer (js_get b ''generation'') = Some (generation (current_setting s))"
    and "generation (current_setting s) < MAX_SAFE_INTEGER"
    and "js_get r ''type'' = jlit ''notification-settings-set''" "js_get r ''enabled'' = JBool True"
    and "safe_integer (js_get r ''generation'') = Some (generation (current_setting (apply_request (NoFault, b) s)))"
    and "s' = fold apply_request others (apply_request (NoFault, b) s)"
    and "generation (current_setting s') = generation (current_setting (apply_request (NoFault, b) s))"
  shows "\<not> enabled (current_setting (apply_request (NoFault, b) s))
    \<and> generation (current_setting (apply_request (NoFault, b) s)) = generation (current_setting s) + 1
    \<and> current_setting (apply_request (NoFault, r) s')
      = \<lparr>enabled = True, generation = generation (current_setting s) + 1\<rparr>"
proof -
  let ?s1 = "apply_request (NoFault, b) s"
  have s1: "current_setting ?s1 = \<lparr>enabled = False, generation = generation (current_setting s) + 1\<rparr>"
    using change_begin [OF assms(1,2), of "current_setting s"] assms(3)
    by (simp add: apply_request_def current_setting_changeSettings)
  have "change r (current_setting s') = Some \<lparr>enabled = True, generation = generation (current_setting ?s1)\<rparr>"
    using change_enable [OF assms(4-6), of "current_setting s'"] assms(8) by simp
  with s1 show ?thesis
    by (simp add: apply_request_def [of "(NoFault, r)"] current_setting_changeSettings)
qed

lemma begun_enable_completes_witness:
  "\<exists>s'. s' = fold apply_request [(TxFails, demo_disable)] (apply_request (NoFault, demo_begin 0) [])
     \<and> current_setting (apply_request (NoFault, demo_enable 1) s') = \<lparr>enabled = True, generation = 1\<rparr>"
proof -
  let ?s1 = "apply_request (NoFault, demo_begin 0) []"
  let ?s = "fold apply_request [(TxFails, demo_disable)] ?s1"
  have s1: "generation (current_setting ?s1) = 1"
    by (simp add: demo_requests current_setting_empty DEFAULT_SETTINGS_def MAX_SAFE_INTEGER_def
      apply_request_def current_setting_changeSettings change_def)
  have s: "current_setting ?s = current_setting ?s1"
    by (simp add: apply_request_def [of "(TxFails, demo_disable)"] current_setting_changeSettings)
  have "current_setting (apply_request (NoFault, demo_enable 1) ?s) = \<lparr>enabled = True, generation = 1\<rparr>"
    using begun_enable_completes [of "demo_begin 0" "[]" "demo_enable 1" ?s "[(TxFails, demo_disable)]"] s1 s
    by (simp add: demo_requests current_setting_empty DEFAULT_SETTINGS_def MAX_SAFE_INTEGER_def)
  then show ?thesis by blast
qed

text \<open>A click on a notification opens the dashboard root and nothing else. With the windows
  listed and their URLs parsing, it focuses the first window of the worker's origin at path
  \<open>/\<close>, and opens \<open>/\<close> exactly when there is none.\<close>

theorem click_opens_dashboard:
  assumes "\<And>c. c \<in> set cs \<Longrightarrow> parse_url (c_url c) \<noteq> None"
  shows "on_click parse_url self (Inr cs)
    = Inr (case find (\<lambda>c. parse_url (c_url c) = Some (self, js ''/'')) cs of
        Some c \<Rightarrow> Focus c | None \<Rightarrow> OpenWindow ''/'')"
proof -
  have "find_dashboard parse_url self cs = Inr (find (\<lambda>c. parse_url (c_url c) = Some (self, js ''/'')) cs)"
    using assms by (induction cs) (auto split: option.splits)
  then show ?thesis by (simp add: on_click_def split: option.splits)
qed

lemma click_opens_dashboard_witness:
  "on_click demo_url (js ''o'') (Inr [\<lparr>c_id = 1, c_url = js ''ob''\<rparr>, \<lparr>c_id = 2, c_url = js ''o/''\<rparr>])
    = Inr (Focus \<lparr>c_id = 2, c_url = js ''o/''\<rparr>)"
proof -
  let ?cs = "[\<lparr>c_id = 1, c_url = js ''ob''\<rparr>, \<lparr>c_id = 2, c_url = js ''o/''\<rparr>]"
  have "demo_url (c_url c) \<noteq> None" if "c \<in> set ?cs" for c
    using that by (auto simp: demo_url_def)
  then have "on_click demo_url (js ''o'') (Inr ?cs)
      = Inr (case find (\<lambda>c. demo_url (c_url c) = Some (js ''o'', js ''/'')) ?cs of
          Some c \<Rightarrow> Focus c | None \<Rightarrow> OpenWindow ''/'')"
    by (rule click_opens_dashboard)
  then show ?thesis
    by (simp add: demo_url_def js_def)
qed

end
