(* ===== verification/FrontendInventory.thy ===== *)
theory FrontendInventory
  imports ObjectStore
begin

text \<open>
  What \<open>scripts/browser-acceptance.cjs\<close> does before it serves anything (lines 17-60): it walks
  the distribution directory, hashes every file, and compares the inventory with the one the
  committed manifest records. The file system is a tree of directory entries; \<open>sha256\<close> is the
  hexadecimal digest of \<open>node:crypto\<close> and \<open>locale_compare\<close> is \<open>String.localeCompare\<close>.
  A JavaScript \<open>Map\<close> is an association list in insertion order.
\<close>

type_synonym bytes = "8 word list"

datatype fsnode =
    Link
  | Directory "(jsstring \<times> fsnode) list"
  | RegularFile bytes
  | Special

type_synonym fspath = "jsstring list"

record asset =
  a_data :: bytes
  a_extension :: jsstring

record inventory =
  actual :: "(jsstring, jsstring) store"
  staticAssets :: "(jsstring, asset) store"

definition slash :: code_unit where
  "slash = 0x2F"

definition dot :: code_unit where
  "dot = 0x2E"

fun join_path :: "fspath \<Rightarrow> jsstring" where
  "join_path [] = []"
| "join_path [n] = n"
| "join_path (n # m # p) = n @ slash # join_path (m # p)"

text \<open>\<open>path.extname\<close>: the last dot of the base name and what follows, unless it comes first.\<close>

definition extname :: "fspath \<Rightarrow> jsstring" where
  "extname p =
     (let base = (if p = [] then [] else last p);
          before = rev (dropWhile (\<lambda>u. u \<noteq> dot) (rev base))
      in if length before \<le> 1 then [] else drop (length before - 1) base)"

section \<open>Walking the distribution\<close>

function inspectFiles ::
  "(bytes \<Rightarrow> jsstring) \<Rightarrow> fspath \<Rightarrow> fspath \<Rightarrow> fspath \<Rightarrow> (jsstring \<times> fsnode) list \<Rightarrow> inventory
    \<Rightarrow> inventory promise" where
  "inspectFiles sha256 dist_dir manifestFile dir [] seen = Inr seen"
| "inspectFiles sha256 dist_dir manifestFile dir ((name, Link) # items) seen =
     Inl (AssertionError ''Frontend must not contain links'')"
| "inspectFiles sha256 dist_dir manifestFile dir ((name, Directory sub) # items) seen =
     (case inspectFiles sha256 dist_dir manifestFile (dir @ [name]) sub seen of
        Inl e \<Rightarrow> Inl e
      | Inr seen' \<Rightarrow> inspectFiles sha256 dist_dir manifestFile dir items seen')"
| "inspectFiles sha256 dist_dir manifestFile dir ((name, Special) # items) seen =
     Inl (AssertionError ''Frontend must contain only regular files'')"
| "inspectFiles sha256 dist_dir manifestFile dir ((name, RegularFile data) # items) seen =
     (let file = dir @ [name] in
      if dist_dir @ file = manifestFile then inspectFiles sha256 dist_dir manifestFile dir items seen
      else inspectFiles sha256 dist_dir manifestFile dir items
        \<lparr>actual = AList.update (join_path file) (sha256 data) (actual seen),
         staticAssets = AList.update (slash # join_path file)
           \<lparr>a_data = data, a_extension = extname file\<rparr> (staticAssets seen)\<rparr>)"
  by pat_completeness auto
termination
  by (relation "measure (\<lambda>(_, _, _, _, items, _). size_list (size_prod (\<lambda>_. 0) size) items)") auto

section \<open>Comparing with the manifest\<close>

text \<open>\<open>Array.sort\<close> with a comparator: stable, so for a consistent comparator this insertion.\<close>

fun insert_by :: "('a \<Rightarrow> 'a \<Rightarrow> int) \<Rightarrow> 'a \<Rightarrow> 'a list \<Rightarrow> 'a list" where
  "insert_by cmp x [] = [x]"
| "insert_by cmp x (y # ys) = (if cmp x y \<le> 0 then x # y # ys else y # insert_by cmp x ys)"

definition sort_by :: "('a \<Rightarrow> 'a \<Rightarrow> int) \<Rightarrow> 'a list \<Rightarrow> 'a list" where
  "sort_by cmp xs = foldr (insert_by cmp) xs []"

definition new_map :: "('k \<times> 'v) list \<Rightarrow> ('k, 'v) store" where
  "new_map entries = fold (\<lambda>(k, v). AList.update k v) entries []"

definition assert_match :: "(jsstring \<Rightarrow> bool) \<Rightarrow> jsval \<Rightarrow> unit promise" where
  "assert_match regex v =
     (case js_string v of
        Some s \<Rightarrow> if regex s then Inr () else Inl (AssertionError ''match'')
      | None \<Rightarrow> Inl (AssertionError ''match''))"

fun check_hashes :: "(jsstring, jsstring) store \<Rightarrow> (jsstring \<times> jsval) list \<Rightarrow> unit promise" where
  "check_hashes found [] = Inr ()"
| "check_hashes found ((file, hash) # rest) =
     and_then (assert_match (hex_exactly 64) hash) (\<lambda>_.
       if map_option JStr (map_of found file) \<noteq> Some hash then Inl (AssertionError ''Frontend bytes changed'')
       else check_hashes found rest)"

definition verify_inventory ::
  "(bytes \<Rightarrow> jsstring) \<Rightarrow> (jsstring \<Rightarrow> jsstring \<Rightarrow> int) \<Rightarrow> fspath \<Rightarrow> fspath
    \<Rightarrow> (jsstring \<times> fsnode) list \<Rightarrow> (jsstring \<times> jsval) list \<Rightarrow> inventory promise" where
  "verify_inventory sha256 locale_compare dist_dir manifestFile distribution entries =
     (let expected = new_map entries in
      if \<not> (0 < length expected \<and> length expected = length entries) then
        Inl (AssertionError ''Frontend inventory must be nonempty and unique'')
      else case inspectFiles sha256 dist_dir manifestFile [] distribution \<lparr>actual = [], staticAssets = []\<rparr> of
        Inl e \<Rightarrow> Inl e
      | Inr seen \<Rightarrow>
          if sort_by locale_compare (map fst (actual seen)) \<noteq> sort_by locale_compare (map fst expected) then
            Inl (AssertionError ''Frontend inventory differs from recorded release'')
          else (case check_hashes (actual seen) expected of
                  Inl e \<Rightarrow> Inl e
                | Inr _ \<Rightarrow> Inr seen))"

section \<open>The files of a tree\<close>

text \<open>The regular files below a directory with their paths, and whether there is nothing else.\<close>

function files_below :: "fspath \<Rightarrow> (jsstring \<times> fsnode) list \<Rightarrow> (fspath \<times> bytes) list" where
  "files_below dir [] = []"
| "files_below dir ((name, Directory sub) # items) = files_below (dir @ [name]) sub @ files_below dir items"
| "files_below dir ((name, RegularFile data) # items) = (dir @ [name], data) # files_below dir items"
| "files_below dir ((name, Link) # items) = files_below dir items"
| "files_below dir ((name, Special) # items) = files_below dir items"
  by pat_completeness auto
termination
  by (relation "measure (\<lambda>(_, items). size_list (size_prod (\<lambda>_. 0) size) items)") auto

fun plain :: "fsnode \<Rightarrow> bool" where
  "plain Link = False"
| "plain Special = False"
| "plain (RegularFile _) = True"
| "plain (Directory items) = list_all (\<lambda>(n, node). plain node) items"

definition served_files :: "fspath \<Rightarrow> fspath \<Rightarrow> (jsstring \<times> fsnode) list \<Rightarrow> (fspath \<times> bytes) list" where
  "served_files dist_dir manifestFile distribution =
     filter (\<lambda>(p, d). dist_dir @ p \<noteq> manifestFile) (files_below [] distribution)"

definition record_file :: "(bytes \<Rightarrow> jsstring) \<Rightarrow> fspath \<times> bytes \<Rightarrow> inventory \<Rightarrow> inventory" where
  "record_file sha256 f seen =
     \<lparr>actual = AList.update (join_path (fst f)) (sha256 (snd f)) (actual seen),
      staticAssets = AList.update (slash # join_path (fst f))
        \<lparr>a_data = snd f, a_extension = extname (fst f)\<rparr> (staticAssets seen)\<rparr>"

abbreviation all_plain :: "(jsstring \<times> fsnode) list \<Rightarrow> bool" where
  "all_plain items \<equiv> list_all (\<lambda>(n, node). plain node) items"

lemma inspectFiles_plain:
  "all_plain items \<Longrightarrow> inspectFiles sha256 dist_dir mf dir items seen
     = Inr (fold (record_file sha256) (filter (\<lambda>(p, d). dist_dir @ p \<noteq> mf) (files_below dir items)) seen)"
  by (induction sha256 dist_dir mf dir items seen rule: inspectFiles.induct) (auto simp: record_file_def Let_def)

lemma inspectFiles_not_plain:
  "\<not> all_plain items \<Longrightarrow> \<exists>e. inspectFiles sha256 dist_dir mf dir items seen = Inl e"
proof (induction sha256 dist_dir mf dir items seen rule: inspectFiles.induct)
  case (3 sha256 dist_dir manifestFile dir name sub items seen)
  then show ?case
    by (cases "all_plain sub") (auto simp: inspectFiles_plain split: sum.splits)
next
  case (5 sha256 dist_dir manifestFile dir name data items seen)
  then show ?case by (auto simp: Let_def)
qed auto

lemma inspectFiles_eq:
  "inspectFiles sha256 dist_dir mf dir items seen = Inr seen' \<longleftrightarrow>
   all_plain items
   \<and> seen' = fold (record_file sha256) (filter (\<lambda>(p, d). dist_dir @ p \<noteq> mf) (files_below dir items)) seen"
  using inspectFiles_plain [of items sha256 dist_dir mf dir seen]
    inspectFiles_not_plain [of items sha256 dist_dir mf dir seen]
  by (cases "all_plain items") auto

text \<open>The inventory is the files' names and digests, the served assets their contents.\<close>

definition digests :: "(bytes \<Rightarrow> jsstring) \<Rightarrow> (fspath \<times> bytes) list \<Rightarrow> (jsstring \<times> jsstring) list" where
  "digests sha256 files = map (\<lambda>(p, d). (join_path p, sha256 d)) files"

lemma actual_fold:
  "actual (fold (record_file sha256) files seen)
     = fold (\<lambda>(k, v). AList.update k v) (digests sha256 files) (actual seen)"
  by (induction files arbitrary: seen) (auto simp: record_file_def digests_def)

lemma map_of_fold_update:
  "map_of (fold (\<lambda>(k, v). AList.update k v) xs s) = map_of s ++ map_of (rev xs)"
  by (induction xs arbitrary: s) (auto simp: update_conv' fun_eq_iff map_add_def split: option.splits)

lemma distinct_fold_update:
  "store_ok s \<Longrightarrow> store_ok (fold (\<lambda>(k, v). AList.update k v) xs s)"
  by (induction xs arbitrary: s) (auto simp: distinct_update)

lemma new_map_ok: "store_ok (new_map xs)"
  by (simp add: new_map_def distinct_fold_update)

lemma map_of_new_map: "map_of (new_map xs) = map_of (rev xs)"
  by (simp add: new_map_def map_of_fold_update)

lemma set_keys_new_map: "fst ` set (new_map xs) = fst ` set xs"
  by (metis dom_map_of_conv_image_fst map_of_new_map set_rev)

lemma length_new_map: "length (new_map xs) = card (fst ` set xs)"
  using new_map_ok [of xs] set_keys_new_map [of xs] distinct_card [of "map fst (new_map xs)"] by simp

lemma new_map_distinct: "length (new_map xs) = length xs \<longleftrightarrow> distinct (map fst xs)"
  using card_distinct [of "map fst xs"] distinct_card [of "map fst xs"] by (auto simp: length_new_map)

section \<open>Sorting\<close>

lemma mset_insert_by [simp]: "mset (insert_by cmp x ys) = add_mset x (mset ys)"
  by (induction ys) auto

lemma mset_sort_by [simp]: "mset (sort_by cmp xs) = mset xs"
  by (induction xs) (simp_all add: sort_by_def)

lemma set_sort_by [simp]: "set (sort_by cmp xs) = set xs"
  by (metis mset_sort_by set_mset_mset)

lemma sort_by_eq_set: "sort_by cmp xs = sort_by cmp ys \<Longrightarrow> set xs = set ys"
  by (metis set_sort_by)

text \<open>A comparator as the language specification asks for: a total order on what it compares.\<close>

definition consistent :: "('a \<Rightarrow> 'a \<Rightarrow> int) \<Rightarrow> bool" where
  "consistent cmp \<longleftrightarrow> (\<forall>x y. cmp x y \<le> 0 \<and> cmp y x \<le> 0 \<longrightarrow> x = y) \<and> (\<forall>x y. cmp x y \<le> 0 \<or> cmp y x \<le> 0)
     \<and> (\<forall>x y z. cmp x y \<le> 0 \<and> cmp y z \<le> 0 \<longrightarrow> cmp x z \<le> 0)"

abbreviation cmp_sorted :: "('a \<Rightarrow> 'a \<Rightarrow> int) \<Rightarrow> 'a list \<Rightarrow> bool" where
  "cmp_sorted cmp \<equiv> sorted_wrt (\<lambda>x y. cmp x y \<le> 0)"

lemma set_insert_by [simp]: "set (insert_by cmp x ys) = insert x (set ys)"
  by (metis mset_insert_by set_mset_add_mset_insert set_mset_mset)

lemma consistent_antisym: "consistent cmp \<Longrightarrow> cmp x y \<le> 0 \<Longrightarrow> cmp y x \<le> 0 \<Longrightarrow> x = y"
  unfolding consistent_def by blast

lemma consistent_total: "consistent cmp \<Longrightarrow> \<not> cmp x y \<le> 0 \<Longrightarrow> cmp y x \<le> 0"
  unfolding consistent_def by blast

lemma consistent_trans: "consistent cmp \<Longrightarrow> cmp x y \<le> 0 \<Longrightarrow> cmp y z \<le> 0 \<Longrightarrow> cmp x z \<le> 0"
  unfolding consistent_def by blast

lemma insert_by_sorted: "consistent cmp \<Longrightarrow> cmp_sorted cmp ys \<Longrightarrow> cmp_sorted cmp (insert_by cmp x ys)"
proof (induction ys)
  case (Cons y ys)
  show ?case
  proof (cases "cmp x y \<le> 0")
    case True
    have "cmp x z \<le> 0" if "z \<in> set ys" for z
      using that Cons.prems True by (auto intro: consistent_trans [of cmp x y z])
    with True Cons.prems show ?thesis by simp
  next
    case False
    with Cons consistent_total [of cmp x y] show ?thesis by simp
  qed
qed simp

lemma sort_by_sorted: "consistent cmp \<Longrightarrow> cmp_sorted cmp (sort_by cmp xs)"
  by (induction xs) (simp_all add: sort_by_def insert_by_sorted)

lemma cmp_sorted_unique:
  assumes "consistent cmp"
  shows "cmp_sorted cmp xs \<Longrightarrow> cmp_sorted cmp ys \<Longrightarrow> mset xs = mset ys \<Longrightarrow> xs = ys"
proof (induction xs arbitrary: ys)
  case (Cons x xs)
  then obtain y ys' where ys: "ys = y # ys'" by (cases ys) auto
  from Cons.prems(3) ys have "x \<in> set (y # ys')" "y \<in> set (x # xs)"
    by (metis list.set_intros(1) mset_eq_setD)+
  then have "y = x \<or> cmp x y \<le> 0 \<and> cmp y x \<le> 0"
    using Cons.prems(1,2) ys by auto
  then have "x = y" using consistent_antisym [OF assms, of x y] by blast
  with Cons ys show ?case by simp
qed simp

lemma sort_by_eq_iff:
  assumes "consistent cmp"
  shows "sort_by cmp xs = sort_by cmp ys \<longleftrightarrow> mset xs = mset ys"
  using cmp_sorted_unique [OF assms sort_by_sorted [OF assms] sort_by_sorted [OF assms], of xs ys]
  by (metis mset_sort_by)

section \<open>What a passing check means\<close>

lemma new_map_id: "distinct (map fst xs) \<Longrightarrow> new_map xs = xs"
proof (induction xs rule: rev_induct)
  case (snoc x xs)
  have "AList.update (fst x) (snd x) xs = xs @ [x]"
    using snoc.prems by (induction xs) auto
  with snoc show ?case by (simp add: new_map_def case_prod_unfold)
qed (simp add: new_map_def)

lemma check_hashes_iff:
  "check_hashes found es = Inr () \<longleftrightarrow>
   list_all (\<lambda>(f, h). \<exists>d. h = JStr d \<and> hex_exactly 64 d \<and> map_of found f = Some d) es"
  by (induction es)
    (auto simp: assert_match_def and_then_Inr js_string_Some_iff split: if_splits option.splits)

lemma same_map:
  assumes "distinct (map fst xs)" and "distinct (map fst ys)" and "set (map fst xs) = set (map fst ys)"
    and "\<And>f h. (f, h) \<in> set ys \<Longrightarrow> map_of xs f = Some h"
  shows "map_of xs = map_of ys"
proof
  fix f
  show "map_of xs f = map_of ys f"
  proof (cases "map_of ys f")
    case None
    then have "f \<notin> set (map fst xs)"
      unfolding assms(3) by (auto simp: map_of_eq_None_iff)
    then have "map_of xs f = None" by (auto simp: map_of_eq_None_iff)
    with None show ?thesis by simp
  next
    case (Some h)
    with assms(4) show ?thesis by (auto dest: map_of_SomeD)
  qed
qed

lemma same_map_keys:
  assumes "distinct (map fst xs)" and "distinct (map fst ys)" and "map_of xs = map_of ys"
  shows "mset (map fst xs) = mset (map fst ys)"
proof -
  have "set (map fst xs) = set (map fst ys)"
    using assms(3) by (metis dom_map_of_conv_image_fst list.set_map)
  then show ?thesis
    using set_eq_iff_mset_eq_distinct [OF assms(1,2)] by blast
qed

definition tree_inventory ::
  "(bytes \<Rightarrow> jsstring) \<Rightarrow> fspath \<Rightarrow> fspath \<Rightarrow> (jsstring \<times> fsnode) list \<Rightarrow> inventory" where
  "tree_inventory sha256 dist_dir manifestFile distribution =
     fold (record_file sha256) (served_files dist_dir manifestFile distribution) \<lparr>actual = [], staticAssets = []\<rparr>"

lemma actual_tree:
  "actual (tree_inventory sha256 dist_dir mf distribution) = new_map (digests sha256 (served_files dist_dir mf distribution))"
  by (simp add: tree_inventory_def actual_fold new_map_def)

lemma inspect_root:
  "inspectFiles sha256 dist_dir mf [] distribution \<lparr>actual = [], staticAssets = []\<rparr> = Inr seen \<longleftrightarrow>
   all_plain distribution \<and> seen = tree_inventory sha256 dist_dir mf distribution"
  unfolding inspectFiles_eq tree_inventory_def served_files_def ..

lemma verify_inventory_Inr:
  "verify_inventory sha256 cmp dist_dir mf distribution entries = Inr seen \<longleftrightarrow>
   entries \<noteq> [] \<and> distinct (map fst entries) \<and> all_plain distribution
   \<and> seen = tree_inventory sha256 dist_dir mf distribution
   \<and> sort_by cmp (map fst (actual seen)) = sort_by cmp (map fst entries)
   \<and> list_all (\<lambda>(f, h). \<exists>d. h = JStr d \<and> hex_exactly 64 d \<and> map_of (actual seen) f = Some d) entries"
proof (cases "entries \<noteq> [] \<and> distinct (map fst entries)")
  case True
  then have "length (new_map entries) = length entries" "new_map entries = entries"
    by (simp_all add: new_map_id)
  with True show ?thesis
    using inspect_root [of sha256 dist_dir mf distribution seen]
    by (auto simp: verify_inventory_def check_hashes_iff [symmetric] Let_def split: sum.splits if_splits)
next
  case False
  then have "\<not> (0 < length (new_map entries) \<and> length (new_map entries) = length entries)"
    using new_map_distinct [of entries] by (auto simp: new_map_def)
  with False show ?thesis by (auto simp: verify_inventory_def Let_def)
qed

lemma asset_digest:
  "map_of (actual (fold (record_file sha256) files seen)) f
     = map_option (\<lambda>a. sha256 (a_data a)) (map_of (staticAssets (fold (record_file sha256) files seen)) (slash # f))"
  if "\<And>f. map_of (actual seen) f = map_option (\<lambda>a. sha256 (a_data a)) (map_of (staticAssets seen) (slash # f))"
  using that by (induction files arbitrary: seen) (auto simp: record_file_def update_conv)

lemma asset_key:
  "map_of (staticAssets (fold (record_file sha256) files seen)) k = Some a \<Longrightarrow>
   (\<And>k a. map_of (staticAssets seen) k = Some a \<Longrightarrow> \<exists>f. k = slash # f) \<Longrightarrow> \<exists>f. k = slash # f"
proof (induction files arbitrary: seen)
  case (Cons x files)
  show ?case
    by (rule Cons.IH [of "record_file sha256 x seen"])
       (use Cons.prems in \<open>auto simp: record_file_def update_conv split: if_splits\<close>)
qed simp

lemma asset_names:
  "map fst (staticAssets seen) = map ((#) slash) (map fst (actual seen)) \<Longrightarrow>
   map fst (staticAssets (fold (record_file sha256) files seen))
     = map ((#) slash) (map fst (actual (fold (record_file sha256) files seen)))"
proof (induction files arbitrary: seen)
  case (Cons x files)
  show ?case unfolding fold_simps comp_apply
    by (rule Cons.IH)
      (use Cons.prems in \<open>simp add: record_file_def update_keys inj_image_mem_iff del: map_map\<close>)
qed simp

lemma served_asset_names:
  assumes "verify_inventory sha256 cmp dist_dir mf distribution entries = Inr seen"
  shows "map fst (staticAssets seen) = map ((#) slash) (map fst (actual seen))"
proof -
  from assms have "seen = tree_inventory sha256 dist_dir mf distribution" by (simp add: verify_inventory_Inr)
  then show ?thesis unfolding tree_inventory_def by (simp add: asset_names)
qed

lemma served_count:
  assumes "verify_inventory sha256 cmp dist_dir mf distribution entries = Inr seen"
  shows "length (staticAssets seen) = length entries"
proof -
  have "sort_by cmp (map fst (actual seen)) = sort_by cmp (map fst entries)"
    using assms unfolding verify_inventory_Inr by blast
  then have "length (actual seen) = length entries"
    by (metis length_map mset_eq_length mset_sort_by)
  then show ?thesis using served_asset_names [OF assms] by (metis length_map)
qed

lemma served_asset_digest:
  assumes "verify_inventory sha256 cmp dist_dir mf distribution entries = Inr seen"
  shows "map_of (actual seen) f = map_option (\<lambda>a. sha256 (a_data a)) (map_of (staticAssets seen) (slash # f))"
proof -
  from assms have "seen = tree_inventory sha256 dist_dir mf distribution" by (simp add: verify_inventory_Inr)
  then show ?thesis unfolding tree_inventory_def by (simp add: asset_digest)
qed

lemma served_asset_key:
  assumes "verify_inventory sha256 cmp dist_dir mf distribution entries = Inr seen"
    and "map_of (staticAssets seen) r = Some a"
  shows "\<exists>f. r = slash # f"
proof -
  from assms(1) have seen: "seen = tree_inventory sha256 dist_dir mf distribution"
    by (simp add: verify_inventory_Inr)
  show ?thesis
    by (rule asset_key [OF assms(2) [unfolded seen tree_inventory_def]]) simp
qed

lemma recorded_digest:
  assumes "verify_inventory sha256 cmp dist_dir mf distribution entries = Inr seen"
  shows "map_of (actual seen) f = Some d \<longleftrightarrow> (f, JStr d) \<in> set entries"
    and "(f, h) \<in> set entries \<Longrightarrow> \<exists>d. h = JStr d \<and> hex_exactly 64 d \<and> map_of (actual seen) f = Some d"
proof -
  have all: "\<exists>d. h = JStr d \<and> hex_exactly 64 d \<and> map_of (actual seen) f = Some d"
    if "(f, h) \<in> set entries" for f h
    using assms that by (auto simp: verify_inventory_Inr list_all_iff)
  then show "(f, h) \<in> set entries \<Longrightarrow> \<exists>d. h = JStr d \<and> hex_exactly 64 d \<and> map_of (actual seen) f = Some d" .
  have keys: "set (map fst (actual seen)) = set (map fst entries)"
    using assms unfolding verify_inventory_Inr by (intro sort_by_eq_set [of cmp]) blast
  show "map_of (actual seen) f = Some d \<longleftrightarrow> (f, JStr d) \<in> set entries"
  proof
    assume found: "map_of (actual seen) f = Some d"
    then have "f \<in> set (map fst (actual seen))" by (force dest: map_of_SomeD)
    then obtain h where "(f, h) \<in> set entries" unfolding keys by auto
    with all [of f h] found show "(f, JStr d) \<in> set entries" by auto
  next
    assume "(f, JStr d) \<in> set entries"
    with all [of f "JStr d"] show "map_of (actual seen) f = Some d" by auto
  qed
qed

lemma same_entries:
  assumes "distinct (map fst found)" and "distinct (map fst entries)"
  shows "mset (map fst found) = mset (map fst entries)
      \<and> (\<forall>(f, h) \<in> set entries. \<exists>d. h = J d \<and> P d \<and> (f, d) \<in> set found)
    \<longleftrightarrow> (\<forall>(f, d) \<in> set found. P d) \<and> set entries = apsnd J ` set found" (is "?l \<longleftrightarrow> ?r")
proof
  assume l: ?l
  then have keys: "set (map fst found) = set (map fst entries)" by (metis mset_eq_setD)
  have one: "P d \<and> (f, J d) \<in> set entries" if "(f, d) \<in> set found" for f d
  proof -
    have "f \<in> set (map fst entries)" unfolding keys [symmetric] using that by force
    then obtain h where h: "(f, h) \<in> set entries" by auto
    with l obtain d' where "h = J d'" "P d'" "(f, d') \<in> set found" by blast
    with that h assms(1) show ?thesis by (metis eq_key_imp_eq_value)
  qed
  with l show ?r by (force simp: apsnd_def)
next
  assume r: ?r
  then have "set (map fst found) = set (map fst entries)" by (force simp: apsnd_def)
  then have "mset (map fst found) = mset (map fst entries)"
    using set_eq_iff_mset_eq_distinct [OF assms] by blast
  with r show ?l by auto
qed

text \<open>After a passing inventory check the served assets are the recorded files: each asset has
  its recorded digest and each recorded file is served.\<close>

theorem served_bytes_are_recorded:
  assumes "verify_inventory sha256 locale_compare dist_dir manifestFile distribution entries = Inr seen"
  shows "(\<forall>r a. map_of (staticAssets seen) r = Some a \<longrightarrow>
            (\<exists>f. r = slash # f \<and> (f, JStr (sha256 (a_data a))) \<in> set entries))
       \<and> (\<forall>(f, hash) \<in> set entries.
            \<exists>a. map_of (staticAssets seen) (slash # f) = Some a \<and> hash = JStr (sha256 (a_data a)))"
proof -
  note digest = served_asset_digest [OF assms]
  have "\<exists>f. r = slash # f \<and> (f, JStr (sha256 (a_data a))) \<in> set entries"
    if found: "map_of (staticAssets seen) r = Some a" for r a
  proof -
    obtain f where f: "r = slash # f" using served_asset_key [OF assms found] by blast
    with found digest [of f] have "map_of (actual seen) f = Some (sha256 (a_data a))" by simp
    with f show ?thesis using recorded_digest(1) [OF assms] by blast
  qed
  moreover have "\<exists>a. map_of (staticAssets seen) (slash # f) = Some a \<and> hash = JStr (sha256 (a_data a))"
    if "(f, hash) \<in> set entries" for f hash
    using recorded_digest(2) [OF assms that] digest [of f] by auto
  ultimately show ?thesis by blast
qed

text \<open>The inventory check accepts a distribution exactly when it holds plain files only and their
  names and SHA-256 digests are those of the manifest, without duplicates.\<close>

theorem inventory_accepts_exactly:
  assumes "consistent locale_compare"
    and "distinct (map fst (digests sha256 (served_files dist_dir manifestFile distribution)))"
  shows "(\<exists>seen. verify_inventory sha256 locale_compare dist_dir manifestFile distribution entries = Inr seen)
    \<longleftrightarrow> entries \<noteq> [] \<and> distinct (map fst entries) \<and> all_plain distribution
      \<and> (\<forall>(p, data) \<in> set (served_files dist_dir manifestFile distribution). hex_exactly 64 (sha256 data))
      \<and> set entries
          = (\<lambda>(p, data). (join_path p, JStr (sha256 data))) ` set (served_files dist_dir manifestFile distribution)"
    (is "_ \<longleftrightarrow> entries \<noteq> [] \<and> distinct (map fst entries) \<and> _ \<and> (\<forall>(p, data) \<in> set ?files. _) \<and> _")
proof -
  let ?found = "digests sha256 ?files"
  have actual: "actual (tree_inventory sha256 dist_dir manifestFile distribution) = ?found"
    using assms(2) by (simp add: actual_tree new_map_id)
  have recorded: "map_of ?found f = Some d \<longleftrightarrow> (f, d) \<in> set ?found" for f d
    using assms(2) by simp
  have files: "(\<lambda>(p, data). (join_path p, JStr (sha256 data))) ` set ?files = apsnd JStr ` set ?found"
    by (force simp: digests_def)
  have hex: "(\<forall>(p, data) \<in> set ?files. hex_exactly 64 (sha256 data)) \<longleftrightarrow> (\<forall>(f, d) \<in> set ?found. hex_exactly 64 d)"
    by (force simp: digests_def)
  have "(\<exists>seen. verify_inventory sha256 locale_compare dist_dir manifestFile distribution entries = Inr seen)
    \<longleftrightarrow> entries \<noteq> [] \<and> distinct (map fst entries) \<and> all_plain distribution
      \<and> mset (map fst ?found) = mset (map fst entries)
      \<and> (\<forall>(f, h) \<in> set entries. \<exists>d. h = JStr d \<and> hex_exactly 64 d \<and> (f, d) \<in> set ?found)"
    unfolding verify_inventory_Inr sort_by_eq_iff [OF assms(1)] list_all_iff
    by (simp only: simp_thms ex_simps actual recorded)
  moreover have "mset (map fst ?found) = mset (map fst entries)
      \<and> (\<forall>(f, h) \<in> set entries. \<exists>d. h = JStr d \<and> hex_exactly 64 d \<and> (f, d) \<in> set ?found)
    \<longleftrightarrow> (\<forall>(f, d) \<in> set ?found. hex_exactly 64 d) \<and> set entries = apsnd JStr ` set ?found"
    if "distinct (map fst entries)"
    by (rule same_entries [OF assms(2) that])
  ultimately show ?thesis unfolding files hex by blast
qed

section \<open>A small release\<close>

definition demo_sha256 :: "bytes \<Rightarrow> jsstring" where
  "demo_sha256 data = replicate 63 0x61 @ [if data = [] then 0x30 else 0x31]"

definition code_unit_compare :: "jsstring \<Rightarrow> jsstring \<Rightarrow> int" where
  "code_unit_compare s t = (if s < t then -1 else if s = t then 0 else 1)"

lemma code_unit_compare_consistent: "consistent code_unit_compare"
  unfolding consistent_def code_unit_compare_def by (auto split: if_splits)

definition demo_dist :: fspath where
  "demo_dist = [js ''repo'', js ''dist'']"

definition demo_manifest_file :: fspath where
  "demo_manifest_file = demo_dist @ [js ''source.json'']"

definition demo_tree :: "(jsstring \<times> fsnode) list" where
  "demo_tree = [(js ''js'', Directory [(js ''app.js'', RegularFile [1, 2])]),
     (js ''index.html'', RegularFile []), (js ''source.json'', RegularFile [3])]"

definition demo_entries :: "(jsstring \<times> jsval) list" where
  "demo_entries = [(js ''index.html'', JStr (demo_sha256 [])), (js ''js/app.js'', JStr (demo_sha256 [1, 2]))]"

lemmas demo_release_defs = demo_sha256_def code_unit_compare_def demo_dist_def demo_manifest_file_def
  demo_tree_def demo_entries_def

lemma demo_served: "served_files demo_dist demo_manifest_file demo_tree
    = [([js ''js'', js ''app.js''], [1, 2]), ([js ''index.html''], [])]"
  by code_simp

lemma demo_names: "distinct (map fst (digests demo_sha256 (served_files demo_dist demo_manifest_file demo_tree)))"
  unfolding demo_served by code_simp

lemma demo_hex: "hex_exactly 64 (demo_sha256 data)"
  by (simp add: demo_sha256_def hex_exactly_def list_all_iff is_lower_hex_def is_digit_def)

lemma demo_paths: "js ''index.html'' = join_path [js ''index.html'']"
    "js ''js/app.js'' = join_path [js ''js'', js ''app.js'']"
  by code_simp+

lemma demo_entries_paths: "demo_entries = [(join_path [js ''index.html''], JStr (demo_sha256 [])),
    (join_path [js ''js'', js ''app.js''], JStr (demo_sha256 [1, 2]))]"
  by (simp only: demo_entries_def demo_paths [symmetric])

theorem inventory_accepts_exactly_witness:
  "\<exists>seen. verify_inventory demo_sha256 code_unit_compare demo_dist demo_manifest_file demo_tree demo_entries
     = Inr seen"
  unfolding inventory_accepts_exactly [OF code_unit_compare_consistent demo_names] demo_served demo_entries_paths
  by (auto simp: demo_hex demo_tree_def js_def)

definition demo_seen :: inventory where
  "demo_seen = tree_inventory demo_sha256 demo_dist demo_manifest_file demo_tree"

lemma demo_verified:
  "verify_inventory demo_sha256 code_unit_compare demo_dist demo_manifest_file demo_tree demo_entries = Inr demo_seen"
  unfolding verify_inventory_Inr check_hashes_iff [symmetric] demo_seen_def actual_tree demo_served
  by (intro conjI refl; code_simp)

theorem served_bytes_are_recorded_witness:
  "map_of (staticAssets demo_seen) (js ''/js/app.js'') = Some \<lparr>a_data = [1, 2], a_extension = js ''.js''\<rparr>
   \<and> (\<exists>f. js ''/js/app.js'' = slash # f \<and> (f, JStr (demo_sha256 [1, 2])) \<in> set demo_entries)"
proof -
  have "map_of (staticAssets demo_seen) (js ''/js/app.js'') = Some \<lparr>a_data = [1, 2], a_extension = js ''.js''\<rparr>"
    unfolding demo_seen_def tree_inventory_def demo_served by code_simp
  with served_bytes_are_recorded [OF demo_verified] show ?thesis by fastforce
qed

end
