(* ===== verification/SocketFixture.thy ===== *)
theory SocketFixture
  imports Prelude
begin

text \<open>
  \<open>scripts/browser-socket-fixture.cjs\<close>: the close handshake of a mocked WebSocket, and
  \<open>scripts/browser-readiness.cjs\<close>: what a hydrated dashboard is. The browser driver is a
  parameter: which close notifications a \<open>close\<close> call brings about (\<open>acks\<close>), and when and how a
  wait for a locator settles.
\<close>

section \<open>The close handshake\<close>

type_synonym socket = nat

text \<open>The argument of \<open>close\<close>: \<open>{}\<close> or \<open>{ code, reason }\<close>; a notification may lack either.\<close>

type_synonym close_options = "(int \<times> jsstring option) option"

record close_event =
  ce_socket :: socket
  ce_code :: "int option"
  ce_reason :: "jsstring option"

text \<open>The set of tracked sockets in insertion order, and the \<open>close\<close> calls made so far.\<close>

record handshake =
  tracked :: "socket list"
  close_calls :: "(socket \<times> close_options) list"

definition trackMockSocket :: "socket \<Rightarrow> socket list \<Rightarrow> socket list" where
  "trackMockSocket s sockets = (if s \<in> set sockets then sockets else sockets @ [s])"

definition close_options :: "int option \<Rightarrow> jsstring option \<Rightarrow> close_options" where
  "close_options code reason =
     (case code of
        Some c \<Rightarrow> if c = 1000 \<or> c \<ge> 3000 \<and> c \<le> 4999 then Some (c, reason) else None
      | None \<Rightarrow> None)"

definition on_socket_close :: "close_event \<Rightarrow> handshake \<Rightarrow> handshake \<times> bool" where
  "on_socket_close e h =
     (if ce_socket e \<in> set (tracked h) then
        (h\<lparr>tracked := remove1 (ce_socket e) (tracked h),
           close_calls := close_calls h @ [(ce_socket e, close_options (ce_code e) (ce_reason e))]\<rparr>, True)
      else (h, False))"

text \<open>
  The notifications in the order they are delivered: those a \<open>close\<close> call brings about come
  before the ones that were waiting.
\<close>

function deliver_closes ::
  "(socket \<Rightarrow> close_options \<Rightarrow> close_event list) \<Rightarrow> close_event list \<Rightarrow> handshake \<Rightarrow> handshake" where
  "deliver_closes acks [] h = h"
| "deliver_closes acks (e # es) h =
     (case on_socket_close e h of
        (h', removed) \<Rightarrow>
          if removed then deliver_closes acks (acks (ce_socket e) (close_options (ce_code e) (ce_reason e)) @ es) h'
          else deliver_closes acks es h')"
  by pat_completeness auto
termination
proof (relation "measures [\<lambda>(_, _, h). length (tracked h), \<lambda>(_, es, _). length es]", goal_cases)
  case (2 acks e es h)
  then show ?case
    using length_pos_if_in_set [of "ce_socket e" "tracked h"]
    by (auto simp: on_socket_close_def length_remove1 split: if_splits)
qed (auto simp: on_socket_close_def split: if_splits)

lemmas deliver_closes_simps [simp del] = deliver_closes.simps

definition handshake_ok :: "handshake \<Rightarrow> bool" where
  "handshake_ok h \<longleftrightarrow> distinct (tracked h) \<and> distinct (map fst (close_calls h))
     \<and> set (tracked h) \<inter> fst ` set (close_calls h) = {}"

definition forwardable :: "close_options \<Rightarrow> bool" where
  "forwardable opts = (case opts of None \<Rightarrow> True | Some (c, _) \<Rightarrow> c = 1000 \<or> 3000 \<le> c \<and> c \<le> 4999)"

lemma forwardable_close_options: "forwardable (close_options code reason)"
  by (simp add: forwardable_def close_options_def split: option.splits)

lemma trackMockSocket_distinct: "distinct sockets \<Longrightarrow> distinct (trackMockSocket s sockets)"
  by (simp add: trackMockSocket_def)

lemma trackMockSocket_set [simp]: "set (trackMockSocket s sockets) = insert s (set sockets)"
  by (auto simp: trackMockSocket_def)

lemma on_socket_close_ok: "handshake_ok h \<Longrightarrow> handshake_ok (fst (on_socket_close e h))"
  by (auto simp: on_socket_close_def handshake_ok_def)

lemma deliver_closes_step:
  assumes "on_socket_close e h = (h', removed)"
  shows "deliver_closes acks (e # es) h =
     deliver_closes acks ((if removed then acks (ce_socket e) (close_options (ce_code e) (ce_reason e)) else []) @ es) h'"
  using assms by (simp add: deliver_closes.simps)

text \<open>What one notification keeps, all of them keep.\<close>

lemma deliver_closes_keeps:
  assumes "\<And>e h. I h \<Longrightarrow> I (fst (on_socket_close e h))"
  shows "I h \<Longrightarrow> I (deliver_closes acks es h)"
proof (induction acks es h rule: deliver_closes.induct)
  case (2 acks e es h)
  then show ?case
    using assms [of h e] by (auto simp: deliver_closes.simps split: prod.splits)
qed (simp add: deliver_closes.simps)

text \<open>The sockets known so far: tracked, or closed once.\<close>

definition known :: "handshake \<Rightarrow> socket set" where
  "known h = set (tracked h) \<union> fst ` set (close_calls h)"

lemma deliver_closes_ok: "handshake_ok h \<Longrightarrow> handshake_ok (deliver_closes acks es h)"
  by (rule deliver_closes_keeps [of handshake_ok]) (rule on_socket_close_ok)

lemma on_socket_close_known: "handshake_ok h \<Longrightarrow> known (fst (on_socket_close e h)) = known h"
  by (auto simp: on_socket_close_def handshake_ok_def known_def set_remove1_eq)

lemma deliver_closes_known: "handshake_ok h \<Longrightarrow> known (deliver_closes acks es h) = known h"
  using deliver_closes_keeps [of "\<lambda>h'. handshake_ok h' \<and> known h' = known h" h acks es]
  by (simp add: on_socket_close_ok on_socket_close_known)

lemma deliver_closes_forwardable:
  "list_all (forwardable \<circ> snd) (close_calls h) \<Longrightarrow>
   list_all (forwardable \<circ> snd) (close_calls (deliver_closes acks es h))"
  by (rule deliver_closes_keeps [of "\<lambda>h. list_all (forwardable \<circ> snd) (close_calls h)"])
    (auto simp: on_socket_close_def forwardable_close_options)

lemma deliver_closes_mono: "s \<notin> set (tracked h) \<Longrightarrow> s \<notin> set (tracked (deliver_closes acks es h))"
  by (rule deliver_closes_keeps [of "\<lambda>h. s \<notin> set (tracked h)"])
    (auto simp: on_socket_close_def dest: notin_set_remove1)

lemma deliver_closes_notified:
  "handshake_ok h \<Longrightarrow> e \<in> set es \<Longrightarrow> ce_socket e \<notin> set (tracked (deliver_closes acks es h))"
proof (induction acks es h rule: deliver_closes.induct)
  case (2 acks e' es h)
  obtain h' removed where step: "on_socket_close e' h = (h', removed)" by force
  then have "handshake_ok h'" "ce_socket e' \<notin> set (tracked h')"
    using "2.prems" on_socket_close_ok [of h e']
    by (auto simp: on_socket_close_def handshake_ok_def split: if_splits)
  with "2.IH" [OF step [symmetric]] "2.prems"(2) show ?case
    by (auto simp: deliver_closes_step [OF step] deliver_closes_mono)
qed simp

text \<open>Whatever close notifications a close call brings about, each tracked socket notified is
  closed exactly once and untracked, and only forwardable codes are passed on.\<close>

theorem close_handshake_completes_once:
  assumes "handshake_ok h" and "list_all (forwardable \<circ> snd) (close_calls h)"
  shows "distinct (map fst (close_calls (deliver_closes acks es h)))
       \<and> list_all (forwardable \<circ> snd) (close_calls (deliver_closes acks es h))
       \<and> known (deliver_closes acks es h) = known h
       \<and> (\<forall>e \<in> set es. ce_socket e \<in> known h \<longrightarrow>
            ce_socket e \<in> fst ` set (close_calls (deliver_closes acks es h))
            \<and> ce_socket e \<notin> set (tracked (deliver_closes acks es h)))"
proof -
  have "ce_socket e \<in> fst ` set (close_calls (deliver_closes acks es h))"
    if "e \<in> set es" "ce_socket e \<in> known h" for e
    using deliver_closes_notified [OF assms(1) that(1), of acks] deliver_closes_known [OF assms(1), of acks es] that(2)
    by (auto simp: known_def)
  then show ?thesis
    using deliver_closes_ok [OF assms(1), of acks es] deliver_closes_known [OF assms(1)]
      deliver_closes_forwardable [OF assms(2)] deliver_closes_notified [OF assms(1)]
    by (simp add: handshake_ok_def)
qed

text \<open>A driver that repeats the notification from inside \<open>close\<close>, with the reserved code 1006.\<close>

definition demo_acks :: "socket \<Rightarrow> close_options \<Rightarrow> close_event list" where
  "demo_acks s opts = [\<lparr>ce_socket = s, ce_code = Some 1006, ce_reason = None\<rparr>]"

theorem close_handshake_completes_once_witness:
  "close_calls (deliver_closes demo_acks [\<lparr>ce_socket = 1, ce_code = Some 1000, ce_reason = Some (js ''bye'')\<rparr>]
      \<lparr>tracked = [1, 2], close_calls = []\<rparr>) = [(1, Some (1000, Some (js ''bye'')))]
   \<and> 1 \<notin> set (tracked (deliver_closes demo_acks
        [\<lparr>ce_socket = 1, ce_code = Some 1000, ce_reason = Some (js ''bye'')\<rparr>]
        \<lparr>tracked = [1, 2], close_calls = []\<rparr>))"
proof
  show "close_calls (deliver_closes demo_acks [\<lparr>ce_socket = 1, ce_code = Some 1000, ce_reason = Some (js ''bye'')\<rparr>]
      \<lparr>tracked = [1, 2], close_calls = []\<rparr>) = [(1, Some (1000, Some (js ''bye'')))]"
    by (simp add: deliver_closes.simps on_socket_close_def close_options_def demo_acks_def)
  show "1 \<notin> set (tracked (deliver_closes demo_acks
        [\<lparr>ce_socket = 1, ce_code = Some 1000, ce_reason = Some (js ''bye'')\<rparr>]
        \<lparr>tracked = [1, 2], close_calls = []\<rparr>))"
    using close_handshake_completes_once [of "\<lparr>tracked = [1, 2], close_calls = []\<rparr>" demo_acks
        "[\<lparr>ce_socket = 1, ce_code = Some 1000, ce_reason = Some (js ''bye'')\<rparr>]"]
    by (simp add: handshake_ok_def known_def)
qed

end
