(* ===== verification/FixtureServer.thy ===== *)
theory FixtureServer
  imports FrontendInventory SocketFixture
begin

text \<open>
  The synthetic backend of \<open>scripts/browser-acceptance.cjs\<close>: the fixture (lines 74-89), its HTTP
  listener (95-120), \<open>broadcast\<close> (145-147) and the request and WebSocket interception of \<open>main\<close>
  (165-196). Messages are the values that \<open>JSON.stringify\<close> and \<open>JSON.parse\<close> carry; a route is the
  path name \<open>new URL\<close> finds in the request.
\<close>

section \<open>The fixture\<close>

record fixture =
  f_state :: jsval
  f_reject :: bool
  f_paused :: bool
  f_commands :: "jsval list"
  f_sockets :: "socket list"
  f_connections :: nat

definition jdec :: "int \<Rightarrow> jsval" where
  "jdec tenths = JNum (Num (of_int tenths / 10))"

text \<open>\<open>now\<close> is \<open>Date.now()\<close> in milliseconds, \<open>iso_now\<close> the formatted time of the telemetry.\<close>

definition initial_state :: "int \<Rightarrow> jsstring \<Rightarrow> jsval" where
  "initial_state now iso_now = JObj
     [(js ''data_source'', jlit ''mqtt''), (js ''native_connected'', JBool True),
      (js ''mqtt_connected'', JBool True), (js ''controller_controls_available'', JBool True),
      (js ''controller_observed_at'', JNum (Num (of_int now / 1000))), (js ''dry_run'', JBool False),
      (js ''gt'', jint 420), (js ''g1'', jint 200), (js ''g2'', jint 220), (js ''tt'', jint 850),
      (js ''t1'', jint 400), (js ''t2'', jint 450), (js ''solar_total'', jint 1200),
      (js ''battery_soc'', jint 73), (js ''battery_power'', jint (- 300)),
      (js ''battery_voltage'', jdec 512), (js ''battery_current'', jdec (- 58)),
      (js ''setpoint'', jint 25), (js ''inverter_state'', jlit ''Inverting''), (js ''uptime'', jint 7200),
      (js ''loads'', JObj [(js ''1'', jint 200), (js ''2'', jint (- 100)), (js ''3'', jint 5)]),
      (js ''load_names'', JObj [(js ''1'', jlit ''Fixture refrigerator''), (js ''2'', jlit ''Fixture solar''),
         (js ''3'', jlit ''Fixture router'')]),
      (js ''batteries'', JArr [JObj [(js ''instance'', jint 0), (js ''name'', jlit ''Fixture battery''),
         (js ''soc'', jint 73)]]),
      (js ''features'', JObj [(js ''ha'', JBool False)]),
      (js ''telemetry'', JObj [(js ''quality'', jlit ''live''), (js ''source'', jlit ''mqtt''),
         (js ''observed_at'', JStr iso_now)]),
      (js ''ui_config'', JObj [(js ''settings'', JObj [(js ''camera_topic'', jlit ''''),
         (js ''mqtt_port'', jint 1883), (js ''show_active_loads'', JBool True)])])]"

definition initial_fixture :: "int \<Rightarrow> jsstring \<Rightarrow> fixture" where
  "initial_fixture now iso_now =
     \<lparr>f_state = initial_state now iso_now, f_reject = False, f_paused = False, f_commands = [],
      f_sockets = [], f_connections = 0\<rparr>"

section \<open>HTTP\<close>

datatype body = Json jsval | Data bytes | Plain string

record response =
  r_status :: nat
  r_headers :: "(string \<times> string) list"
  r_body :: body

definition mime :: "(jsstring \<times> string) list" where
  "mime =
     [(js ''.html'', ''text/html''), (js ''.js'', ''text/javascript''), (js ''.css'', ''text/css''),
      (js ''.svg'', ''image/svg+xml''), (js ''.json'', ''application/json''),
      (js ''.woff2'', ''font/woff2''), (js ''.png'', ''image/png''), (js ''.ico'', ''image/x-icon'')]"

definition json_response :: "jsval \<Rightarrow> response" where
  "json_response v = \<lparr>r_status = 200,
     r_headers = [(''Cache-Control'', ''no-store''), (''Content-Type'', ''application/json'')], r_body = Json v\<rparr>"

definition state_document :: "fixture \<Rightarrow> jsval" where
  "state_document f =
     js_put ''mqtt_connected'' (JBool (\<not> f_paused f)) (js_put ''native_connected'' (JBool (\<not> f_paused f)) (f_state f))"

definition gateway_snapshot :: jsval where
  "gateway_snapshot = JObj
     [(js ''system'', JObj [(js ''0/Dc/Battery/Soc'', jint 61), (js ''0/Ac/Grid/L1/Power'', jint 123)]),
      (js ''battery'', JObj [(js ''0/Soc'', jint 61), (js ''0/CustomName'', jlit ''Public fixture battery'')])]"

definition on_http :: "(jsstring, asset) store \<Rightarrow> fixture \<Rightarrow> jsstring \<Rightarrow> response" where
  "on_http assets f route =
     (if route = js ''/api/state'' then json_response (state_document f)
      else if starts_with route (js ''/api/notifications/'') then
        json_response (JObj [(js ''items'', JArr []), (js ''notifications'', JArr []),
          (js ''enabled'', JBool False), (js ''available'', JBool False)])
      else if route = js ''/api/gateway/snapshot'' then json_response gateway_snapshot
      else case map_of assets (if route = js ''/'' then js ''/index.html'' else route) of
        None \<Rightarrow> \<lparr>r_status = 404, r_headers = [(''Cache-Control'', ''no-store'')], r_body = Plain ''Not found''\<rparr>
      | Some a \<Rightarrow> \<lparr>r_status = 200,
          r_headers = [(''Cache-Control'', ''no-store''),
            (''Content-Type'', case map_of mime (a_extension a) of Some t \<Rightarrow> t | None \<Rightarrow> ''application/octet-stream'')],
          r_body = Data (a_data a)\<rparr>)"

section \<open>The intercepted traffic\<close>

datatype verdict = Continue | Abort

definition on_route :: "jsstring \<Rightarrow> jsstring \<Rightarrow> jsstring list \<Rightarrow> jsstring list \<times> verdict" where
  "on_route origin url_origin blocked =
     (if url_origin = origin then (blocked, Continue) else (blocked @ [url_origin], Abort))"

record ws_url =
  u_origin :: jsstring
  u_host :: jsstring
  u_pathname :: jsstring

datatype ws_effect = Send socket jsval | Close socket close_options

definition broadcast :: "fixture \<Rightarrow> ws_effect list" where
  "broadcast f = map (\<lambda>s. Send s (f_state f)) (f_sockets f)"

definition on_web_socket ::
  "jsstring \<Rightarrow> socket \<Rightarrow> ws_url \<Rightarrow> fixture \<Rightarrow> jsstring list \<Rightarrow> fixture \<times> jsstring list \<times> ws_effect list" where
  "on_web_socket host s url f blocked =
     (if u_host url \<noteq> host \<or> u_pathname url \<noteq> js ''/ws'' then (f, blocked @ [u_origin url], [Close s None])
      else if f_paused f then (f, blocked, [Close s None])
      else (let f1 = f\<lparr>f_connections := f_connections f + 1, f_sockets := trackMockSocket s (f_sockets f)\<rparr>
            in (f1, blocked, [Send s (f_state f1)])))"

definition command_reply :: "string \<Rightarrow> jsval \<Rightarrow> (jsstring \<times> jsval) list \<Rightarrow> jsval" where
  "command_reply type command rest = defined_fields
     ([(js ''type'', jlit type), (js ''action'', js_get command ''action''),
       (js ''request_id'', js_get command ''request_id'')] @ rest)"

definition settings_patch :: "jsval \<Rightarrow> (jsstring \<times> jsval) list" where
  "settings_patch command =
     (case command of
        JObj fs \<Rightarrow> filter (\<lambda>(k, v). k \<notin> {js ''action'', js ''request_id''}) fs
      | _ \<Rightarrow> [])"

definition ui_settings :: "jsval \<Rightarrow> jsval" where
  "ui_settings st = js_get (js_get st ''ui_config'') ''settings''"

definition put_ui_settings :: "jsval \<Rightarrow> jsval \<Rightarrow> jsval" where
  "put_ui_settings x st = js_put ''ui_config'' (js_put ''settings'' x (js_get st ''ui_config'')) st"

definition on_command :: "socket \<Rightarrow> jsval \<Rightarrow> fixture \<Rightarrow> fixture \<times> ws_effect list \<times> unit promise" where
  "on_command s command f =
     (let f1 = f\<lparr>f_commands := f_commands f @ [command]\<rparr> in
      if command = JNull then (f1, [], Inl TypeError)
      else if f_reject f1 then
        (f1, [Send s (command_reply ''command_error'' command [(js ''error'', jlit ''Synthetic rejection'')])], Inr ())
      else
        let accepted = Send s (command_reply ''command_result'' command [(js ''status'', jlit ''accepted'')]) in
        if js_get command ''action'' = jlit ''set_settings'' then
          let f2 = f1\<lparr>f_state :=
                put_ui_settings (js_assign (ui_settings (f_state f1)) (settings_patch command)) (f_state f1)\<rparr>
          in (f2, accepted # broadcast f2, Inr ())
        else (f1, [accepted], Inr ()))"

definition on_client_close :: "close_event \<Rightarrow> fixture \<Rightarrow> fixture \<times> ws_effect list" where
  "on_client_close e f =
     (case on_socket_close e \<lparr>tracked = f_sockets f, close_calls = []\<rparr> of
        (h, _) \<Rightarrow> (f\<lparr>f_sockets := tracked h\<rparr>, map (\<lambda>(s, opts). Close s opts) (close_calls h)))"

text \<open>The disconnect scenario closes every tracked socket itself and forgets them (lines 275-276).\<close>

definition drop_all :: "fixture \<Rightarrow> fixture \<times> ws_effect list" where
  "drop_all f = (f\<lparr>f_sockets := []\<rparr>, map (\<lambda>s. Close s None) (f_sockets f))"

section \<open>What the listener serves\<close>

definition resolved :: "jsstring \<Rightarrow> jsstring" where
  "resolved route = (if route = js ''/'' then js ''/index.html'' else route)"

definition api_route :: "jsstring \<Rightarrow> bool" where
  "api_route route \<longleftrightarrow> route = js ''/api/state'' \<or> starts_with route (js ''/api/notifications/'')
     \<or> route = js ''/api/gateway/snapshot''"

lemma on_http_asset:
  "\<not> api_route route \<Longrightarrow> map_of assets (resolved route) = Some a \<Longrightarrow>
   r_status (on_http assets f route) = 200 \<and> r_body (on_http assets f route) = Data (a_data a)"
  by (simp add: on_http_def api_route_def resolved_def)

lemma on_http_missing:
  "\<not> api_route route \<Longrightarrow> map_of assets (resolved route) = None \<Longrightarrow>
   r_status (on_http assets f route) = 404 \<and> r_body (on_http assets f route) = Plain ''Not found''"
  by (simp add: on_http_def api_route_def resolved_def)

lemma on_http_api:
  "api_route route \<Longrightarrow> r_status (on_http assets f route) = 200 \<and> (\<exists>v. r_body (on_http assets f route) = Json v)"
  by (auto simp: on_http_def api_route_def json_response_def)

text \<open>C12: The acceptance server, on a verified inventory, sends file bytes only if their digest is
  recorded in the manifest under the requested path, and answers 404 exactly for the routes that
  are neither an API route nor a recorded file.\<close>

theorem http_serves_only_recorded_bytes:
  assumes "verify_inventory sha256 locale_compare dist_dir manifestFile distribution entries = Inr seen"
  shows "(\<forall>d. r_body (on_http (staticAssets seen) f route) = Data d \<longrightarrow>
            (\<exists>name. resolved route = slash # name \<and> (name, JStr (sha256 d)) \<in> set entries))
       \<and> (r_status (on_http (staticAssets seen) f route) = 404 \<longleftrightarrow>
            \<not> api_route route \<and> (\<forall>(name, hash) \<in> set entries. resolved route \<noteq> slash # name))"
proof (cases "api_route route")
  case True
  with on_http_api [of route "staticAssets seen" f] show ?thesis by auto
next
  case False
  show ?thesis
  proof (cases "map_of (staticAssets seen) (resolved route)")
    case None
    have "resolved route \<noteq> slash # name" if "(name, hash) \<in> set entries" for name hash
      using recorded_digest(2) [OF assms that] served_asset_digest [OF assms, of name] None by auto
    with False on_http_missing [OF False None, of f] show ?thesis by auto
  next
    case (Some a)
    then obtain name where name: "resolved route = slash # name"
      using served_asset_key [OF assms] by blast
    then have "(name, JStr (sha256 (a_data a))) \<in> set entries"
      using Some served_asset_digest [OF assms, of name] recorded_digest(1) [OF assms] by simp
    with name on_http_asset [OF False Some, of f] show ?thesis by auto
  qed
qed

theorem http_serves_only_recorded_bytes_witness:
  "r_body (on_http (staticAssets demo_seen) (initial_fixture 0 []) (js ''/js/app.js'')) = Data [1, 2]
   \<and> (js ''js/app.js'', JStr (demo_sha256 [1, 2])) \<in> set demo_entries
   \<and> r_status (on_http (staticAssets demo_seen) (initial_fixture 0 []) (js ''/package.json'')) = 404"
proof -
  have served: "r_body (on_http (staticAssets demo_seen) (initial_fixture 0 []) (js ''/js/app.js'')) = Data [1, 2]"
    unfolding demo_seen_def tree_inventory_def demo_served by code_simp
  have missing: "\<not> api_route (js ''/package.json'')"
    "\<forall>(name, hash) \<in> set demo_entries. resolved (js ''/package.json'') \<noteq> slash # name"
    by code_simp+
  have "resolved (js ''/js/app.js'') = slash # js ''js/app.js''" by code_simp
  with served missing
    http_serves_only_recorded_bytes [OF demo_verified, of "initial_fixture 0 []" "js ''/js/app.js''"]
    http_serves_only_recorded_bytes [OF demo_verified, of "initial_fixture 0 []" "js ''/package.json''"]
  show ?thesis by simp
qed

section \<open>A channel for commands\<close>

text \<open>
  What a client of a command channel relies on: a command has its effect exactly when the server
  accepts it, and the first thing the server sends back answers it.
\<close>

fun session :: "('c \<Rightarrow> 's \<Rightarrow> 's \<times> 'r list) \<Rightarrow> 'c list \<Rightarrow> 's \<Rightarrow> 's \<times> 'r list list" where
  "session handle [] s = (s, [])"
| "session handle (c # cs) s =
     (case handle c s of (s1, rs) \<Rightarrow> case session handle cs s1 of (s2, rss) \<Rightarrow> (s2, rs # rss))"

lemma session_Cons:
  "session handle (c # cs) s = (fst (session handle cs (fst (handle c s))),
     snd (handle c s) # snd (session handle cs (fst (handle c s))))"
  by (simp split: prod.splits)

declare session.simps(2) [simp del]

locale command_channel =
  fixes handle :: "'c \<Rightarrow> 's \<Rightarrow> 's \<times> 'r list"
    and accepts :: "'s \<Rightarrow> 'c \<Rightarrow> bool"
    and answers :: "'c \<Rightarrow> 'r \<Rightarrow> bool"
    and view :: "'s \<Rightarrow> 'a"
    and command_effect :: "'c \<Rightarrow> 'a \<Rightarrow> 'a"
    and ok :: "'s \<Rightarrow> bool"
    and valid :: "'c \<Rightarrow> bool"
  assumes handle_ok: "ok s \<Longrightarrow> ok (fst (handle c s))"
    and handle_view: "ok s \<Longrightarrow> valid c \<Longrightarrow>
          view (fst (handle c s)) = (if accepts s c then command_effect c (view s) else view s)"
    and handle_policy: "accepts (fst (handle c s)) d = accepts s d"
    and handle_answers: "ok s \<Longrightarrow> valid c \<Longrightarrow> snd (handle c s) \<noteq> [] \<and> answers c (hd (snd (handle c s)))"
begin

lemma session_ok: "ok s \<Longrightarrow> ok (fst (session handle cs s))"
  by (induction cs arbitrary: s) (simp_all add: session_Cons handle_ok)

lemma session_view:
  "ok s \<Longrightarrow> list_all valid cs \<Longrightarrow>
   view (fst (session handle cs s)) = fold (\<lambda>c a. if accepts s c then command_effect c a else a) cs (view s)"
  by (induction cs arbitrary: s) (simp_all add: session_Cons handle_ok handle_view handle_policy)

lemma session_answers:
  "ok s \<Longrightarrow> list_all valid cs \<Longrightarrow>
   list_all2 (\<lambda>c rs. rs \<noteq> [] \<and> answers c (hd rs)) cs (snd (session handle cs s))"
  by (induction cs arbitrary: s) (simp_all add: session_Cons handle_ok handle_answers)

end

section \<open>The fixture as a command channel\<close>

fun is_object :: "jsval \<Rightarrow> bool" where
  "is_object (JObj _) = True"
| "is_object _ = False"

fun fields :: "jsval \<Rightarrow> (jsstring \<times> jsval) list" where
  "fields (JObj fs) = fs"
| "fields _ = []"

definition state_ok :: "fixture \<Rightarrow> bool" where
  "state_ok f \<longleftrightarrow> is_object (f_state f) \<and> is_object (js_get (f_state f) ''ui_config'')
     \<and> is_object (ui_settings (f_state f))"

definition settings_view :: "fixture \<Rightarrow> jsstring \<rightharpoonup> jsval" where
  "settings_view f = map_of (fields (ui_settings (f_state f)))"

definition outside_settings :: "fixture \<Rightarrow> string \<Rightarrow> jsval" where
  "outside_settings f p = (if p = ''ui_config'' then JUndefined else js_get (f_state f) p)"

definition settings_effect :: "jsval \<Rightarrow> (jsstring \<rightharpoonup> jsval) \<Rightarrow> jsstring \<rightharpoonup> jsval" where
  "settings_effect command m =
     (if js_get command ''action'' = jlit ''set_settings'' then m ++ map_of (rev (settings_patch command)) else m)"

definition fixture_answers :: "socket \<Rightarrow> jsval \<Rightarrow> ws_effect \<Rightarrow> bool" where
  "fixture_answers s command e =
     (case e of
        Send t m \<Rightarrow> t = s \<and> js_get m ''action'' = js_get command ''action''
          \<and> js_get m ''request_id'' = js_get command ''request_id''
      | Close _ _ \<Rightarrow> False)"

definition handle_command :: "socket \<Rightarrow> jsval \<Rightarrow> fixture \<Rightarrow> fixture \<times> ws_effect list" where
  "handle_command s command f = (case on_command s command f of (f', es, _) \<Rightarrow> (f', es))"

lemma is_object_iff: "is_object v \<longleftrightarrow> (\<exists>fs. v = JObj fs)"
  by (cases v) auto

lemma js_get_put: "is_object v \<Longrightarrow> js_get (js_put p x v) q = (if q = p then x else js_get v q)"
  by (auto simp: is_object_iff update_conv js_eq_iff)

lemma is_object_put [simp]: "is_object (js_put p x v) = is_object v"
  by (cases v) auto

lemma is_object_assign [simp]: "is_object (js_assign v patch) = is_object v"
  by (cases v) auto

lemma fields_assign: "is_object v \<Longrightarrow> map_of (fields (js_assign v patch)) = map_of (fields v) ++ map_of (rev patch)"
  by (auto simp: is_object_iff map_of_fold_update)

lemma ui_settings_put:
  "is_object st \<Longrightarrow> is_object (js_get st ''ui_config'') \<Longrightarrow> ui_settings (put_ui_settings x st) = x"
  by (simp add: ui_settings_def put_ui_settings_def js_get_put)

lemma defined_fields_get:
  "js_get (defined_fields ((k, v) # fs)) p = (if k = js p \<and> v \<noteq> JUndefined then v else js_get (defined_fields fs) p)"
  by (auto simp: defined_fields_def)


lemma on_command_fixture:
  "fst (on_command s c f) = f\<lparr>f_commands := f_commands f @ [c],
     f_state := (if c \<noteq> JNull \<and> \<not> f_reject f \<and> js_get c ''action'' = jlit ''set_settings''
       then put_ui_settings (js_assign (ui_settings (f_state f)) (settings_patch c)) (f_state f) else f_state f)\<rparr>"
  by (simp add: on_command_def Let_def)

lemma handle_command_fixture: "fst (handle_command s c f) = fst (on_command s c f)"
  by (simp add: handle_command_def split: prod.splits)

definition fixture_view :: "fixture \<Rightarrow> (string \<Rightarrow> jsval) \<times> (jsstring \<rightharpoonup> jsval)" where
  "fixture_view f = (outside_settings f, settings_view f)"

lemma state_ok_command: "state_ok f \<Longrightarrow> state_ok (fst (on_command s c f))"
  by (simp add: state_ok_def on_command_fixture ui_settings_put)
    (simp add: put_ui_settings_def js_get_put)

lemma fixture_view_command:
  "state_ok f \<Longrightarrow> c \<noteq> JNull \<Longrightarrow> fixture_view (fst (on_command s c f))
     = (if \<not> f_reject f then apsnd (settings_effect c) (fixture_view f) else fixture_view f)"
  by (auto simp: fixture_view_def settings_view_def outside_settings_def settings_effect_def on_command_fixture
      state_ok_def ui_settings_put fields_assign fun_eq_iff)
    (simp add: put_ui_settings_def js_get_put)

lemma command_reply_get:
  "js_get (command_reply ty c rest) ''action'' = js_get c ''action''"
  "js_get (command_reply ty c rest) ''request_id'' = js_get c ''request_id''"
  if "list_all (\<lambda>(k, v). k \<noteq> js ''action'' \<and> k \<noteq> js ''request_id'') rest"
proof -
  have "js_get (defined_fields rest) p = JUndefined" if "p = ''action'' \<or> p = ''request_id''" for p
    using that \<open>list_all _ rest\<close>
    by (induction rest) (auto simp: defined_fields_get, auto simp: defined_fields_def)
  then show "js_get (command_reply ty c rest) ''action'' = js_get c ''action''"
    "js_get (command_reply ty c rest) ''request_id'' = js_get c ''request_id''"
    by (simp_all add: command_reply_def defined_fields_get js_eq_iff)
qed

lemma on_command_answers:
  "c \<noteq> JNull \<Longrightarrow> snd (handle_command s c f) \<noteq> [] \<and> fixture_answers s c (hd (snd (handle_command s c f)))"
  by (auto simp: handle_command_def on_command_def Let_def fixture_answers_def command_reply_get js_eq_iff)

interpretation fixture_channel: command_channel "handle_command s" "\<lambda>f c. \<not> f_reject f" "fixture_answers s"
  fixture_view "\<lambda>c. apsnd (settings_effect c)" state_ok "\<lambda>c. c \<noteq> JNull" for s
proof (unfold_locales, goal_cases)
  case (1 f c)
  then show ?case by (simp add: handle_command_fixture state_ok_command)
next
  case (2 f c)
  then show ?case by (simp add: handle_command_fixture fixture_view_command)
next
  case (3 c f d)
  then show ?case by (simp add: handle_command_fixture on_command_fixture)
next
  case (4 f c)
  then show ?case by (simp add: on_command_answers)
qed

text \<open>Over a session of commands the fixture settings are the fold of the accepted patches,
  nothing else of the state changes, and every command is answered first, with its own action and
  request id.\<close>

theorem session_applies_accepted_settings:
  assumes "state_ok f" and "list_all (\<lambda>c. c \<noteq> JNull) cs"
  shows "settings_view (fst (session (handle_command s) cs f))
           = (if f_reject f then settings_view f else fold settings_effect cs (settings_view f))
       \<and> outside_settings (fst (session (handle_command s) cs f)) = outside_settings f
       \<and> list_all2 (\<lambda>c es. es \<noteq> [] \<and> fixture_answers s c (hd es)) cs (snd (session (handle_command s) cs f))"
proof -
  have folded: "fold (\<lambda>c a. if \<not> f_reject f then apsnd (settings_effect c) a else a) cs a
      = (fst a, if f_reject f then snd a else fold settings_effect cs (snd a))" for a
    by (induction cs arbitrary: a) auto
  have "fixture_view (fst (session (handle_command s) cs f))
      = (outside_settings f, if f_reject f then settings_view f else fold settings_effect cs (settings_view f))"
    unfolding fixture_channel.session_view [OF assms, of s] folded by (simp add: fixture_view_def)
  with fixture_channel.session_answers [OF assms, of s] show ?thesis
    by (simp add: fixture_view_def)
qed

definition demo_command :: jsval where
  "demo_command = JObj [(js ''action'', jlit ''set_settings''), (js ''request_id'', jint 7), (js ''mqtt_port'', jint 1884)]"

lemma initial_state_ok: "state_ok (initial_fixture now iso_now)"
  by (simp add: state_ok_def initial_fixture_def initial_state_def ui_settings_def js_eq_iff)

theorem session_applies_accepted_settings_witness:
  "settings_view (fst (session (handle_command 1) [demo_command] (initial_fixture 0 []))) (js ''mqtt_port'')
     = Some (jint 1884)"
  using session_applies_accepted_settings [where f = "initial_fixture 0 []" and cs = "[demo_command]" and s = 1,
      OF initial_state_ok]
  by (simp add: settings_effect_def demo_command_def js_eq_iff settings_patch_def initial_fixture_def)

end
