(* ===== verification/FixtureNetwork.thy ===== *)
theory FixtureNetwork
  imports FixtureServer
begin

text \<open>
  The fixture's sockets over a whole browser session: pages open, use and close WebSockets, the
  scenarios pause, resume, reject, edit the state, broadcast and disconnect. A step relation over
  the handlers of \<open>FixtureServer\<close>, with the sockets that are open between browser and fixture.
\<close>

datatype net_event =
    Connect socket ws_url
  | Command socket jsval
  | ClientClose close_event
  | Pause bool
  | Reject bool
  | Edit jsval
  | Broadcast
  | DropAll

record world =
  w_fixture :: fixture
  w_blocked :: "jsstring list"
  w_live :: "socket set"
  w_seen :: "socket set"

text \<open>The handler an event runs: the new fixture, the requests it blocked and what it sends.\<close>

definition on_event :: "jsstring \<Rightarrow> net_event \<Rightarrow> fixture \<Rightarrow> jsstring list \<Rightarrow> fixture \<times> jsstring list \<times> ws_effect list" where
  "on_event host e f blocked =
     (case e of
        Connect s url \<Rightarrow> on_web_socket host s url f blocked
      | Command s c \<Rightarrow> (case on_command s c f of (f', es, _) \<Rightarrow> (f', blocked, es))
      | ClientClose ce \<Rightarrow> (case on_client_close ce f of (f', es) \<Rightarrow> (f', blocked, es))
      | Pause b \<Rightarrow> (f\<lparr>f_paused := b\<rparr>, blocked, [])
      | Reject b \<Rightarrow> (f\<lparr>f_reject := b\<rparr>, blocked, [])
      | Edit st \<Rightarrow> (f\<lparr>f_state := st\<rparr>, blocked, [])
      | Broadcast \<Rightarrow> (f, blocked, broadcast f)
      | DropAll \<Rightarrow> (case drop_all f of (f', es) \<Rightarrow> (f', blocked, es)))"

text \<open>The sockets an event opens or closes on the browser's side, and those an effect closes.\<close>

definition client_opens :: "net_event \<Rightarrow> socket set" where
  "client_opens e = (case e of Connect s _ \<Rightarrow> {s} | _ \<Rightarrow> {})"

definition client_closes :: "net_event \<Rightarrow> socket set" where
  "client_closes e = (case e of ClientClose ce \<Rightarrow> {ce_socket ce} | _ \<Rightarrow> {})"

definition server_closes :: "ws_effect list \<Rightarrow> socket set" where
  "server_closes es = {s. \<exists>opts. Close s opts \<in> set es}"

text \<open>A browser opens each socket once, sends on open ones, and may repeat a close notification.\<close>

definition net_enabled :: "net_event \<Rightarrow> world \<Rightarrow> bool" where
  "net_enabled e w =
     (case e of
        Connect s _ \<Rightarrow> s \<notin> w_seen w
      | Command s _ \<Rightarrow> s \<in> w_live w
      | ClientClose ce \<Rightarrow> ce_socket ce \<in> w_seen w
      | _ \<Rightarrow> True)"

inductive net_step :: "jsstring \<Rightarrow> world \<Rightarrow> net_event \<Rightarrow> ws_effect list \<Rightarrow> world \<Rightarrow> bool" for host where
  net_step: "net_enabled e w \<Longrightarrow> on_event host e (w_fixture w) (w_blocked w) = (f, blocked, es) \<Longrightarrow>
     net_step host w e es
       \<lparr>w_fixture = f, w_blocked = blocked,
        w_live = w_live w \<union> client_opens e - client_closes e - server_closes es,
        w_seen = w_seen w \<union> client_opens e\<rparr>"

inductive_cases net_stepE: "net_step host w e es w'"

inductive net_run :: "jsstring \<Rightarrow> world \<Rightarrow> (net_event \<times> ws_effect list) list \<Rightarrow> world \<Rightarrow> bool" for host w0 where
  start: "net_run host w0 [] w0"
| more: "net_run host w0 tr w \<Longrightarrow> net_step host w e es w' \<Longrightarrow> net_run host w0 (tr @ [(e, es)]) w'"

definition quiet_world :: "fixture \<Rightarrow> world \<Rightarrow> bool" where
  "quiet_world f w \<longleftrightarrow> w_fixture w = f \<and> f_sockets f = [] \<and> w_live w = {} \<and> w_seen w = {}"

definition world_ok :: "world \<Rightarrow> bool" where
  "world_ok w \<longleftrightarrow> distinct (f_sockets (w_fixture w)) \<and> set (f_sockets (w_fixture w)) = w_live w
     \<and> w_live w \<subseteq> w_seen w"

lemma server_closes_simps [simp]:
  "server_closes [] = {}"
  "server_closes (Send s m # es) = server_closes es"
  "server_closes (Close s opts # es) = insert s (server_closes es)"
  by (auto simp: server_closes_def)

lemma server_closes_broadcast [simp]: "server_closes (broadcast f) = {}"
  by (auto simp: server_closes_def broadcast_def)

lemma server_closes_drop: "server_closes (map (\<lambda>s. Close s None) ss) = set ss"
  by (auto simp: server_closes_def)

lemma on_command_sockets:
  "f_sockets (fst (on_command s c f)) = f_sockets f" "server_closes (fst (snd (on_command s c f))) = {}"
  by (simp_all add: on_command_def Let_def)

lemma on_event_ok:
  assumes "world_ok w" and "net_enabled e w" and "on_event host e (w_fixture w) (w_blocked w) = (f, blocked, es)"
  shows "distinct (f_sockets f)"
    and "set (f_sockets f) = w_live w \<union> client_opens e - client_closes e - server_closes es"
proof -
  have "distinct (f_sockets f)
      \<and> set (f_sockets f) = w_live w \<union> client_opens e - client_closes e - server_closes es"
  proof (cases e)
    case (Connect s url)
    with assms show ?thesis
      by (auto simp: on_event_def on_web_socket_def world_ok_def net_enabled_def client_opens_def client_closes_def
          Let_def trackMockSocket_distinct split: if_splits)
  next
    case (Command s c)
    with assms on_command_sockets [of s c "w_fixture w"] show ?thesis
      by (auto simp: on_event_def world_ok_def client_opens_def client_closes_def split: prod.splits)
  next
    case (ClientClose ce)
    with assms show ?thesis
      by (auto simp: on_event_def on_client_close_def on_socket_close_def world_ok_def client_opens_def
          client_closes_def split: if_splits)
  next
    case DropAll
    with assms show ?thesis
      by (auto simp: on_event_def drop_all_def world_ok_def client_opens_def client_closes_def server_closes_drop)
  qed (use assms in \<open>auto simp: on_event_def world_ok_def client_opens_def client_closes_def\<close>)
  then show "distinct (f_sockets f)"
    and "set (f_sockets f) = w_live w \<union> client_opens e - client_closes e - server_closes es" by auto
qed

lemma net_stepD:
  "net_step host w e es w' \<Longrightarrow> \<exists>f blocked. net_enabled e w
     \<and> on_event host e (w_fixture w) (w_blocked w) = (f, blocked, es)
     \<and> w' = \<lparr>w_fixture = f, w_blocked = blocked,
          w_live = w_live w \<union> client_opens e - client_closes e - server_closes es,
          w_seen = w_seen w \<union> client_opens e\<rparr>"
  by (erule net_stepE) blast

lemma net_step_ok:
  assumes "net_step host w e es w'" and "world_ok w"
  shows "world_ok w'"
proof -
  obtain f blocked where "net_enabled e w" "on_event host e (w_fixture w) (w_blocked w) = (f, blocked, es)"
    and w': "w' = \<lparr>w_fixture = f, w_blocked = blocked,
          w_live = w_live w \<union> client_opens e - client_closes e - server_closes es,
          w_seen = w_seen w \<union> client_opens e\<rparr>"
    using net_stepD [OF assms(1)] by blast
  note on_event_ok [OF assms(2) this(1,2)]
  with assms(2) show ?thesis by (auto simp: w' world_ok_def)
qed

lemma net_run_ok: "net_run host w0 tr w \<Longrightarrow> world_ok w0 \<Longrightarrow> world_ok w"
  by (induction rule: net_run.induct) (auto intro: net_step_ok)

text \<open>What a handler sends goes to a socket that is open afterwards.\<close>

lemma on_event_sends:
  assumes "world_ok w" and "net_enabled e w" and "on_event host e (w_fixture w) (w_blocked w) = (f, blocked, es)"
    and "Send s m \<in> set es"
  shows "s \<in> set (f_sockets f)"
proof (cases e)
  case (Connect s' url)
  with assms show ?thesis
    by (auto simp: on_event_def on_web_socket_def Let_def split: if_splits)
next
  case (Command s' c)
  with assms show ?thesis
    by (auto simp: on_event_def on_command_def broadcast_def net_enabled_def world_ok_def Let_def split: if_splits)
next
  case (ClientClose ce)
  with assms show ?thesis by (auto simp: on_event_def on_client_close_def split: prod.splits)
qed (use assms in \<open>auto simp: on_event_def broadcast_def drop_all_def\<close>)

lemma net_step_sends:
  assumes "net_step host w e es w'" and "world_ok w" and "Send s m \<in> set es"
  shows "s \<in> w_live w'"
proof -
  obtain f blocked where step: "net_enabled e w" "on_event host e (w_fixture w) (w_blocked w) = (f, blocked, es)"
    and w': "w_live w' = w_live w \<union> client_opens e - client_closes e - server_closes es"
    using net_stepD [OF assms(1)] by auto
  show ?thesis
    using on_event_sends [OF assms(2) step assms(3)] on_event_ok [OF assms(2) step] by (simp add: w')
qed

definition accepted_connection :: "net_event \<times> ws_effect list \<Rightarrow> bool" where
  "accepted_connection p = (case p of (Connect s _, [Send _ _]) \<Rightarrow> True | _ \<Rightarrow> False)"

lemma on_event_connections:
  "on_event host e f0 b0 = (f, blocked, es) \<Longrightarrow>
   f_connections f = f_connections f0 + (if accepted_connection (e, es) then 1 else 0)"
  by (cases e) (auto simp: on_event_def on_web_socket_def on_command_def on_client_close_def drop_all_def
      accepted_connection_def Let_def split: if_splits prod.splits)

lemma net_run_connections:
  "net_run host w0 tr w \<Longrightarrow>
   f_connections (w_fixture w) = f_connections (w_fixture w0) + length (filter accepted_connection tr)"
  by (induction rule: net_run.induct) (auto elim!: net_stepE dest!: on_event_connections)

lemma quiet_world_ok: "quiet_world f w \<Longrightarrow> world_ok w"
  by (auto simp: quiet_world_def world_ok_def)

lemma count_broadcast:
  "distinct (f_sockets f) \<Longrightarrow>
   count_list (broadcast f) (Send s (f_state f)) = (if s \<in> set (f_sockets f) then 1 else 0)"
proof -
  have "count_list (map (\<lambda>s. Send s m) xs) (Send s m) = (if s \<in> set xs then 1 else 0)" if "distinct xs" for xs m
    using that by (induction xs) auto
  then show "distinct (f_sockets f) \<Longrightarrow>
    count_list (broadcast f) (Send s (f_state f)) = (if s \<in> set (f_sockets f) then 1 else 0)"
    by (simp add: broadcast_def)
qed

text \<open>Over every sequence of socket openings, commands, closes, pauses and disconnects, the
  fixture tracks exactly the open sockets, a broadcast reaches each once, every message goes to an
  open socket and connections counts the accepted ones.\<close>

theorem broadcasts_reach_open_sockets:
  assumes "quiet_world f0 w0" and "net_run host w0 tr w"
  shows "set (f_sockets (w_fixture w)) = w_live w
       \<and> (\<forall>s. count_list (broadcast (w_fixture w)) (Send s (f_state (w_fixture w))) = (if s \<in> w_live w then 1 else 0))
       \<and> (\<forall>e es w' s m. net_step host w e es w' \<and> Send s m \<in> set es \<longrightarrow> s \<in> w_live w')
       \<and> f_connections (w_fixture w) = f_connections f0 + length (filter accepted_connection tr)"
proof -
  have ok: "world_ok w" using net_run_ok [OF assms(2)] quiet_world_ok [OF assms(1)] by blast
  moreover have "\<forall>e es w' s m. net_step host w e es w' \<and> Send s m \<in> set es \<longrightarrow> s \<in> w_live w'"
    using net_step_sends [OF _ ok] by blast
  ultimately show ?thesis
    using net_run_connections [OF assms(2)] assms(1)
    by (simp add: world_ok_def count_broadcast quiet_world_def)
qed

definition demo_world :: world where
  "demo_world = \<lparr>w_fixture = initial_fixture 0 [], w_blocked = [], w_live = {}, w_seen = {}\<rparr>"

definition demo_ws_url :: ws_url where
  "demo_ws_url = \<lparr>u_origin = js ''ws://127.0.0.1:8080'', u_host = js ''127.0.0.1:8080'', u_pathname = js ''/ws''\<rparr>"

lemma demo_connect:
  "\<exists>es w. net_run (js ''127.0.0.1:8080'') demo_world [(Connect 1 demo_ws_url, es)] w
     \<and> accepted_connection (Connect 1 demo_ws_url, es) \<and> w_live w = {1}"
proof -
  have "net_step (js ''127.0.0.1:8080'') demo_world (Connect 1 demo_ws_url) [Send 1 (initial_state 0 [])]
      \<lparr>w_fixture = (initial_fixture 0 [])\<lparr>f_connections := 1, f_sockets := [1]\<rparr>, w_blocked = [],
       w_live = w_live demo_world \<union> client_opens (Connect 1 demo_ws_url) - client_closes (Connect 1 demo_ws_url)
         - server_closes [Send 1 (initial_state 0 [])],
       w_seen = w_seen demo_world \<union> client_opens (Connect 1 demo_ws_url)\<rparr>"
    by (rule net_step)
      (simp_all add: net_enabled_def demo_world_def on_event_def on_web_socket_def demo_ws_url_def initial_fixture_def
        trackMockSocket_def)
  from net_run.more [OF net_run.start this] show ?thesis
    by (intro exI conjI) (assumption | simp add: accepted_connection_def client_opens_def client_closes_def demo_world_def)+
qed

theorem broadcasts_reach_open_sockets_witness:
  "\<exists>tr w. net_run (js ''127.0.0.1:8080'') demo_world tr w \<and> f_connections (w_fixture w) = 1
     \<and> set (f_sockets (w_fixture w)) = {1}"
proof -
  obtain es w where run: "net_run (js ''127.0.0.1:8080'') demo_world [(Connect 1 demo_ws_url, es)] w"
    and es: "accepted_connection (Connect 1 demo_ws_url, es)" "w_live w = {1}"
    using demo_connect by blast
  have "quiet_world (initial_fixture 0 []) demo_world"
    by (simp add: quiet_world_def demo_world_def initial_fixture_def)
  from broadcasts_reach_open_sockets [OF this run] es have
    "f_connections (w_fixture w) = 1" "set (f_sockets (w_fixture w)) = {1}"
    by (simp_all add: initial_fixture_def)
  with run show ?thesis by blast
qed

end
