(* ===== verification/Readiness.thy ===== *)
theory Readiness
  imports Prelude
begin

text \<open>
  \<open>scripts/browser-readiness.cjs\<close>: the dashboard is hydrated when the fixture's state of charge is
  on the page and, in public mode, the read-only banner, else the connected transport badge. A wait
  of the browser driver is a time of settling in milliseconds and an outcome.
\<close>

type_synonym 'a timed = "nat \<times> 'a promise"

datatype locator = ExactText jsstring | FirstExactText jsstring | Css string

definition rejections :: "'a timed list \<Rightarrow> (nat \<times> js_error) list" where
  "rejections ps = List.map_filter (\<lambda>(t, r). case r of Inl e \<Rightarrow> Some (t, e) | Inr _ \<Rightarrow> None) ps"

definition values_of :: "'a timed list \<Rightarrow> 'a list" where
  "values_of ps = List.map_filter (\<lambda>(t, r). case r of Inl e \<Rightarrow> None | Inr a \<Rightarrow> Some a) ps"

text \<open>\<open>Promise.all\<close>: the first rejection in time, or all values once the last has come.\<close>

definition promise_all :: "'a timed list \<Rightarrow> 'a list timed" where
  "promise_all ps =
     (case sort_key fst (rejections ps) of
        (t, e) # _ \<Rightarrow> (t, Inl e)
      | [] \<Rightarrow> (foldr max (map fst ps) 0, Inr (values_of ps)))"

definition is_finite :: "jsnum \<Rightarrow> bool" where
  "is_finite n = (case n of Num _ \<Rightarrow> True | _ \<Rightarrow> False)"

definition hydration_waits :: "(jsnum \<Rightarrow> jsstring) \<Rightarrow> jsnum \<Rightarrow> bool \<Rightarrow> locator list" where
  "hydration_waits show_num expectedSoc publicMode =
     [FirstExactText (show_num expectedSoc @ js ''%''),
      if publicMode then ExactText (js ''PUBLIC '' @ [0xB7] @ js '' READ-ONLY'')
      else Css ''[data-testid=\"transport-status\"][data-connected=\"true\"]'']"

definition waitForHydratedDashboard ::
  "(jsnum \<Rightarrow> jsstring) \<Rightarrow> (locator \<Rightarrow> unit timed) \<Rightarrow> jsnum \<Rightarrow> bool \<Rightarrow> unit timed" where
  "waitForHydratedDashboard show_num wait_visible expectedSoc publicMode =
     (if \<not> is_finite expectedSoc then
        (0, Inl (AssertionError ''Readiness requires the current fixture state of charge''))
      else case promise_all (map wait_visible (hydration_waits show_num expectedSoc publicMode)) of
             (t, r) \<Rightarrow> (t, and_then r (\<lambda>_. Inr ())))"

lemma rejections_Nil: "rejections ps = [] \<longleftrightarrow> list_all (\<lambda>p. fulfilled (snd p)) ps"
  by (induction ps) (auto simp: rejections_def map_filter_simps split: sum.splits)

lemma fst_rejections: "set (map fst (rejections ps)) \<subseteq> set (map fst ps)"
  by (auto simp: rejections_def map_filter_def split: sum.splits intro: rev_image_eqI)

lemma fulfilled_promise_all: "fulfilled (snd (promise_all ps)) \<longleftrightarrow> list_all (\<lambda>p. fulfilled (snd p)) ps"
proof (cases "rejections ps")
  case Nil
  then show ?thesis using rejections_Nil [of ps] by (simp add: promise_all_def)
next
  case (Cons x xs)
  then have "sort_key fst (rejections ps) \<noteq> []"
    by (metis list.simps(3) length_0_conv length_sort)
  with Cons rejections_Nil [of ps] show ?thesis
    by (auto simp: promise_all_def split: list.splits)
qed

lemma le_foldr_max: "x \<in> set xs \<Longrightarrow> (x::nat) \<le> foldr max xs 0"
  by (induction xs) auto

lemma promise_all_time: "fst (promise_all ps) \<le> foldr max (map fst ps) 0"
proof (cases "sort_key fst (rejections ps)")
  case (Cons x xs)
  then have "x \<in> set (rejections ps)" by (metis list.set_intros(1) set_sort)
  then have "fst x \<in> set (map fst ps)" using fst_rejections [of ps] by auto
  with Cons show ?thesis using le_foldr_max [of "fst x" "map fst ps"]
    by (auto simp: promise_all_def split: prod.splits)
qed (simp add: promise_all_def)

text \<open>The dashboard counts as hydrated exactly when the state of charge is finite and both
  locators become visible, no later than the slower of them.\<close>

theorem hydrated_exactly_when:
  "(fulfilled (snd (waitForHydratedDashboard show_num wait_visible soc public)) \<longleftrightarrow>
      is_finite soc \<and> list_all (\<lambda>l. fulfilled (snd (wait_visible l))) (hydration_waits show_num soc public))
   \<and> fst (waitForHydratedDashboard show_num wait_visible soc public)
       \<le> foldr max (map (\<lambda>l. fst (wait_visible l)) (hydration_waits show_num soc public)) 0"
proof -
  let ?ps = "map wait_visible (hydration_waits show_num soc public)"
  obtain t r where all: "promise_all ?ps = (t, r)" by force
  have "fulfilled (and_then r (\<lambda>_. Inr ())) \<longleftrightarrow> fulfilled r" by (cases r) auto
  then show ?thesis
    using fulfilled_promise_all [of ?ps] promise_all_time [of ?ps] all
    by (simp add: waitForHydratedDashboard_def list_all_iff comp_def)
qed

end
