(* ===== verification/FrontendRelease.thy ===== *)
theory FrontendRelease
  imports FrontendInventory
begin

text \<open>
  The provenance checks of \<open>scripts/browser-acceptance.cjs\<close> around the inventory (lines 17-28 and
  52-60): the configuration names the manifest's format, distribution and manifest lie inside the
  checkout, the manifest names the frontend repository, and its version, commit and archive digest
  match their regular expressions. \<open>application\<close> and \<open>manifest\<close> are the parsed JSON documents.
\<close>

section \<open>The regular expressions\<close>

text \<open>
  \<open>/^\d+\.\d+\.\d+(?:-[0-9A-Za-z.-]+)?$/\<close>: no digit is a dot or a dash, so reading each
  component as far as it goes leaves nothing to backtrack into.
\<close>

definition dash :: code_unit where
  "dash = 0x2D"

definition is_letter :: "code_unit \<Rightarrow> bool" where
  "is_letter u \<longleftrightarrow> 0x41 \<le> u \<and> u \<le> 0x5A \<or> 0x61 \<le> u \<and> u \<le> 0x7A"

definition is_prerelease_char :: "code_unit \<Rightarrow> bool" where
  "is_prerelease_char u \<longleftrightarrow> is_digit u \<or> is_letter u \<or> u = dot \<or> u = dash"

definition read_digits :: "jsstring \<Rightarrow> jsstring option" where
  "read_digits s = (if takeWhile is_digit s = [] then None else Some (dropWhile is_digit s))"

definition read_dot :: "jsstring \<Rightarrow> jsstring option" where
  "read_dot s = (case s of [] \<Rightarrow> None | u # r \<Rightarrow> if u = dot then Some r else None)"

definition read_suffix :: "jsstring \<Rightarrow> bool" where
  "read_suffix s = (case s of [] \<Rightarrow> True | u # r \<Rightarrow> u = dash \<and> r \<noteq> [] \<and> list_all is_prerelease_char r)"

definition read_number :: "jsstring \<Rightarrow> jsstring option" where
  "read_number s = Option.bind (read_digits s) read_dot"

definition version_matches :: "jsstring \<Rightarrow> bool" where
  "version_matches s =
     (case Option.bind (Option.bind (read_number s) read_number) read_digits of
        None \<Rightarrow> False
      | Some r \<Rightarrow> read_suffix r)"

definition number_part :: "jsstring \<Rightarrow> bool" where
  "number_part s \<longleftrightarrow> s \<noteq> [] \<and> list_all is_digit s"

lemma not_digit [simp]: "\<not> is_digit dot" "\<not> is_digit dash"
  by (simp_all add: is_digit_def dot_def dash_def)

lemma read_digits_Some:
  "read_digits s = Some r \<longleftrightarrow> (\<exists>n. number_part n \<and> s = n @ r \<and> (r = [] \<or> \<not> is_digit (hd r)))"
proof
  assume "read_digits s = Some r"
  then have "takeWhile is_digit s \<noteq> []" "r = dropWhile is_digit s"
    by (auto simp: read_digits_def split: if_splits)
  then show "\<exists>n. number_part n \<and> s = n @ r \<and> (r = [] \<or> \<not> is_digit (hd r))"
    by (intro exI [of _ "takeWhile is_digit s"])
      (use hd_dropWhile [of is_digit s] in
        \<open>auto simp: number_part_def list_all_iff dropWhile_eq_Nil_conv dest: set_takeWhileD\<close>)
next
  assume "\<exists>n. number_part n \<and> s = n @ r \<and> (r = [] \<or> \<not> is_digit (hd r))"
  then obtain n where n: "number_part n" "s = n @ r" "r = [] \<or> \<not> is_digit (hd r)" by blast
  then have "takeWhile is_digit r = []" "dropWhile is_digit r = r" by (cases r; simp)+
  with n show "read_digits s = Some r"
    by (simp add: read_digits_def number_part_def list_all_iff takeWhile_append2 dropWhile_append2)
qed

lemma read_dot_Some: "read_dot s = Some r \<longleftrightarrow> s = dot # r"
  by (auto simp: read_dot_def split: list.splits)

lemma read_number_Some:
  "read_number s = Some r \<longleftrightarrow> (\<exists>n. number_part n \<and> s = n @ dot # r)"
  by (auto simp: read_number_def bind_eq_Some_conv read_digits_Some read_dot_Some)

lemma read_suffix_iff:
  "read_suffix s \<longleftrightarrow> s = [] \<or> (\<exists>r. s = dash # r \<and> r \<noteq> [] \<and> list_all is_prerelease_char r)"
  by (auto simp: read_suffix_def split: list.splits)

lemma read_patch:
  "read_digits s = Some r \<and> read_suffix r \<longleftrightarrow> (\<exists>n. number_part n \<and> s = n @ r) \<and> read_suffix r"
  by (auto simp: read_digits_Some read_suffix_iff)

text \<open>The version matcher accepts exactly the strings of the version pattern.\<close>

theorem version_matches_iff:
  "version_matches s \<longleftrightarrow>
   (\<exists>major minor patch suffix.
      number_part major \<and> number_part minor \<and> number_part patch
      \<and> s = major @ dot # minor @ dot # patch @ suffix
      \<and> (suffix = [] \<or> (\<exists>r. suffix = dash # r \<and> r \<noteq> [] \<and> list_all is_prerelease_char r)))"
proof -
  have "version_matches s \<longleftrightarrow>
      (\<exists>r1 r2 r3. read_number s = Some r1 \<and> read_number r1 = Some r2 \<and> read_digits r2 = Some r3 \<and> read_suffix r3)"
    by (cases "read_number s") (auto simp: version_matches_def bind_eq_Some_conv split: option.splits)
  also have "\<dots> \<longleftrightarrow> (\<exists>major minor patch r. s = major @ dot # minor @ dot # patch @ r
      \<and> number_part major \<and> number_part minor \<and> number_part patch \<and> read_suffix r)"
    unfolding read_number_Some read_patch by blast
  finally show ?thesis unfolding read_suffix_iff by blast
qed

section \<open>The provenance record\<close>

record frontend =
  sourceCommit :: jsval
  version :: jsval
  archiveSha256 :: jsval
  filesVerified :: nat

definition path_string :: "fspath \<Rightarrow> jsstring" where
  "path_string p = concat (map (\<lambda>n. slash # n) p)"

text \<open>\<open>a || b\<close>\<close>

definition js_or :: "jsval \<Rightarrow> jsval \<Rightarrow> jsval" where
  "js_or a b = (if truthy a then a else b)"

text \<open>
  The recorded files: an array of \<open>{path, sha256}\<close> for the Python backend, the properties of an
  object for the Go one. A document whose \<open>files\<close> is no array, or whose path is no string, is
  refused here; the code refuses it here or when it compares the inventories.
\<close>

fun file_entries :: "jsval list \<Rightarrow> (jsstring \<times> jsval) list promise" where
  "file_entries [] = Inr []"
| "file_entries (file # rest) =
     (case js_string (js_get file ''path'') of
        None \<Rightarrow> Inl TypeError
      | Some p \<Rightarrow> and_then (file_entries rest) (\<lambda>es. Inr ((p, js_get file ''sha256'') # es)))"

definition manifest_entries :: "jsval \<Rightarrow> jsval \<Rightarrow> (jsstring \<times> jsval) list promise" where
  "manifest_entries application manifest =
     (if js_get application ''manifestKind'' = jlit ''python'' then
        (case js_get manifest ''files'' of JArr files \<Rightarrow> file_entries files | _ \<Rightarrow> Inl TypeError)
      else (case js_get manifest ''sha256'' of JObj fs \<Rightarrow> Inr fs | _ \<Rightarrow> Inl TypeError))"

definition frontend_record :: "jsval \<Rightarrow> (jsstring \<times> jsval) list \<Rightarrow> frontend" where
  "frontend_record manifest expected =
     \<lparr>sourceCommit = js_or (js_get manifest ''source_commit'') (js_get manifest ''commit''),
      version = js_get manifest ''package_version'',
      archiveSha256 = js_get manifest ''archive_sha256'',
      filesVerified = length expected\<rparr>"

definition check_frontend :: "frontend \<Rightarrow> unit promise" where
  "check_frontend f =
     and_then (assert_match version_matches (version f)) (\<lambda>_.
     and_then (assert_match (hex_exactly 40) (sourceCommit f)) (\<lambda>_.
     assert_match (hex_exactly 64) (archiveSha256 f)))"

definition verify_frontend ::
  "(bytes \<Rightarrow> jsstring) \<Rightarrow> (jsstring \<Rightarrow> jsstring \<Rightarrow> int) \<Rightarrow> fspath \<Rightarrow> fspath \<Rightarrow> fspath
    \<Rightarrow> (jsstring \<times> fsnode) list \<Rightarrow> jsval \<Rightarrow> jsval \<Rightarrow> (inventory \<times> frontend) promise" where
  "verify_frontend sha256 locale_compare checkout dist_dir manifestFile distribution application manifest =
     (if js_get application ''manifestKind'' \<notin> {jlit ''python'', jlit ''go''} then
        Inl (AssertionError ''Unsupported frontend provenance format'')
      else if \<not> (starts_with (path_string dist_dir) (path_string checkout @ [slash])
              \<and> starts_with (path_string manifestFile) (path_string checkout @ [slash])) then
        Inl (AssertionError ''Frontend paths must remain inside checkout'')
      else if js_get manifest ''repository'' \<noteq> jlit ''https://github.com/victron-venus/inverter-dashboard-vue'' then
        Inl (AssertionError ''strictEqual'')
      else
        and_then (manifest_entries application manifest) (\<lambda>entries.
        and_then (verify_inventory sha256 locale_compare dist_dir manifestFile distribution entries) (\<lambda>seen.
          let frontend = frontend_record manifest (new_map entries)
          in and_then (check_frontend frontend) (\<lambda>_. Inr (seen, frontend)))))"

lemma assert_match_Inr: "assert_match regex v = Inr u \<longleftrightarrow> (\<exists>s. v = JStr s \<and> regex s)"
  by (auto simp: assert_match_def js_string_Some_iff split: option.splits if_splits)

lemma starts_with_slash: "starts_with s (t @ [slash]) \<Longrightarrow> \<exists>rest. s = t @ slash # rest"
  unfolding starts_with_def by (metis append.assoc append_Cons append_Nil append_take_drop_id)

text \<open>A release that passes has a well-formed version, commit and archive digest, lies inside the
  checkout, names the frontend repository, and counts as many files as it serves.\<close>

theorem verified_release_is_pinned:
  assumes "verify_frontend sha256 locale_compare checkout dist_dir manifestFile distribution application manifest
             = Inr (seen, f)"
  shows "(\<exists>v. version f = JStr v \<and> version_matches v)
       \<and> (\<exists>c. sourceCommit f = JStr c \<and> hex_exactly 40 c)
       \<and> (\<exists>a. archiveSha256 f = JStr a \<and> hex_exactly 64 a)
       \<and> 0 < filesVerified f \<and> filesVerified f = length (staticAssets seen)
       \<and> (\<exists>below. path_string dist_dir = path_string checkout @ slash # below)
       \<and> js_get manifest ''repository'' = jlit ''https://github.com/victron-venus/inverter-dashboard-vue''"
proof -
  from assms obtain entries where
    entries: "verify_inventory sha256 locale_compare dist_dir manifestFile distribution entries = Inr seen"
    and f: "f = frontend_record manifest (new_map entries)" "check_frontend f = Inr ()"
    and inside: "starts_with (path_string dist_dir) (path_string checkout @ [slash])"
    and repository: "js_get manifest ''repository'' = jlit ''https://github.com/victron-venus/inverter-dashboard-vue''"
    unfolding verify_frontend_def by (auto simp: and_then_Inr Let_def split: if_splits)
  from entries have "new_map entries = entries" "entries \<noteq> []"
    by (simp_all add: verify_inventory_Inr new_map_id)
  with f(1) served_count [OF entries] have "0 < filesVerified f" "filesVerified f = length (staticAssets seen)"
    by (simp_all add: frontend_record_def)
  with f(2) starts_with_slash [OF inside] repository show ?thesis
    by (simp add: check_frontend_def and_then_Inr assert_match_Inr)
qed

definition demo_application :: jsval where
  "demo_application = JObj [(js ''manifestKind'', jlit ''python'')]"

definition demo_manifest :: jsval where
  "demo_manifest = JObj
     [(js ''repository'', jlit ''https://github.com/victron-venus/inverter-dashboard-vue''),
      (js ''source_commit'', JStr (replicate 40 0x61)),
      (js ''package_version'', jlit ''3.2.0-rc.1''),
      (js ''archive_sha256'', JStr (replicate 64 0x62)),
      (js ''files'', JArr (map (\<lambda>(p, d). JObj [(js ''path'', JStr p), (js ''sha256'', d)]) demo_entries))]"

definition demo_frontend :: frontend where
  "demo_frontend = frontend_record demo_manifest demo_entries"

lemma demo_verify_frontend:
  "verify_frontend demo_sha256 code_unit_compare [js ''repo''] demo_dist demo_manifest_file demo_tree
     demo_application demo_manifest = Inr (demo_seen, demo_frontend)"
proof -
  have "manifest_entries demo_application demo_manifest = Inr demo_entries" by code_simp
  moreover have "new_map demo_entries = demo_entries" by code_simp
  moreover have "check_frontend demo_frontend = Inr ()" by code_simp
  moreover have "js_get demo_application ''manifestKind'' = jlit ''python''" by code_simp
  moreover have "js_get demo_manifest ''repository''
      = jlit ''https://github.com/victron-venus/inverter-dashboard-vue''" by code_simp
  moreover have "starts_with (path_string demo_dist) (path_string [js ''repo''] @ [slash])"
    "starts_with (path_string demo_manifest_file) (path_string [js ''repo''] @ [slash])" by code_simp+
  ultimately show ?thesis
    unfolding verify_frontend_def by (simp add: demo_verified demo_frontend_def)
qed

theorem verified_release_is_pinned_witness:
  "filesVerified demo_frontend = length (staticAssets demo_seen) \<and> 0 < filesVerified demo_frontend"
  using verified_release_is_pinned [OF demo_verify_frontend] by blast

end
