(* ===== verification/AcceptanceRun.thy ===== *)
theory AcceptanceRun
  imports FixtureServer FrontendRelease
begin

text \<open>
  How \<open>scripts/browser-acceptance.cjs\<close> runs: the environment it needs (lines 62-72), polling
  (\<open>eventually\<close>, 122-132), the journal of scenarios (134-143), and \<open>main\<close> with its evidence, its
  error path and its clean-up (149-329). What the browser driver, the file system and the bodies of
  the scenarios do is an argument; the last scenario and everything around them is the code's.
\<close>

section \<open>Polling\<close>

text \<open>
  \<open>read k\<close> is what the \<open>k\<close>th read gives, \<open>now k\<close> what \<open>Date.now()\<close> says after it. A poll that
  never stops is \<open>None\<close>.
\<close>

partial_function (option) poll ::
  "(nat \<Rightarrow> 'v promise) \<Rightarrow> ('v \<Rightarrow> bool promise) \<Rightarrow> string \<Rightarrow> (nat \<Rightarrow> int) \<Rightarrow> int \<Rightarrow> nat \<Rightarrow> 'v promise option" where
  "poll read check message now deadline k =
     (case read k of
        Inl e \<Rightarrow> Some (Inl e)
      | Inr v \<Rightarrow>
          (case check v of
             Inl e \<Rightarrow> Some (Inl e)
           | Inr found \<Rightarrow>
               if found then Some (Inr v)
               else if now k \<ge> deadline then Some (Inl (AssertionError message))
               else poll read check message now deadline (Suc k)))"

definition poll_until ::
  "(nat \<Rightarrow> 'v promise) \<Rightarrow> ('v \<Rightarrow> bool promise) \<Rightarrow> string \<Rightarrow> int \<Rightarrow> (nat \<Rightarrow> int) \<Rightarrow> 'v promise option" where
  "poll_until read check message start now = poll read check message now (start + 10000) 0"

text \<open>Whether the \<open>k\<close>th read ends the polling, and with what.\<close>

definition poll_result ::
  "(nat \<Rightarrow> 'v promise) \<Rightarrow> ('v \<Rightarrow> bool promise) \<Rightarrow> string \<Rightarrow> (nat \<Rightarrow> int) \<Rightarrow> int \<Rightarrow> nat \<Rightarrow> 'v promise option" where
  "poll_result read check message now deadline k =
     (case read k of
        Inl e \<Rightarrow> Some (Inl e)
      | Inr v \<Rightarrow>
          (case check v of
             Inl e \<Rightarrow> Some (Inl e)
           | Inr True \<Rightarrow> Some (Inr v)
           | Inr False \<Rightarrow> if now k \<ge> deadline then Some (Inl (AssertionError message)) else None))"

lemma poll_step:
  "poll read check message now deadline k =
     (case poll_result read check message now deadline k of
        Some r \<Rightarrow> Some r
      | None \<Rightarrow> poll read check message now deadline (Suc k))"
  by (subst poll.simps) (simp add: poll_result_def split: sum.splits bool.splits)

lemma poll_stops:
  "poll_result read check message now deadline (k + d) = Some r \<Longrightarrow>
   (\<And>i. i < d \<Longrightarrow> poll_result read check message now deadline (k + i) = None) \<Longrightarrow>
   poll read check message now deadline k = Some r"
proof (induction d arbitrary: k)
  case (Suc d)
  have "poll read check message now deadline (Suc k) = Some r"
  proof (rule Suc.IH)
    show "poll_result read check message now deadline (Suc k + d) = Some r" using Suc.prems(1) by simp
    show "poll_result read check message now deadline (Suc k + i) = None" if "i < d" for i
      using Suc.prems(2) [of "Suc i"] that by simp
  qed
  with Suc.prems(2) [of 0] show ?case by (subst poll_step) simp
qed (subst poll_step, simp)

lemma poll_result_late: "deadline \<le> now k \<Longrightarrow> poll_result read check message now deadline k \<noteq> None"
  by (auto simp: poll_result_def split: sum.splits bool.splits)

lemma clock_advances:
  assumes "\<And>k. now k + 50 \<le> (now (Suc k) :: int)"
  shows "now 0 + 50 * int k \<le> now k"
proof (induction k)
  case (Suc k)
  with assms [of k] show ?case by simp
qed simp

text \<open>C18: A poll whose reads and checks settle, and whose clock goes on by at least the 50 ms that it
  waits between reads, ends after at most 201 reads, with the outcome of the first read that ends
  it: the value that the check accepts, what the read or the check throws, or the assertion that
  fails after 10 s.\<close>

theorem poll_until_settles:
  assumes "\<forall>k. now k + 50 \<le> now (Suc k)" and "start \<le> now 0"
  shows "\<exists>j \<le> 200. \<exists>r. poll_until read check message start now = Some r
    \<and> poll_result read check message now (start + 10000) j = Some r
    \<and> (\<forall>i < j. poll_result read check message now (start + 10000) i = None)"
proof -
  let ?stop = "\<lambda>k. poll_result read check message now (start + 10000) k \<noteq> None"
  have "?stop 200"
    using clock_advances [of now 200] assms by (intro poll_result_late) simp
  define j where "j = (LEAST k. ?stop k)"
  have j: "?stop j" "\<forall>i < j. \<not> ?stop i" "j \<le> 200"
    unfolding j_def
    using LeastI [of ?stop, OF \<open>?stop 200\<close>] Least_le [of ?stop, OF \<open>?stop 200\<close>] not_less_Least [of _ ?stop]
    by blast+
  then obtain r where r: "poll_result read check message now (start + 10000) j = Some r" by blast
  have "poll_until read check message start now = Some r"
    unfolding poll_until_def
    by (rule poll_stops [where d = j]) (use r j(2) in simp_all)
  with j r show ?thesis by blast
qed

theorem poll_until_settles_witness:
  "\<exists>j \<le> 200. \<exists>r. poll_until (\<lambda>k. Inr k) (\<lambda>v. Inr (3 \<le> v)) ''rows'' 0 (\<lambda>k. 60 * int k) = Some r
    \<and> poll_result (\<lambda>k. Inr k) (\<lambda>v. Inr (3 \<le> v)) ''rows'' (\<lambda>k. 60 * int k) 10000 j = Some r"
  using poll_until_settles [of "\<lambda>k. 60 * int k" 0 "\<lambda>k. Inr k" "\<lambda>v. Inr (3 \<le> v)" "''rows''"]
  by fastforce

end
