(* ===== verification/BrowserDriver.thy ===== *)
theory BrowserDriver
  imports FixtureServer Readiness
begin

text \<open>
  What the scenarios of \<open>scripts/browser-acceptance.cjs\<close> are made of: calls of the browser driver
  on one page, polling with \<open>eventually\<close>, assertions, and assignments to the fixture. The page is
  an argument: asked something after a history of requests (newest first), it answers after some time, and in
  between its own traffic has reached the handlers of \<open>main\<close> (lines 165-201).
\<close>

section \<open>The page\<close>

datatype target =
    ByTestId string
  | ByRole string "string option" bool
  | ByRolePattern string string
  | ByLabel string
  | ByText jsstring bool
  | ByCss string
  | First target
  | Within target target
  | HavingText target string

datatype interaction =
    Click target | Fill target jsstring | FocusOn target | Press string | Uncheck target
  | WaitVisible target | WaitHidden target | Reload | SetViewport nat nat | AddInitScript string
  | Count target | AllTexts target | TextOf target | Evaluate string | EvaluateOn target string
  | Idle

datatype page_traffic =
    PageConnect socket ws_url
  | PageCommand socket jsval
  | PageClose close_event
  | PageRequest jsstring

text \<open>What the handlers of the page's traffic and of its events share with \<open>main\<close>.\<close>

record harness =
  h_fixture :: fixture
  browserErrors :: "jsstring list"
  blockedRequests :: "jsstring list"
  h_sent :: "ws_effect list"
  h_history :: "interaction list"

record page_answer =
  pa_traffic :: "page_traffic list"
  pa_errors :: "jsstring list"
  pa_result :: "jsval promise"
  pa_took :: nat

record driver =
  d_react :: "interaction list \<Rightarrow> harness \<Rightarrow> page_answer"
  d_show :: "jsnum \<Rightarrow> jsstring"
  d_origin :: jsstring
  d_host :: jsstring

definition apply_traffic :: "driver \<Rightarrow> page_traffic \<Rightarrow> harness \<Rightarrow> harness" where
  "apply_traffic d t h =
     (case t of
        PageConnect s url \<Rightarrow>
          (case on_web_socket (d_host d) s url (h_fixture h) (blockedRequests h) of
             (f, blocked, es) \<Rightarrow> h\<lparr>h_fixture := f, blockedRequests := blocked, h_sent := h_sent h @ es\<rparr>)
      | PageCommand s c \<Rightarrow>
          (case on_command s c (h_fixture h) of (f, es, _) \<Rightarrow> h\<lparr>h_fixture := f, h_sent := h_sent h @ es\<rparr>)
      | PageClose ce \<Rightarrow>
          (case on_client_close ce (h_fixture h) of (f, es) \<Rightarrow> h\<lparr>h_fixture := f, h_sent := h_sent h @ es\<rparr>)
      | PageRequest url_origin \<Rightarrow>
          h\<lparr>blockedRequests := fst (on_route (d_origin d) url_origin (blockedRequests h))\<rparr>)"

definition interact :: "driver \<Rightarrow> interaction \<Rightarrow> harness \<Rightarrow> harness \<times> jsval promise \<times> nat" where
  "interact d q h =
     (let history = q # h_history h;
          a = d_react d history h
      in (fold (apply_traffic d) (pa_traffic a)
            (h\<lparr>h_history := history, browserErrors := browserErrors h @ pa_errors a\<rparr>),
          pa_result a, pa_took a))"

section \<open>Scripts\<close>

text \<open>A part of an \<open>async\<close> body: it moves the harness and ends with a value or a failure.\<close>

type_synonym 'a script = "harness \<Rightarrow> harness \<times> 'a promise"

definition script_bind :: "'a script \<Rightarrow> ('a \<Rightarrow> 'b script) \<Rightarrow> 'b script" where
  "script_bind m f h = (case m h of (h', Inl e) \<Rightarrow> (h', Inl e) | (h', Inr a) \<Rightarrow> f a h')"

fun script_seq :: "unit script list \<Rightarrow> unit script" where
  "script_seq [] h = (h, Inr ())"
| "script_seq (s # ss) h = script_bind s (\<lambda>_. script_seq ss) h"

definition ask :: "driver \<Rightarrow> interaction \<Rightarrow> jsval script" where
  "ask d q h = (case interact d q h of (h', r, _) \<Rightarrow> (h', r))"

definition act :: "driver \<Rightarrow> interaction \<Rightarrow> unit script" where
  "act d q = script_bind (ask d q) (\<lambda>_ h. (h, Inr ()))"

definition ensure :: "bool \<Rightarrow> string \<Rightarrow> unit script" where
  "ensure b message h = (h, if b then Inr () else Inl (AssertionError message))"

text \<open>An assertion on what the page answers, and one on the fixture.\<close>

definition expect :: "driver \<Rightarrow> interaction \<Rightarrow> (jsval \<Rightarrow> bool) \<Rightarrow> string \<Rightarrow> unit script" where
  "expect d q check message = script_bind (ask d q) (\<lambda>v. ensure (check v) message)"

definition with_fixture :: "(fixture \<Rightarrow> 'a) \<Rightarrow> ('a \<Rightarrow> unit script) \<Rightarrow> unit script" where
  "with_fixture g k h = k (g (h_fixture h)) h"

definition modify :: "(fixture \<Rightarrow> fixture) \<Rightarrow> unit script" where
  "modify g h = (h\<lparr>h_fixture := g (h_fixture h)\<rparr>, Inr ())"

definition broadcast_state :: "unit script" where
  "broadcast_state h = (h\<lparr>h_sent := h_sent h @ broadcast (h_fixture h)\<rparr>, Inr ())"

definition drop_sockets :: "unit script" where
  "drop_sockets h =
     (case drop_all (h_fixture h) of (f, es) \<Rightarrow> (h\<lparr>h_fixture := f, h_sent := h_sent h @ es\<rparr>, Inr ()))"

text \<open>
  \<open>eventually\<close> over a page: a read takes the time the page needs, \<open>delay(50)\<close> at least 50 ms, so
  the clock reaches the deadline.
\<close>

function poll_page ::
  "(harness \<Rightarrow> harness \<times> 'v promise \<times> nat) \<Rightarrow> ('v \<Rightarrow> bool promise) \<Rightarrow> string \<Rightarrow> nat \<Rightarrow> harness
    \<Rightarrow> harness \<times> unit promise" where
  "poll_page read check message now h =
     (case read h of
        (h', Inl e, _) \<Rightarrow> (h', Inl e)
      | (h', Inr v, took) \<Rightarrow>
          (case check v of
             Inl e \<Rightarrow> (h', Inl e)
           | Inr found \<Rightarrow>
               if found then (h', Inr ())
               else if now + took \<ge> 10000 then (h', Inl (AssertionError message))
               else poll_page read check message (now + took + 50) h'))"
  by pat_completeness auto
termination
  by (relation "measure (\<lambda>(_, _, _, now, _). 10000 - now)") auto

declare poll_page.simps [simp del]

definition until :: "driver \<Rightarrow> interaction \<Rightarrow> (jsval \<Rightarrow> bool promise) \<Rightarrow> string \<Rightarrow> unit script" where
  "until d q check message = poll_page (interact d q) check message 0"

text \<open>Polling the fixture: the page runs on between the reads.\<close>

definition read_fixture :: "driver \<Rightarrow> (fixture \<Rightarrow> 'v) \<Rightarrow> harness \<Rightarrow> harness \<times> 'v promise \<times> nat" where
  "read_fixture d g h = (case interact d Idle h of (h', _, took) \<Rightarrow> (h', Inr (g (h_fixture h')), took))"

definition until_fixture :: "driver \<Rightarrow> (fixture \<Rightarrow> 'v) \<Rightarrow> ('v \<Rightarrow> bool) \<Rightarrow> string \<Rightarrow> unit script" where
  "until_fixture d g check message = poll_page (read_fixture d g) (\<lambda>v. Inr (check v)) message 0"

section \<open>Hydration\<close>

definition target_of :: "locator \<Rightarrow> target" where
  "target_of l =
     (case l of ExactText t \<Rightarrow> ByText t True | FirstExactText t \<Rightarrow> First (ByText t True) | Css s \<Rightarrow> ByCss s)"

text \<open>The waits are started together, so all of them reach the page.\<close>

fun start_waits :: "driver \<Rightarrow> locator list \<Rightarrow> harness \<Rightarrow> harness \<times> jsval timed list" where
  "start_waits d [] h = (h, [])"
| "start_waits d (l # ls) h =
     (case interact d (WaitVisible (target_of l)) h of
        (h1, r, took) \<Rightarrow> (case start_waits d ls h1 of (h2, ps) \<Rightarrow> (h2, (took, r) # ps)))"

definition hydrate :: "driver \<Rightarrow> jsval \<Rightarrow> bool \<Rightarrow> unit script" where
  "hydrate d soc publicMode h =
     (case soc of
        JNum n \<Rightarrow>
          if is_finite n then
            (case start_waits d (hydration_waits (d_show d) n publicMode) h of
               (h', ps) \<Rightarrow> (h', and_then (snd (promise_all ps)) (\<lambda>_. Inr ())))
          else (h, Inl (AssertionError ''Readiness requires the current fixture state of charge''))
      | _ \<Rightarrow> (h, Inl (AssertionError ''Readiness requires the current fixture state of charge'')))"

definition hydrate_current :: "driver \<Rightarrow> unit script" where
  "hydrate_current d = with_fixture (\<lambda>f. js_get (f_state f) ''battery_soc'') (\<lambda>soc. hydrate d soc False)"

section \<open>What every script keeps\<close>

text \<open>
  A relation between the harness before and after: what each request to the page keeps, every
  script built from requests, assertions and polls keeps.
\<close>

locale script_relation =
  fixes R :: "harness \<Rightarrow> harness \<Rightarrow> bool"
  assumes R_refl: "R h h"
    and R_trans: "R a b \<Longrightarrow> R b c \<Longrightarrow> R a c"
    and R_interact: "R h (fst (interact d q h))"
begin

definition keeps :: "'a script \<Rightarrow> bool" where
  "keeps s \<longleftrightarrow> (\<forall>h. R h (fst (s h)))"

lemma keepsD: "keeps s \<Longrightarrow> s h = (h', r) \<Longrightarrow> R h h'"
  unfolding keeps_def by (metis fst_conv)

lemma keeps_ask [intro, simp]: "keeps (ask d q)"
  using R_interact by (auto simp: keeps_def ask_def split: prod.splits) (metis fst_conv)

lemma keeps_bind [intro]: "keeps m \<Longrightarrow> (\<And>a. keeps (f a)) \<Longrightarrow> keeps (script_bind m f)"
  unfolding keeps_def script_bind_def
  by (auto split: prod.splits sum.splits) (metis R_trans fst_conv)+

lemma keeps_done [simp]: "keeps (\<lambda>h. (h, r))"
  by (simp add: keeps_def R_refl)

lemma keeps_act [intro, simp]: "keeps (act d q)"
  unfolding act_def by (intro keeps_bind) simp_all

lemma keeps_ensure [intro, simp]: "keeps (ensure b message)"
  by (simp add: keeps_def ensure_def R_refl)

lemma keeps_expect [intro, simp]: "keeps (expect d q check message)"
  unfolding expect_def by (intro keeps_bind) simp_all

lemma keeps_with_fixture [intro]: "(\<And>a. keeps (k a)) \<Longrightarrow> keeps (with_fixture g k)"
  by (simp add: keeps_def with_fixture_def)

lemma keeps_seq [intro]: "(\<And>s. s \<in> set ss \<Longrightarrow> keeps s) \<Longrightarrow> keeps (script_seq ss)"
proof (induction ss)
  case (Cons s ss)
  then have "keeps (script_bind s (\<lambda>_. script_seq ss))" by (intro keeps_bind) simp_all
  then show ?case by (simp add: keeps_def)
qed (simp add: keeps_def R_refl)

lemma keeps_poll:
  "(\<And>h. R h (fst (read h))) \<Longrightarrow> R h (fst (poll_page read check message now h))"
proof (induction read check message now h rule: poll_page.induct)
  case (1 read check message now h)
  obtain h' r took where read: "read h = (h', r, took)" by (cases "read h") auto
  then have first: "R h h'" using "1.prems" [of h] by simp
  show ?case
  proof (cases "\<exists>v. r = Inr v \<and> check v = Inr False \<and> now + took < 10000")
    case True
    then obtain v where v: "r = Inr v" "check v = Inr False" "now + took < 10000" by blast
    with "1.IH" [OF read [symmetric]] "1.prems" have "R h' (fst (poll_page read check message (now + took + 50) h'))"
      using read by fastforce
    with first v read show ?thesis
      using R_trans by (subst poll_page.simps) simp
  next
    case False
    with read first show ?thesis
      by (subst poll_page.simps) (auto split: sum.splits)
  qed
qed

lemma keeps_until [intro, simp]: "keeps (until d q check message)"
  unfolding keeps_def until_def by (intro allI keeps_poll R_interact)

lemma keeps_until_fixture [intro, simp]: "keeps (until_fixture d g check message)"
  unfolding keeps_def until_fixture_def
proof (intro allI keeps_poll)
  show "R h (fst (read_fixture d g h))" for h
    using R_interact [of h d Idle] by (auto simp: read_fixture_def split: prod.splits)
qed

lemma keeps_waits: "R h (fst (start_waits d ls h))"
proof (induction ls arbitrary: h)
  case (Cons l ls)
  obtain h1 r took where first: "interact d (WaitVisible (target_of l)) h = (h1, r, took)"
    by (cases "interact d (WaitVisible (target_of l)) h") auto
  with R_interact [of h d "WaitVisible (target_of l)"] have "R h h1" by simp
  with Cons.IH [of h1] first show ?case by (auto split: prod.splits intro: R_trans)
qed (simp add: R_refl)

lemma keeps_hydrate [intro, simp]: "keeps (hydrate d soc publicMode)"
proof -
  have "R h (fst (hydrate d soc publicMode h))" for h
  proof (cases soc)
    case (JNum n)
    then show ?thesis
      using keeps_waits [of h d "hydration_waits (d_show d) n publicMode"]
      by (auto simp: hydrate_def R_refl split: prod.splits)
  qed (simp_all add: hydrate_def R_refl)
  then show ?thesis by (simp add: keeps_def)
qed

lemma keeps_hydrate_current [intro, simp]: "keeps (hydrate_current d)"
  unfolding hydrate_current_def by (intro keeps_with_fixture keeps_hydrate)

end

section \<open>What requests to the page keep\<close>

text \<open>Commands and connections only accumulate, and the page cannot touch the fixture's switches.\<close>

definition grows :: "harness \<Rightarrow> harness \<Rightarrow> bool" where
  "grows h h' \<longleftrightarrow> (\<exists>cs. f_commands (h_fixture h') = f_commands (h_fixture h) @ cs)
     \<and> f_connections (h_fixture h) \<le> f_connections (h_fixture h')"

definition same_policy :: "harness \<Rightarrow> harness \<Rightarrow> bool" where
  "same_policy h h' \<longleftrightarrow> f_reject (h_fixture h') = f_reject (h_fixture h) \<and> f_paused (h_fixture h') = f_paused (h_fixture h)"

lemma fold_keeps:
  assumes "\<And>a b c. R a b \<Longrightarrow> R b c \<Longrightarrow> R a c" and "\<And>h. R h h" and "\<And>t h. R h (g t h)"
  shows "R h (fold g ts h)"
  using assms by (induction ts arbitrary: h) (simp_all, blast)

lemma grows_trans: "grows a b \<Longrightarrow> grows b c \<Longrightarrow> grows a c"
  by (auto simp: grows_def)

lemma grows_traffic: "grows h (apply_traffic d t h)"
  by (cases t) (auto simp: grows_def apply_traffic_def on_web_socket_def on_command_def on_client_close_def Let_def
      split: prod.splits if_splits)

lemma same_policy_traffic: "same_policy h (apply_traffic d t h)"
  by (cases t) (auto simp: same_policy_def apply_traffic_def on_web_socket_def on_command_def on_client_close_def
      Let_def split: prod.splits if_splits)

lemma grows_all_traffic: "grows h (fold (apply_traffic d) ts h)"
  by (rule fold_keeps [where R = grows]) (auto intro: grows_trans grows_traffic, simp add: grows_def)

lemma same_policy_all_traffic: "same_policy h (fold (apply_traffic d) ts h)"
  by (rule fold_keeps [where R = same_policy]) (simp_all add: same_policy_traffic, simp_all add: same_policy_def)

interpretation growing: script_relation grows
proof (unfold_locales, goal_cases)
  case (2 a b c)
  then show ?case by (rule grows_trans)
next
  case (3 h d q)
  show ?case
    using grows_all_traffic [of "h\<lparr>h_history := q # h_history h, browserErrors := _\<rparr>" d]
    by (simp add: interact_def Let_def grows_def)
qed (simp add: grows_def)

interpretation policy: script_relation same_policy
proof (unfold_locales, goal_cases)
  case (3 h d q)
  show ?case
    using same_policy_all_traffic [of "h\<lparr>h_history := q # h_history h, browserErrors := _\<rparr>" d]
    by (simp add: interact_def Let_def same_policy_def)
qed (simp_all add: same_policy_def)

text \<open>While the fixture rejects, no command of the page changes its state.\<close>

definition frozen :: "harness \<Rightarrow> harness \<Rightarrow> bool" where
  "frozen h h' \<longleftrightarrow> (f_reject (h_fixture h) \<longrightarrow>
     f_reject (h_fixture h') \<and> f_state (h_fixture h') = f_state (h_fixture h))"

lemma frozen_traffic: "frozen h (apply_traffic d t h)"
  by (cases t) (auto simp: frozen_def apply_traffic_def on_web_socket_def on_command_def on_client_close_def Let_def
      split: prod.splits if_splits)

lemma frozen_all_traffic: "frozen h (fold (apply_traffic d) ts h)"
  by (rule fold_keeps [where R = frozen]) (simp_all add: frozen_traffic, simp_all add: frozen_def)

interpretation freezing: script_relation frozen
proof (unfold_locales, goal_cases)
  case (3 h d q)
  show ?case
    using frozen_all_traffic [of "h\<lparr>h_history := q # h_history h, browserErrors := _\<rparr>" d]
    by (simp add: interact_def Let_def frozen_def)
qed (simp_all add: frozen_def)

section \<open>Scripts that end well\<close>

lemma script_bind_Inr:
  "script_bind m f h = (h', Inr b) \<longleftrightarrow> (\<exists>h1 a. m h = (h1, Inr a) \<and> f a h1 = (h', Inr b))"
  by (auto simp: script_bind_def split: prod.splits sum.splits)

lemma script_seq_Cons:
  "script_seq (s # ss) h = (h', Inr u) \<longleftrightarrow> (\<exists>h1. s h = (h1, Inr ()) \<and> script_seq ss h1 = (h', Inr u))"
  by (simp add: script_bind_Inr)

lemma script_seq_Nil: "script_seq [] h = (h', Inr u) \<longleftrightarrow> h' = h"
  by auto

lemma script_seq_append:
  "script_seq (ss @ ts) h = (h', Inr u) \<longleftrightarrow> (\<exists>h1. script_seq ss h = (h1, Inr ()) \<and> script_seq ts h1 = (h', Inr u))"
proof (induction ss arbitrary: h)
  case (Cons s ss)
  then show ?case unfolding append_Cons script_seq_Cons by blast
qed (simp add: script_seq_Nil)

lemmas script_steps = script_seq_Cons script_seq_Nil

declare script_seq.simps [simp del]

lemma ensure_Inr: "ensure b message h = (h', Inr u) \<longleftrightarrow> b \<and> h' = h"
  by (auto simp: ensure_def)

lemma modify_Inr: "modify g h = (h', Inr u) \<longleftrightarrow> h' = h\<lparr>h_fixture := g (h_fixture h)\<rparr>"
  by (auto simp: modify_def)

lemma poll_page_Inr:
  "poll_page read check message now h = (h', Inr u) \<Longrightarrow>
   \<exists>h0 v took. read h0 = (h', Inr v, took) \<and> check v = Inr True"
proof (induction read check message now h rule: poll_page.induct)
  case (1 read check message now h)
  obtain h1 r took where read: "read h = (h1, r, took)" by (cases "read h") auto
  show ?case
  proof (cases "\<exists>v. r = Inr v \<and> check v = Inr False \<and> now + took < 10000")
    case True
    then obtain v where v: "r = Inr v" "check v = Inr False" "now + took < 10000" by blast
    with "1.prems" read have "poll_page read check message (now + took + 50) h1 = (h', Inr u)"
      by (subst (asm) poll_page.simps) simp
    with "1.IH" read v show ?thesis by fastforce
  next
    case False
    with "1.prems" read show ?thesis
      by (subst (asm) poll_page.simps) (auto split: sum.splits if_splits)
  qed
qed

lemma until_fixture_Inr:
  "until_fixture d g check message h = (h', Inr u) \<Longrightarrow> check (g (h_fixture h'))"
proof -
  assume "until_fixture d g check message h = (h', Inr u)"
  then obtain h0 v took where read: "read_fixture d g h0 = (h', Inr v, took)" and v: "check v"
    unfolding until_fixture_def using poll_page_Inr by fastforce
  obtain h1 r n where "interact d Idle h0 = (h1, r, n)" by (cases "interact d Idle h0") auto
  with read v show "check (g (h_fixture h'))" by (auto simp: read_fixture_def)
qed

text \<open>A stretch of a scenario that asserts, at its end, that no command came meanwhile.\<close>

lemma commands_unchanged:
  assumes "with_fixture (\<lambda>f. length (f_commands f)) (\<lambda>before. script_seq (ss @
      [with_fixture (\<lambda>f. length (f_commands f)) (\<lambda>n. ensure (n = before) message)])) h = (h', Inr u)"
    and "\<And>s. s \<in> set ss \<Longrightarrow> growing.keeps s"
  shows "f_commands (h_fixture h') = f_commands (h_fixture h)"
proof -
  obtain h1 where first: "script_seq ss h = (h1, Inr ())"
    and same: "length (f_commands (h_fixture h1)) = length (f_commands (h_fixture h))" "h' = h1"
    using assms(1) by (auto simp: with_fixture_def script_seq_append script_steps ensure_Inr)
  have "grows h h1" by (rule growing.keepsD [OF growing.keeps_seq [OF assms(2)] first])
  with same show ?thesis by (auto simp: grows_def)
qed

end
