(* ===== verification/AcceptanceScenarios.thy ===== *)
theory AcceptanceScenarios
  imports BrowserDriver
begin

text \<open>
  The bodies of the scenarios of \<open>scripts/browser-acceptance.cjs\<close> (lines 205-307), as scripts over
  the browser driver, and what a scenario that passed shows about the fixture and the page.
\<close>

section \<open>Checks\<close>

fun contains :: "jsstring \<Rightarrow> jsstring \<Rightarrow> bool" where
  "contains [] p = (p = [])"
| "contains (u # s) p = (if starts_with (u # s) p then True else contains s p)"

text \<open>\<open>v.js_includes(p)\<close>, which needs a string.\<close>

definition js_includes :: "jsval \<Rightarrow> string \<Rightarrow> bool promise" where
  "js_includes v p = (case js_string v of Some s \<Rightarrow> Inr (contains s (js p)) | None \<Rightarrow> Inl TypeError)"

definition load_rows_check :: "jsval \<Rightarrow> bool promise" where
  "load_rows_check v =
     (case v of
        JArr rows \<Rightarrow>
          if length rows \<noteq> 3 then Inr False
          else and_then (js_includes (rows ! 0) ''Fixture refrigerator'') (\<lambda>b.
            if b then js_includes (rows ! 1) ''-100W'' else Inr False)
      | _ \<Rightarrow> Inr False)"

definition positive :: "jsval \<Rightarrow> bool" where
  "positive v = (case v of JNum (Num q) \<Rightarrow> 0 < q | JNum PosInf \<Rightarrow> True | _ \<Rightarrow> False)"

definition is_val :: "jsval \<Rightarrow> jsval \<Rightarrow> bool promise" where
  "is_val x v = Inr (v = x)"

abbreviation settings_button :: target where
  "settings_button \<equiv> ByRole ''button'' (Some ''Settings'') True"

abbreviation save_button :: target where
  "save_button \<equiv> ByRole ''button'' (Some ''Save Configuration'') False"

abbreviation close_settings :: target where
  "close_settings \<equiv> ByRole ''button'' (Some ''Close settings'') False"

abbreviation transport_connected :: interaction where
  "transport_connected \<equiv> EvaluateOn (ByTestId ''transport-status'') ''element => element.dataset.connected''"

definition set_state :: "string \<Rightarrow> jsval \<Rightarrow> fixture \<Rightarrow> fixture" where
  "set_state p x f = f\<lparr>f_state := js_put p x (f_state f)\<rparr>"

definition set_load :: "string \<Rightarrow> jsval \<Rightarrow> fixture \<Rightarrow> fixture" where
  "set_load i x f = f\<lparr>f_state := js_put ''loads'' (js_put i x (js_get (f_state f) ''loads'')) (f_state f)\<rparr>"

definition set_setting :: "string \<Rightarrow> jsval \<Rightarrow> fixture \<Rightarrow> fixture" where
  "set_setting p x f = f\<lparr>f_state := put_ui_settings (js_put p x (ui_settings (f_state f))) (f_state f)\<rparr>"

definition get_setting :: "string \<Rightarrow> fixture \<Rightarrow> jsval" where
  "get_setting p f = js_get (ui_settings (f_state f)) p"

definition last_command :: "fixture \<Rightarrow> jsval" where
  "last_command f = (if f_commands f = [] then JUndefined else last (f_commands f))"

definition typed_settings :: "jsval \<Rightarrow> bool" where
  "typed_settings c \<longleftrightarrow> js_get c ''action'' = jlit ''set_settings'' \<and> js_get c ''mqtt_port'' = jint 1884
     \<and> js_get c ''camera_topic'' = jlit ''fixture/camera''"

section \<open>The bodies\<close>

definition live_telemetry :: "driver \<Rightarrow> unit script" where
  "live_telemetry d = script_seq
     [until d (AllTexts (ByTestId ''active-load'')) load_rows_check
        ''Real load rows should be ordered and preserve generation'',
      expect d transport_connected (\<lambda>v. v = jlit ''true'') ''strictEqual'',
      until d (Count (ByCss ''canvas'')) (\<lambda>v. Inr (positive v)) ''ECharts should render an actual canvas'',
      expect d (Count (ByText (js ''73%'') True)) positive ''assert'']"

definition telemetry_updates :: "driver \<Rightarrow> unit script" where
  "telemetry_updates d = script_seq
     [modify (set_state ''battery_soc'' (jint 42)), modify (set_load ''1'' (jint 333)), broadcast_state,
      until d (TextOf (First (ByTestId ''active-load''))) (\<lambda>v. js_includes v ''333W'')
        ''Live websocket update should update load'',
      act d (WaitVisible (First (ByText (js ''42%'') True)))]"

definition theme_persists :: "driver \<Rightarrow> unit script" where
  "theme_persists d = script_seq
     [act d (Click (ByRole ''button'' (Some ''Switch to dark theme'') False)),
      expect d (Evaluate ''localStorage.getItem(theme)'') (\<lambda>v. v = jlit ''dark'') ''strictEqual'',
      act d Reload, hydrate_current d,
      expect d (EvaluateOn (ByCss ''html'') ''node => node.classList.contains(dark)'') truthy ''assert'',
      act d (Click (ByRole ''button'' (Some ''Switch to light theme'') False))]"

definition settings_dialog :: "driver \<Rightarrow> unit script" where
  "settings_dialog d = script_seq
     [act d (FocusOn settings_button), act d (Press ''Enter''),
      act d (WaitVisible (ByRole ''dialog'' (Some ''Configuration'') False)),
      expect d (EvaluateOn (ByRole ''dialog'' (Some ''Configuration'') False)
          ''node => node.open && node.contains(document.activeElement)'') truthy ''assert'',
      act d (Press ''Escape''), act d (WaitHidden (ByRole ''dialog'' (Some ''Configuration'') False)),
      expect d (Evaluate ''document.activeElement?.getAttribute(aria-label)'') (\<lambda>v. v = jlit ''Settings'')
        ''strictEqual'']"

definition fill_invalid_port :: "driver \<Rightarrow> unit script" where
  "fill_invalid_port d = with_fixture (\<lambda>f. length (f_commands f)) (\<lambda>before. script_seq
     [act d (Fill (ByLabel ''MQTT port'') (js ''70000'')), act d (Click save_button),
      act d (WaitVisible (HavingText (ByRole ''alert'' None False) ''MQTT port must'')),
      with_fixture (\<lambda>f. length (f_commands f))
        (\<lambda>n. ensure (n = before) ''Invalid form must not send a command'')])"

definition invalid_then_valid_settings :: "driver \<Rightarrow> unit script" where
  "invalid_then_valid_settings d = script_seq
     [act d (Click settings_button), fill_invalid_port d,
      act d (Fill (ByLabel ''MQTT port'') (js ''1884'')), act d (Fill (ByLabel ''Camera topic'') (js ''fixture/camera'')),
      act d (Click save_button),
      until_fixture d last_command typed_settings ''Save should send typed settings'',
      act d (Click close_settings), act d (WaitVisible (ByText (js ''Command accepted by server.'') False))]"

definition section_visibility :: "driver \<Rightarrow> unit script" where
  "section_visibility d = script_seq
     [act d (Click settings_button),
      act d (Uncheck (Within (ByRole ''group'' (Some ''Dashboard sections'') False)
        (ByRole ''checkbox'' (Some ''Active loads'') True))),
      until_fixture d (get_setting ''show_active_loads'') (\<lambda>v. v = JBool False)
        ''Visibility update should reach the backend fixture'',
      act d (Click close_settings), act d (WaitHidden (ByTestId ''active-loads'')), act d Reload, hydrate_current d,
      expect d (Count (ByTestId ''active-loads'')) (\<lambda>v. v = jint 0) ''strictEqual'',
      modify (set_setting ''show_active_loads'' (JBool True)), broadcast_state,
      act d (WaitVisible (ByTestId ''active-loads''))]"

definition rejected_command :: "driver \<Rightarrow> unit script" where
  "rejected_command d = script_seq
     [modify (\<lambda>f. f\<lparr>f_reject := True\<rparr>), act d (Click settings_button),
      act d (Fill (ByLabel ''Camera topic'') (js ''fixture/rejected'')), act d (Click save_button),
      act d (Click close_settings), act d (WaitVisible (ByText (js ''The server rejected the command.'') False)),
      with_fixture (get_setting ''camera_topic'') (\<lambda>v. ensure (v = jlit ''fixture/camera'') ''strictEqual''),
      modify (\<lambda>f. f\<lparr>f_reject := False\<rparr>)]"

definition reconnect :: "driver \<Rightarrow> unit script" where
  "reconnect d = script_seq
     [modify (\<lambda>f. f\<lparr>f_paused := True\<rparr>), drop_sockets,
      until d transport_connected (is_val (jlit ''false'')) ''Disconnected transport must be visible'',
      modify (\<lambda>f. f\<lparr>f_paused := False\<rparr>),
      with_fixture f_connections (\<lambda>before. script_seq
        [act d (Evaluate ''window.dispatchEvent(new Event(online))''),
         until_fixture d f_connections (\<lambda>count. before < count) ''Browser should reconnect'']),
      until d transport_connected (is_val (jlit ''true'')) ''New telemetry should be live'']"

definition mobile_layout :: "driver \<Rightarrow> unit script" where
  "mobile_layout d = script_seq
     [act d (SetViewport 390 844), act d (FocusOn settings_button), act d (Press ''Enter''),
      act d (WaitVisible (ByRole ''dialog'' (Some ''Configuration'') False)), act d (Press ''Escape''),
      act d (WaitHidden (ByRole ''dialog'' None False)),
      expect d (Evaluate ''document.documentElement.scrollWidth <= window.innerWidth + 1'') truthy
        ''Mobile viewport must not overflow horizontally'']"

definition read_only_page :: "driver \<Rightarrow> unit script" where
  "read_only_page d = with_fixture (\<lambda>f. length (f_commands f)) (\<lambda>before. script_seq
     [act d Reload, hydrate d (jint 61) True,
      act d (WaitVisible (ByText (js ''PUBLIC '' @ [0xB7] @ js '' READ-ONLY'') True)),
      act d (WaitVisible (First (ByText (js ''61%'') True))),
      expect d (Count settings_button) (\<lambda>v. v = jint 0) ''strictEqual'',
      expect d (Count (ByRolePattern ''button'' ''DRY'')) (\<lambda>v. v = jint 0) ''strictEqual'',
      with_fixture (\<lambda>f. length (f_commands f)) (\<lambda>n. ensure (n = before) ''strictEqual'')])"

definition public_mode :: "driver \<Rightarrow> unit script" where
  "public_mode d = script_seq [act d (AddInitScript ''window.__INVERTER_PUBLIC__ = true''), read_only_page d]"

definition no_errors_body :: "unit script" where
  "no_errors_body h =
     (if browserErrors h \<noteq> [] then (h, Inl (AssertionError ''deepStrictEqual''))
      else if blockedRequests h \<noteq> [] then (h, Inl (AssertionError ''deepStrictEqual''))
      else (h, Inr ()))"

definition scenario_bodies :: "driver \<Rightarrow> (string \<times> unit script) list" where
  "scenario_bodies d =
     [(''live-telemetry-load-order-and-real-chart'', live_telemetry d),
      (''telemetry-updates-without-reload'', telemetry_updates d),
      (''theme-persists-across-reload'', theme_persists d),
      (''native-settings-dialog-focus-and-escape'', settings_dialog d),
      (''invalid-settings-stay-local-before-valid-save'', invalid_then_valid_settings d),
      (''saved-section-visibility-survives-reload'', section_visibility d),
      (''rejected-command-shows-error-without-changing-state'', rejected_command d),
      (''disconnect-and-reconnect-restores-live-telemetry'', reconnect d),
      (''mobile-layout-keeps-settings-keyboard-accessible'', mobile_layout d),
      (''public-mode-has-telemetry-but-no-write-controls'', public_mode d),
      (''no-browser-errors-or-external-requests'', no_errors_body)]"

section \<open>What a passed scenario shows\<close>

lemma fill_invalid_port_commands:
  "fill_invalid_port d h = (h', Inr u) \<Longrightarrow> f_commands (h_fixture h') = f_commands (h_fixture h)"
  unfolding fill_invalid_port_def
  by (rule commands_unchanged [where ss = "[_, _, _]"], unfold append.simps, assumption) auto

lemma read_only_page_commands:
  "read_only_page d h = (h', Inr u) \<Longrightarrow> f_commands (h_fixture h') = f_commands (h_fixture h)"
  unfolding read_only_page_def
  by (rule commands_unchanged [where ss = "[_, _, _, _, _, _]"], unfold append.simps, assumption) auto

text \<open>If the public-mode scenario passes, no command reached the fixture from the reload on: the
  final check of lengths suffices because commands only accumulate.\<close>

theorem public_mode_sends_nothing:
  assumes "public_mode d h = (h', Inr ())"
  shows "f_commands (h_fixture h')
    = f_commands (h_fixture (fst (act d (AddInitScript ''window.__INVERTER_PUBLIC__ = true'') h)))"
  using assms by (auto simp: public_mode_def script_steps dest: read_only_page_commands)

text \<open>If the settings scenario passes, the invalid form sent no command and the typed settings
  were sent after it.\<close>

theorem only_valid_settings_are_sent:
  assumes "invalid_then_valid_settings d h = (h', Inr ())"
    and "\<forall>c \<in> set (f_commands (h_fixture (fst (act d (Click settings_button) h)))). \<not> typed_settings c"
  shows "\<exists>h2 sent. fill_invalid_port d (fst (act d (Click settings_button) h)) = (h2, Inr ())
    \<and> f_commands (h_fixture h2) = f_commands (h_fixture (fst (act d (Click settings_button) h)))
    \<and> f_commands (h_fixture h') = f_commands (h_fixture h2) @ sent \<and> (\<exists>c \<in> set sent. typed_settings c)"
proof -
  obtain h1 h2 h3 where h1: "act d (Click settings_button) h = (h1, Inr ())"
    and h2: "fill_invalid_port d h1 = (h2, Inr ())"
    and h3: "script_seq [act d (Fill (ByLabel ''MQTT port'') (js ''1884'')),
        act d (Fill (ByLabel ''Camera topic'') (js ''fixture/camera'')), act d (Click save_button),
        until_fixture d last_command typed_settings ''Save should send typed settings''] h2 = (h3, Inr ())"
    and rest: "script_seq [act d (Click close_settings),
        act d (WaitVisible (ByText (js ''Command accepted by server.'') False))] h3 = (h', Inr ())"
    using assms(1) by (auto simp: invalid_then_valid_settings_def script_steps)
  have "grows h2 h3" by (rule growing.keepsD [OF growing.keeps_seq h3]) auto
  then obtain cs where cs: "f_commands (h_fixture h3) = f_commands (h_fixture h2) @ cs" by (auto simp: grows_def)
  have "grows h3 h'" by (rule growing.keepsD [OF growing.keeps_seq rest]) auto
  then obtain ds where ds: "f_commands (h_fixture h') = f_commands (h_fixture h3) @ ds" by (auto simp: grows_def)
  have same: "f_commands (h_fixture h2) = f_commands (h_fixture h1)" by (rule fill_invalid_port_commands [OF h2])
  have typed: "typed_settings (last_command (h_fixture h3))"
    using h3 by (auto simp: script_steps dest: until_fixture_Inr)
  have "cs \<noteq> []"
  proof
    assume "cs = []"
    with typed assms(2) h1 same cs show False
      by (auto simp: last_command_def typed_settings_def split: if_splits)
  qed
  with typed cs have "\<exists>c \<in> set cs. typed_settings c"
    by (auto simp: last_command_def split: if_splits)
  with h1 h2 same cs ds show ?thesis by auto
qed

lemma rejected_command_effect:
  assumes "rejected_command d h = (h', Inr ())"
  shows "f_state (h_fixture h') = f_state (h_fixture h)
    \<and> get_setting ''camera_topic'' (h_fixture h') = jlit ''fixture/camera'' \<and> \<not> f_reject (h_fixture h')
    \<and> f_paused (h_fixture h') = f_paused (h_fixture h)"
proof -
  let ?h0 = "h\<lparr>h_fixture := (h_fixture h)\<lparr>f_reject := True\<rparr>\<rparr>"
  obtain h1 where page: "script_seq [act d (Click settings_button),
      act d (Fill (ByLabel ''Camera topic'') (js ''fixture/rejected'')), act d (Click save_button),
      act d (Click close_settings), act d (WaitVisible (ByText (js ''The server rejected the command.'') False))] ?h0
      = (h1, Inr ())"
    and topic: "get_setting ''camera_topic'' (h_fixture h1) = jlit ''fixture/camera''"
    and h': "h' = h1\<lparr>h_fixture := (h_fixture h1)\<lparr>f_reject := False\<rparr>\<rparr>"
    using assms by (auto simp: rejected_command_def script_steps modify_Inr with_fixture_def ensure_Inr)
  have "frozen ?h0 h1" by (rule freezing.keepsD [OF freezing.keeps_seq page]) auto
  moreover have "same_policy ?h0 h1" by (rule policy.keepsD [OF policy.keeps_seq page]) auto
  ultimately show ?thesis using topic h' by (simp add: frozen_def same_policy_def get_setting_def)
qed

text \<open>If the rejection scenario passes, nothing of the fixture state changed, the saved camera
  topic is still there and the fixture accepts again.\<close>

theorem rejected_command_changes_nothing:
  assumes "rejected_command d h = (h', Inr ())"
  shows "f_state (h_fixture h') = f_state (h_fixture h)
    \<and> get_setting ''camera_topic'' (h_fixture h') = jlit ''fixture/camera'' \<and> \<not> f_reject (h_fixture h')"
  using rejected_command_effect [OF assms] by blast

lemma reconnect_effect:
  assumes "reconnect d h = (h', Inr ())"
  shows "f_connections (h_fixture h) < f_connections (h_fixture h') \<and> \<not> f_paused (h_fixture h')
    \<and> f_reject (h_fixture h') = f_reject (h_fixture h)"
proof -
  let ?drop = "(h\<lparr>h_fixture := (h_fixture h)\<lparr>f_paused := True\<rparr>\<rparr>)"
  obtain h1 h2 h3 h4 where h1: "drop_sockets ?drop = (h1, Inr ())"
    and h2: "until d transport_connected (is_val (jlit ''false'')) ''Disconnected transport must be visible'' h1 = (h2, Inr ())"
    and h3: "script_seq [act d (Evaluate ''window.dispatchEvent(new Event(online))''),
         until_fixture d f_connections (\<lambda>count. f_connections (h_fixture h2) < count) ''Browser should reconnect'']
         (h2\<lparr>h_fixture := (h_fixture h2)\<lparr>f_paused := False\<rparr>\<rparr>) = (h3, Inr ())"
    and h4: "until d transport_connected (is_val (jlit ''true'')) ''New telemetry should be live'' h3 = (h', Inr ())"
    using assms by (auto simp: reconnect_def script_steps modify_Inr with_fixture_def)
  have "f_connections (h_fixture h1) = f_connections (h_fixture h)" "f_reject (h_fixture h1) = f_reject (h_fixture h)"
    using h1 by (auto simp: drop_sockets_def drop_all_def)
  moreover have "grows h1 h2" "same_policy h1 h2"
    by (rule growing.keepsD [OF growing.keeps_until h2], rule policy.keepsD [OF policy.keeps_until h2])
  moreover have "f_connections (h_fixture h2) < f_connections (h_fixture h3)"
    using h3 by (auto simp: script_steps dest: until_fixture_Inr)
  moreover have "same_policy (h2\<lparr>h_fixture := (h_fixture h2)\<lparr>f_paused := False\<rparr>\<rparr>) h3"
    by (rule policy.keepsD [OF policy.keeps_seq h3]) auto
  moreover have "grows h3 h'" "same_policy h3 h'"
    by (rule growing.keepsD [OF growing.keeps_until h4], rule policy.keepsD [OF policy.keeps_until h4])
  ultimately show ?thesis by (auto simp: grows_def same_policy_def)
qed

text \<open>If the reconnect scenario passes, the fixture accepted a new connection after the
  disconnect and is no longer paused.\<close>

theorem reconnect_opens_new_connection:
  assumes "reconnect d h = (h', Inr ())"
  shows "f_connections (h_fixture h) < f_connections (h_fixture h') \<and> \<not> f_paused (h_fixture h')"
  using reconnect_effect [OF assms] by blast

lemma policy_modify [intro]:
  "(\<And>f. f_reject (g f) = f_reject f) \<Longrightarrow> (\<And>f. f_paused (g f) = f_paused f) \<Longrightarrow> policy.keeps (modify g)"
  by (simp add: policy.keeps_def modify_def same_policy_def)

lemma policy_broadcast [intro, simp]: "policy.keeps broadcast_state"
  by (simp add: policy.keeps_def broadcast_state_def same_policy_def)

lemma policy_fill_invalid [intro, simp]: "policy.keeps (fill_invalid_port d)"
  unfolding fill_invalid_port_def by (intro policy.keeps_with_fixture policy.keeps_seq) auto

lemma policy_read_only [intro, simp]: "policy.keeps (read_only_page d)"
  unfolding read_only_page_def by (intro policy.keeps_with_fixture policy.keeps_seq) auto

lemma policy_bodies:
  "policy.keeps (live_telemetry d)" "policy.keeps (telemetry_updates d)" "policy.keeps (theme_persists d)"
  "policy.keeps (settings_dialog d)" "policy.keeps (invalid_then_valid_settings d)"
  "policy.keeps (section_visibility d)" "policy.keeps (mobile_layout d)" "policy.keeps (public_mode d)"
  "policy.keeps no_errors_body"
  unfolding live_telemetry_def telemetry_updates_def theme_persists_def settings_dialog_def
    invalid_then_valid_settings_def section_visibility_def mobile_layout_def public_mode_def
  by (intro policy.keeps_seq; auto simp: set_state_def set_load_def set_setting_def)+
    (simp add: policy.keeps_def no_errors_body_def same_policy_def)

text \<open>Every scenario that passes leaves the fixture neither rejecting nor paused, if it started
  so.\<close>

theorem passed_scenarios_reset_switches:
  assumes "(name, body) \<in> set (scenario_bodies d)" and "body h = (h', Inr ())"
    and "\<not> f_reject (h_fixture h)" and "\<not> f_paused (h_fixture h)"
  shows "\<not> f_reject (h_fixture h') \<and> \<not> f_paused (h_fixture h')"
proof -
  have kept: ?thesis if "policy.keeps body"
    using policy.keepsD [OF that assms(2)] assms(3,4) by (simp add: same_policy_def)
  consider "policy.keeps body" | "body = rejected_command d" | "body = reconnect d"
    using assms(1) by (auto simp: scenario_bodies_def policy_bodies)
  then show ?thesis
  proof cases
    case 2
    with assms show ?thesis
      using rejected_command_effect [of d h h'] by simp
  next
    case 3
    with assms show ?thesis using reconnect_effect [of d h h'] by simp
  qed (rule kept)
qed

section \<open>A page\<close>

text \<open>A page that saves a form whose port is in range, reconnects when told and shows what it should.\<close>

definition demo_settings :: jsval where
  "demo_settings = JObj [(js ''action'', jlit ''set_settings''), (js ''mqtt_port'', jint 1884),
     (js ''camera_topic'', jlit ''fixture/camera'')]"

fun form_valid :: "interaction list \<Rightarrow> bool" where
  "form_valid [] = True"
| "form_valid (Fill t v # qs) = (if t = ByLabel ''MQTT port'' then v \<noteq> js ''70000'' else form_valid qs)"
| "form_valid (_ # qs) = form_valid qs"

definition demo_hide_loads :: jsval where
  "demo_hide_loads = JObj [(js ''action'', jlit ''set_settings''), (js ''show_active_loads'', JBool False)]"

definition demo_traffic :: "interaction list \<Rightarrow> harness \<Rightarrow> page_traffic list" where
  "demo_traffic qs h =
     (case hd qs of
        Click t \<Rightarrow> if t = save_button then (if form_valid qs then [PageCommand 1 demo_settings] else []) else []
      | Evaluate s \<Rightarrow>
          if s = ''window.dispatchEvent(new Event(online))'' then
            [PageConnect (Suc (f_connections (h_fixture h)))
              \<lparr>u_origin = js ''ws://localhost'', u_host = js ''localhost'', u_pathname = js ''/ws''\<rparr>]
          else []
      | Uncheck t \<Rightarrow> [PageCommand 1 demo_hide_loads]
      | _ \<Rightarrow> [])"

definition demo_answer :: "interaction \<Rightarrow> harness \<Rightarrow> jsval" where
  "demo_answer q h =
     (case q of
        AllTexts t \<Rightarrow> JArr [jlit ''Fixture refrigerator 200W'', jlit ''-100W'', jlit ''Fixture router'']
      | TextOf t \<Rightarrow> jlit ''333W''
      | Count t \<Rightarrow> if t = ByCss ''canvas'' \<or> t = ByText (js ''73%'') True then jint 1 else jint 0
      | Evaluate s \<Rightarrow>
          if s = ''localStorage.getItem(theme)'' then jlit ''dark''
          else if s = ''document.activeElement?.getAttribute(aria-label)'' then jlit ''Settings''
          else JBool True
      | EvaluateOn t s \<Rightarrow>
          if t = ByTestId ''transport-status'' then
            if f_sockets (h_fixture h) = [] then jlit ''false'' else jlit ''true''
          else JBool True
      | _ \<Rightarrow> JUndefined)"

definition demo_react :: "interaction list \<Rightarrow> harness \<Rightarrow> page_answer" where
  "demo_react qs h =
     \<lparr>pa_traffic = demo_traffic qs h, pa_errors = [],
      pa_result = Inr (demo_answer (hd qs) h),
      pa_took = 5\<rparr>"

definition demo_driver :: driver where
  "demo_driver = \<lparr>d_react = demo_react, d_show = (\<lambda>_. js ''61''), d_origin = js ''http://localhost'',
     d_host = js ''localhost''\<rparr>"

definition demo_state :: "string \<Rightarrow> jsval" where
  "demo_state topic = JObj
     [(js ''battery_soc'', jint 73), (js ''loads'', JObj []),
      (js ''ui_config'', JObj [(js ''settings'', JObj [(js ''camera_topic'', jlit topic)])])]"

definition demo_harness :: "string \<Rightarrow> harness" where
  "demo_harness topic =
     \<lparr>h_fixture = \<lparr>f_state = demo_state topic, f_reject = False, f_paused = False, f_commands = [],
        f_sockets = [1], f_connections = 1\<rparr>,
      browserErrors = [], blockedRequests = [], h_sent = [], h_history = []\<rparr>"

abbreviation demo_page :: harness where
  "demo_page \<equiv> demo_harness ''fixture/camera''"

lemma demo_public: "snd (public_mode demo_driver demo_page) = Inr ()"
  by code_simp

lemma demo_reconnect: "snd (reconnect demo_driver demo_page) = Inr ()"
  by code_simp

lemma demo_rejected: "snd (rejected_command demo_driver demo_page) = Inr ()"
  by code_simp

lemma demo_invalid: "snd (invalid_then_valid_settings demo_driver demo_page) = Inr ()"
  by code_simp

lemma passed: "snd (s h) = Inr () \<Longrightarrow> s h = (fst (s h), Inr ())"
  by (metis prod.collapse)

theorem public_mode_sends_nothing_witness:
  "f_commands (h_fixture (fst (public_mode demo_driver demo_page))) = []"
proof -
  have "f_commands (h_fixture (fst (act demo_driver (AddInitScript ''window.__INVERTER_PUBLIC__ = true'') demo_page))) = []"
    by code_simp
  with public_mode_sends_nothing [OF passed [of "public_mode demo_driver" demo_page, OF demo_public]]
  show ?thesis by simp
qed

theorem only_valid_settings_are_sent_witness:
  "\<exists>c \<in> set (f_commands (h_fixture (fst (invalid_then_valid_settings demo_driver demo_page)))). typed_settings c"
proof -
  have "\<forall>c \<in> set (f_commands (h_fixture (fst (act demo_driver (Click settings_button) demo_page)))). \<not> typed_settings c"
    by code_simp
  from only_valid_settings_are_sent
    [OF passed [of "invalid_then_valid_settings demo_driver" demo_page, OF demo_invalid] this]
  show ?thesis by auto
qed

theorem rejected_command_changes_nothing_witness:
  "f_state (h_fixture (fst (rejected_command demo_driver demo_page))) = f_state (h_fixture demo_page)"
  using rejected_command_changes_nothing
    [OF passed [of "rejected_command demo_driver" demo_page, OF demo_rejected]] by simp

theorem reconnect_opens_new_connection_witness:
  "0 < f_connections (h_fixture (fst (reconnect demo_driver demo_page)))"
  using reconnect_opens_new_connection
    [OF passed [of "reconnect demo_driver" demo_page, OF demo_reconnect]] by linarith

theorem passed_scenarios_reset_switches_witness:
  "\<not> f_reject (h_fixture (fst (rejected_command demo_driver demo_page)))
   \<and> \<not> f_paused (h_fixture (fst (rejected_command demo_driver demo_page)))"
proof (rule passed_scenarios_reset_switches)
  show "(''rejected-command-shows-error-without-changing-state'', rejected_command demo_driver)
      \<in> set (scenario_bodies demo_driver)"
    by (simp add: scenario_bodies_def)
  show "rejected_command demo_driver demo_page = (fst (rejected_command demo_driver demo_page), Inr ())"
    by (rule passed [of "rejected_command demo_driver" demo_page, OF demo_rejected])
  show "\<not> f_reject (h_fixture demo_page)" "\<not> f_paused (h_fixture demo_page)"
    by (simp_all add: demo_harness_def)
qed

end
