(* ===== verification/AcceptanceMain.thy ===== *)
theory AcceptanceMain
  imports AcceptanceRun AcceptanceScenarios
begin

text \<open>
  \<open>main\<close> of \<open>scripts/browser-acceptance.cjs\<close> (lines 134-143 and 149-329) and the environment it
  needs (62-72). The calls into the browser driver and the files it reads are the fields of
  \<open>environment\<close>; their order, the denied routes, the scenarios, the evidence and what happens
  after a failure are the code's.
\<close>

section \<open>The environment\<close>

text \<open>\<open>process.env.X || fallback\<close>\<close>

definition env_or :: "jsstring option \<Rightarrow> jsstring \<Rightarrow> jsstring" where
  "env_or v fallback = (case v of Some s \<Rightarrow> if s = [] then fallback else s | None \<Rightarrow> fallback)"

definition engines :: "jsstring list" where
  "engines = [js ''chromium'', js ''firefox'', js ''webkit'']"

definition check_environment ::
  "jsstring option \<Rightarrow> jsstring option \<Rightarrow> bool \<Rightarrow> unit promise \<Rightarrow> jsstring promise" where
  "check_environment modulePath engine_variable index_exists required =
     (let engine = env_or engine_variable (js ''chromium'') in
      if \<not> starts_with (env_or modulePath []) [slash] then
        Inl (AssertionError ''Set CI_PLAYWRIGHT_MODULE to the isolated toolchain'')
      else if \<not> index_exists then
        Inl (AssertionError ''Build the real SPA before browser acceptance'')
      else and_then required (\<lambda>_.
        if engine \<notin> set engines then Inl (AssertionError ''Unsupported browser engine'') else Inr engine))"

section \<open>The journal\<close>

record journal =
  scenarios :: "string list"
  failures :: "(string \<times> js_error) list"

record evidence =
  ev_runtime :: jsval
  ev_engine :: jsstring
  ev_testsPassed :: nat
  ev_testsFailed :: nat
  ev_scenarios :: "string list"
  ev_frontend :: frontend
  ev_candidate :: "jsval option"

datatype artifact =
    ReadinessControls
  | FinalScreenshot
  | FailureScreenshot
  | Evidence evidence
  | Diagnostics journal "jsstring list" "jsstring list"
  | Trace

record run_state =
  harness :: harness
  journal :: journal
  artifacts :: "artifact list"
  has_browser :: bool
  has_context :: bool
  has_page :: bool
  serving :: bool

type_synonym step = "run_state \<Rightarrow> run_state \<times> unit promise"

text \<open>A sequence of awaited steps: the first failure is thrown.\<close>

fun run_steps :: "step list \<Rightarrow> step" where
  "run_steps [] st = (st, Inr ())"
| "run_steps (a # rest) st =
     (case a st of
        (st', Inl e) \<Rightarrow> (st', Inl e)
      | (st', Inr _) \<Rightarrow> run_steps rest st')"

definition await :: "(harness \<Rightarrow> harness \<times> unit promise) \<Rightarrow> step" where
  "await call st = (case call (harness st) of (h, r) \<Rightarrow> (st\<lparr>harness := h\<rparr>, r))"

text \<open>A step that changes something of the run when it succeeds.\<close>

definition acquire :: "(harness \<Rightarrow> harness \<times> unit promise) \<Rightarrow> (run_state \<Rightarrow> run_state) \<Rightarrow> step" where
  "acquire call upd st =
     (case call (harness st) of
        (h, Inl e) \<Rightarrow> (st\<lparr>harness := h\<rparr>, Inl e)
      | (h, Inr _) \<Rightarrow> (upd (st\<lparr>harness := h\<rparr>), Inr ()))"

text \<open>A file written synchronously.\<close>

definition save :: "(artifact \<Rightarrow> unit promise) \<Rightarrow> artifact \<Rightarrow> step" where
  "save write a st =
     (case write a of Inl e \<Rightarrow> (st, Inl e) | Inr _ \<Rightarrow> (st\<lparr>artifacts := artifacts st @ [a]\<rparr>, Inr ()))"

definition scenario :: "string \<Rightarrow> (harness \<Rightarrow> harness \<times> unit promise) \<Rightarrow> step" where
  "scenario name run st =
     (case run (harness st) of
        (h, Inr _) \<Rightarrow>
          (st\<lparr>harness := h, journal := (journal st)\<lparr>scenarios := scenarios (journal st) @ [name]\<rparr>\<rparr>, Inr ())
      | (h, Inl e) \<Rightarrow>
          (st\<lparr>harness := h, journal := (journal st)\<lparr>failures := failures (journal st) @ [(name, e)]\<rparr>\<rparr>, Inl e))"

section \<open>The run\<close>

datatype stage =
    RunReadiness | LaunchBrowser | NewContext | StartTracing | InterceptRequests | InterceptSockets | NewPage | OpenPage
  | Hydrate | FinalShot | FailureShot | StopTracing | CloseBrowser

record environment =
  x_fetch :: "jsstring \<Rightarrow> unit promise"
  x_stage :: "stage \<Rightarrow> harness \<Rightarrow> harness \<times> unit promise"
  x_write :: "artifact \<Rightarrow> unit promise"
  x_driver :: driver
  x_runtime_file :: "jsval promise option"
  x_runtime_default :: jsval
  x_candidate_file :: "jsval promise option"
  x_engine :: jsstring

definition denied_routes :: "jsstring list" where
  "denied_routes = [js ''/package.json'', js ''/.git/config'', js ''/%2e%2e%2fpackage.json'']"

text \<open>The routes are fetched from the code's own listener; a fetch itself can fail.\<close>

definition check_denied :: "environment \<Rightarrow> (jsstring, asset) store \<Rightarrow> step" where
  "check_denied env assets st =
     (if \<not> list_all (\<lambda>r. fulfilled (x_fetch env r)) denied_routes then (st, Inl TypeError)
      else if map (\<lambda>r. r_status (on_http assets (h_fixture (harness st)) r)) denied_routes \<noteq> [404, 404, 404] then
        (st, Inl (AssertionError ''Only inventoried distribution files may be served''))
      else (st, Inr ()))"

definition evidence_of :: "environment \<Rightarrow> frontend \<Rightarrow> jsval \<Rightarrow> jsval option \<Rightarrow> journal \<Rightarrow> evidence" where
  "evidence_of env frontend runtime candidate j =
     \<lparr>ev_runtime = runtime, ev_engine = x_engine env, ev_testsPassed = length (scenarios j), ev_testsFailed = 0,
      ev_scenarios = scenarios j, ev_frontend = frontend, ev_candidate = candidate\<rparr>"

text \<open>A parsed file, where it exists; a falsy candidate counts as none.\<close>

definition read_runtime :: "environment \<Rightarrow> jsval promise" where
  "read_runtime env = (case x_runtime_file env of Some r \<Rightarrow> r | None \<Rightarrow> Inr (x_runtime_default env))"

definition read_candidate :: "environment \<Rightarrow> jsval option promise" where
  "read_candidate env =
     (case x_candidate_file env of
        Some r \<Rightarrow> and_then r (\<lambda>c. Inr (if truthy c then Some c else None))
      | None \<Rightarrow> Inr None)"

definition write_evidence :: "environment \<Rightarrow> frontend \<Rightarrow> step" where
  "write_evidence env frontend st =
     (case and_then (read_runtime env) (\<lambda>runtime. and_then (read_candidate env) (\<lambda>candidate. Inr (runtime, candidate))) of
        Inl e \<Rightarrow> (st, Inl e)
      | Inr (runtime, candidate) \<Rightarrow>
          (case candidate of
             Some c \<Rightarrow>
               if runtime = JNull then (st, Inl TypeError)
               else if js_get c ''sourceSha'' \<noteq> js_get runtime ''sourceSha'' then
                 (st, Inl (AssertionError ''Packaged candidate must match the tested source''))
               else save (x_write env) (Evidence (evidence_of env frontend runtime candidate (journal st))) st
           | None \<Rightarrow> save (x_write env) (Evidence (evidence_of env frontend runtime None (journal st))) st))"

definition all_scenarios :: "string list" where
  "all_scenarios =
     [''live-telemetry-load-order-and-real-chart'', ''telemetry-updates-without-reload'',
      ''theme-persists-across-reload'', ''native-settings-dialog-focus-and-escape'',
      ''invalid-settings-stay-local-before-valid-save'', ''saved-section-visibility-survives-reload'',
      ''rejected-command-shows-error-without-changing-state'',
      ''disconnect-and-reconnect-restores-live-telemetry'',
      ''mobile-layout-keeps-settings-keyboard-accessible'',
      ''public-mode-has-telemetry-but-no-write-controls'', ''no-browser-errors-or-external-requests'']"

lemma scenario_names: "map fst (scenario_bodies d) = all_scenarios"
  by (simp add: scenario_bodies_def all_scenarios_def)

definition open_dashboard :: "environment \<Rightarrow> (jsstring, asset) store \<Rightarrow> step list" where
  "open_dashboard env assets =
     [await (x_stage env RunReadiness), save (x_write env) ReadinessControls, check_denied env assets,
      acquire (x_stage env LaunchBrowser) (\<lambda>st. st\<lparr>has_browser := True\<rparr>),
      acquire (x_stage env NewContext) (\<lambda>st. st\<lparr>has_context := True\<rparr>),
      await (x_stage env StartTracing), await (x_stage env InterceptRequests),
      await (x_stage env InterceptSockets),
      acquire (x_stage env NewPage) (\<lambda>st. st\<lparr>has_page := True\<rparr>),
      await (x_stage env OpenPage), await (x_stage env Hydrate)]"

definition run_scenarios :: "environment \<Rightarrow> step list" where
  "run_scenarios env = map (\<lambda>(name, body). scenario name body) (scenario_bodies (x_driver env))"

definition conclude :: "environment \<Rightarrow> frontend \<Rightarrow> step list" where
  "conclude env frontend =
     [acquire (x_stage env FinalShot) (\<lambda>st. st\<lparr>artifacts := artifacts st @ [FinalScreenshot]\<rparr>),
      write_evidence env frontend]"

definition try_block :: "environment \<Rightarrow> (jsstring, asset) store \<Rightarrow> frontend \<Rightarrow> step list" where
  "try_block env assets frontend = open_dashboard env assets @ run_scenarios env @ conclude env frontend"

text \<open>\<open>catch\<close>: a screenshot if there is a page, its own failure ignored, and the error again.\<close>

definition ignore :: "step \<Rightarrow> step" where
  "ignore a st = (fst (a st), Inr ())"

definition catch_block :: "environment \<Rightarrow> step" where
  "catch_block env st =
     (if has_page st then
        ignore (acquire (x_stage env FailureShot) (\<lambda>st. st\<lparr>artifacts := artifacts st @ [FailureScreenshot]\<rparr>)) st
      else (st, Inr ()))"

text \<open>\<open>finally\<close>: a failure in it replaces the result and skips the rest.\<close>

definition write_diagnostics :: "environment \<Rightarrow> step" where
  "write_diagnostics env st =
     save (x_write env) (Diagnostics (journal st) (browserErrors (harness st)) (blockedRequests (harness st))) st"

definition stop_tracing :: "environment \<Rightarrow> step" where
  "stop_tracing env st =
     (if has_context st
      then ignore (acquire (x_stage env StopTracing) (\<lambda>st. st\<lparr>artifacts := artifacts st @ [Trace]\<rparr>)) st
      else (st, Inr ()))"

definition close_browser :: "environment \<Rightarrow> step" where
  "close_browser env st =
     (if has_browser st then acquire (x_stage env CloseBrowser) (\<lambda>st. st\<lparr>has_browser := False\<rparr>) st
      else (st, Inr ()))"

definition close_server :: step where
  "close_server st = (st\<lparr>serving := False\<rparr>, Inr ())"

definition finally_block :: "environment \<Rightarrow> step list" where
  "finally_block env = [write_diagnostics env, stop_tracing env, close_browser env, close_server]"

definition initial_run :: "harness \<Rightarrow> run_state" where
  "initial_run h =
     \<lparr>harness = h, journal = \<lparr>scenarios = [], failures = []\<rparr>, artifacts = [], has_browser = False,
      has_context = False, has_page = False, serving = True\<rparr>"

definition main :: "environment \<Rightarrow> (jsstring, asset) store \<Rightarrow> frontend \<Rightarrow> harness \<Rightarrow> run_state \<times> unit promise" where
  "main env assets frontend h =
     (case run_steps (try_block env assets frontend) (initial_run h) of
        (st, r) \<Rightarrow>
          let st1 = (case r of Inl _ \<Rightarrow> fst (catch_block env st) | Inr _ \<Rightarrow> st)
          in (case run_steps (finally_block env) st1 of
                (st2, Inl e) \<Rightarrow> (st2, Inl e)
              | (st2, Inr _) \<Rightarrow> (st2, r)))"

definition exit_code :: "unit promise \<Rightarrow> nat" where
  "exit_code r = (case r of Inl _ \<Rightarrow> 1 | Inr _ \<Rightarrow> 0)"


section \<open>Steps\<close>

lemma run_steps_append:
  "run_steps (as @ bs) st =
     (case run_steps as st of
        (st', Inl e) \<Rightarrow> (st', Inl e)
      | (st', Inr _) \<Rightarrow> run_steps bs st')"
  by (induction as arbitrary: st) (auto split: prod.splits sum.splits)

lemma run_steps_Cons:
  "run_steps (a # as) st = (st', Inr ()) \<longleftrightarrow> (\<exists>st1. a st = (st1, Inr ()) \<and> run_steps as st1 = (st', Inr ()))"
  by (auto split: prod.splits sum.splits)

lemma run_steps_keeps:
  assumes "\<And>a st. a \<in> set as \<Longrightarrow> I st \<Longrightarrow> I (fst (a st))"
  shows "I st \<Longrightarrow> I (fst (run_steps as st))"
  using assms
proof (induction as arbitrary: st)
  case (Cons a as)
  obtain st' r where step: "a st = (st', r)" by force
  with Cons.prems(2) [of a st] Cons.prems(1) have "I st'" by simp
  with Cons step show ?case by (cases r) auto
qed simp

lemma fst_await: "fst (await call st) = st\<lparr>harness := fst (call (harness st))\<rparr>"
  by (simp add: await_def split: prod.splits)

lemma acquire_cases:
  "acquire call upd st =
     (if fulfilled (snd (call (harness st))) then (upd (st\<lparr>harness := fst (call (harness st))\<rparr>), Inr ())
      else (st\<lparr>harness := fst (call (harness st))\<rparr>, snd (call (harness st))))"
  by (auto simp: acquire_def split: prod.splits sum.splits)

lemma save_cases:
  "save write a st =
     (if fulfilled (write a) then (st\<lparr>artifacts := artifacts st @ [a]\<rparr>, Inr ()) else (st, write a))"
  by (auto simp: save_def split: sum.splits)

lemmas step_cases = fst_await acquire_cases save_cases ignore_def

lemmas finally_defs = write_diagnostics_def stop_tracing_def close_browser_def close_server_def

definition no_evidence :: "artifact list \<Rightarrow> bool" where
  "no_evidence as \<longleftrightarrow> (\<forall>ev. Evidence ev \<notin> set as)"

lemma open_dashboard_keeps:
  "journal (fst (run_steps (open_dashboard env assets) st)) = journal st
   \<and> (no_evidence (artifacts st) \<longrightarrow> no_evidence (artifacts (fst (run_steps (open_dashboard env assets) st))))"
  by (rule run_steps_keeps [where I = "\<lambda>st'. journal st' = journal st
        \<and> (no_evidence (artifacts st) \<longrightarrow> no_evidence (artifacts st'))"])
    (auto simp: open_dashboard_def step_cases check_denied_def no_evidence_def split: if_splits)

lemma scenario_passed:
  "run (harness st) = (h, Inr u) \<Longrightarrow> scenario name run st
     = (st\<lparr>harness := h, journal := (journal st)\<lparr>scenarios := scenarios (journal st) @ [name]\<rparr>\<rparr>, Inr ())"
  by (simp add: scenario_def)

lemma scenario_failed:
  "run (harness st) = (h, Inl e) \<Longrightarrow> scenario name run st
     = (st\<lparr>harness := h, journal := (journal st)\<lparr>failures := failures (journal st) @ [(name, e)]\<rparr>\<rparr>, Inl e)"
  by (simp add: scenario_def)

text \<open>The journal of a run that stopped after \<open>n\<close> scenarios.\<close>

definition story :: "string list \<Rightarrow> nat \<Rightarrow> unit promise \<Rightarrow> journal \<Rightarrow> journal" where
  "story names n r j =
     \<lparr>scenarios = scenarios j @ take n names,
      failures = failures j @ (case r of Inl e \<Rightarrow> [(names ! n, e)] | Inr _ \<Rightarrow> [])\<rparr>"

lemma run_scenarios_story:
  "run_steps (map (\<lambda>(name, body). scenario name body) bodies) st = (st', r) \<Longrightarrow>
   \<exists>n. journal st' = story (map fst bodies) n r (journal st) \<and> artifacts st' = artifacts st
     \<and> (if fulfilled r then n = length bodies else n < length bodies)"
proof (induction bodies arbitrary: st)
  case (Cons b bodies)
  obtain name body where b: "b = (name, body)" by force
  obtain h q where run: "body (harness st) = (h, q)" by force
  show ?case
  proof (cases q)
    case (Inl e)
    with Cons.prems b run show ?thesis
      by (intro exI [of _ 0]) (auto simp: scenario_failed story_def)
  next
    case (Inr u)
    let ?st = "st\<lparr>harness := h, journal := (journal st)\<lparr>scenarios := scenarios (journal st) @ [name]\<rparr>\<rparr>"
    from Cons.prems b run Inr have
      "run_steps (map (\<lambda>(name, body). scenario name body) bodies) ?st = (st', r)"
      by (simp add: scenario_passed)
    from Cons.IH [OF this] obtain n where n: "journal st' = story (map fst bodies) n r (journal ?st)"
      "artifacts st' = artifacts ?st" "if fulfilled r then n = length bodies else n < length bodies"
      by blast
    then show ?thesis
      by (intro exI [of _ "Suc n"]) (simp add: story_def b split: if_splits sum.splits)
  qed
qed (auto simp: story_def)

section \<open>What a run leaves behind\<close>

definition empty_journal :: journal where
  "empty_journal = \<lparr>scenarios = [], failures = []\<rparr>"

definition candidate_matches :: "jsval \<Rightarrow> jsval option \<Rightarrow> bool" where
  "candidate_matches runtime candidate =
     (case candidate of None \<Rightarrow> True | Some c \<Rightarrow> js_get c ''sourceSha'' = js_get runtime ''sourceSha'')"

lemma write_evidence_cases:
  assumes "write_evidence env frontend st = (st', r)"
  obtains (written) runtime candidate where "r = Inr ()" "candidate_matches runtime candidate"
      "st' = st\<lparr>artifacts := artifacts st @ [Evidence (evidence_of env frontend runtime candidate (journal st))]\<rparr>"
    | (failed) e where "r = Inl e" "st' = st"
proof (cases "and_then (read_runtime env) (\<lambda>runtime. and_then (read_candidate env) (\<lambda>candidate. Inr (runtime, candidate)))")
  case (Inl e)
  with assms show ?thesis by (intro failed [of e]) (simp_all add: write_evidence_def)
next
  case (Inr p)
  obtain runtime candidate where p: "p = (runtime, candidate)" by force
  let ?ev = "Evidence (evidence_of env frontend runtime candidate (journal st))"
  let ?goes = "candidate_matches runtime candidate \<and> (candidate = None \<or> runtime \<noteq> JNull)"
  have tail: "if ?goes
    then write_evidence env frontend st
      = save (x_write env) (Evidence (evidence_of env frontend runtime candidate (journal st))) st
    else \<exists>e. write_evidence env frontend st = (st, Inl e)"
    using Inr p by (cases candidate) (simp_all add: write_evidence_def candidate_matches_def)
  show ?thesis
  proof (cases "?goes \<and> x_write env ?ev = Inr ()")
    case True
    with tail assms show ?thesis by (intro written) (auto simp: save_def)
  next
    case False
    then have "\<exists>e. write_evidence env frontend st = (st, Inl e)"
      using tail by (cases "x_write env ?ev") (auto simp: save_def split: if_splits)
    with assms have "\<exists>e. r = Inl e \<and> st' = st" by auto
    with failed show ?thesis by blast
  qed
qed

lemma conclude_cases:
  assumes "run_steps (conclude env frontend) st = (st', r)" and "no_evidence (artifacts st)"
  obtains (written) runtime candidate as where "r = Inr ()" "candidate_matches runtime candidate"
      "journal st' = journal st" "no_evidence as"
      "artifacts st' = as @ [Evidence (evidence_of env frontend runtime candidate (journal st))]"
    | (failed) e where "r = Inl e" "journal st' = journal st" "no_evidence (artifacts st')"
proof -
  let ?shot = "acquire (x_stage env FinalShot) (\<lambda>st. st\<lparr>artifacts := artifacts st @ [FinalScreenshot]\<rparr>)"
  obtain st1 r1 where shot: "?shot st = (st1, r1)" by force
  then have st1: "journal st1 = journal st" "no_evidence (artifacts st1)"
    using assms(2) by (auto simp: acquire_cases no_evidence_def split: if_splits)
  show thesis
  proof (cases r1)
    case (Inl e)
    with assms(1) shot st1 show thesis by (intro failed [of e]) (auto simp: conclude_def)
  next
    case (Inr u)
    obtain st2 r2 where w: "write_evidence env frontend st1 = (st2, r2)" by force
    with assms(1) shot Inr have "st' = st2" "r = r2"
      by (auto simp: conclude_def split: sum.splits)
    with w show thesis
      by (cases rule: write_evidence_cases) (use written failed st1 in auto)
  qed
qed

text \<open>\<open>finally\<close> keeps the journal and the evidence, and when it ends well nothing is left open.\<close>

definition same_record :: "run_state \<Rightarrow> run_state \<Rightarrow> bool" where
  "same_record st st' \<longleftrightarrow> journal st' = journal st
     \<and> (\<forall>ev. Evidence ev \<in> set (artifacts st') \<longleftrightarrow> Evidence ev \<in> set (artifacts st))"

lemma same_record_trans: "same_record a b \<Longrightarrow> same_record b c \<Longrightarrow> same_record a c"
  by (simp add: same_record_def)

lemma same_record_steps:
  "same_record st (fst (write_diagnostics env st))"
  "same_record st (fst (stop_tracing env st))"
  "same_record st (fst (close_browser env st))"
  "same_record st (fst (close_server st))"
  "same_record st (fst (catch_block env st))"
  by (simp_all add: same_record_def finally_defs catch_block_def step_cases)

lemma finally_keeps: "same_record st (fst (run_steps (finally_block env) st))"
  by (rule run_steps_keeps [where I = "same_record st"])
    (auto simp: finally_block_def same_record_steps same_record_def [of st st] intro: same_record_trans)

lemma write_diagnostics_ok:
  "write_diagnostics env st = (st', Inr ()) \<Longrightarrow>
   Diagnostics (journal st) (browserErrors (harness st)) (blockedRequests (harness st)) \<in> set (artifacts st')"
  by (auto simp: write_diagnostics_def save_cases split: if_splits)

lemma stop_tracing_keeps: "set (artifacts st) \<subseteq> set (artifacts (fst (stop_tracing env st)))"
  by (auto simp: stop_tracing_def step_cases)

lemma close_browser_ok:
  "close_browser env st = (st', Inr ()) \<Longrightarrow> \<not> has_browser st' \<and> artifacts st' = artifacts st"
  by (auto simp: close_browser_def acquire_cases split: if_splits)

lemma finally_ends:
  assumes "run_steps (finally_block env) st = (st', Inr ())"
  shows "\<not> serving st' \<and> \<not> has_browser st'
    \<and> Diagnostics (journal st) (browserErrors (harness st)) (blockedRequests (harness st)) \<in> set (artifacts st')"
proof -
  obtain st1 st2 st3 where steps: "write_diagnostics env st = (st1, Inr ())" "stop_tracing env st1 = (st2, Inr ())"
    "close_browser env st2 = (st3, Inr ())" "close_server st3 = (st', Inr ())"
    using assms unfolding finally_block_def run_steps_Cons by auto
  then show ?thesis
    using write_diagnostics_ok [OF steps(1)] stop_tracing_keeps [of st1 env] close_browser_ok [OF steps(3)]
    by (auto simp: close_server_def)
qed

lemma finally_diagnostics_failed:
  assumes "\<And>j b q. \<not> fulfilled (x_write env (Diagnostics j b q))"
  shows "\<exists>e. run_steps (finally_block env) st = (st, Inl e)"
proof -
  let ?d = "Diagnostics (journal st) (browserErrors (harness st)) (blockedRequests (harness st))"
  obtain e where "x_write env ?d = Inl e" using assms [of "journal st" "browserErrors (harness st)" "blockedRequests (harness st)"]
    by (cases "x_write env ?d") auto
  then show ?thesis by (simp add: finally_block_def write_diagnostics_def save_def)
qed

lemma no_evidence_same: "same_record st st' \<Longrightarrow> no_evidence (artifacts st') = no_evidence (artifacts st)"
  by (auto simp: same_record_def no_evidence_def)

lemma try_block_cases:
  assumes "run_steps (try_block env assets frontend) (initial_run h) = (st, r)"
  obtains (not_opened) e where "r = Inl e" "journal st = empty_journal" "no_evidence (artifacts st)"
    | (scenario_failed) n e where "r = Inl e" "n < length all_scenarios"
        "journal st = story all_scenarios n (Inl e) empty_journal" "no_evidence (artifacts st)"
    | (not_concluded) e where "r = Inl e" "journal st = story all_scenarios (length all_scenarios) (Inr ()) empty_journal"
        "no_evidence (artifacts st)"
    | (concluded) st1 st2 runtime candidate as where "r = Inr ()"
        "run_steps (open_dashboard env assets) (initial_run h) = (st1, Inr ())"
        "run_steps (run_scenarios env) st1 = (st2, Inr ())"
        "journal st = story all_scenarios (length all_scenarios) (Inr ()) empty_journal"
        "candidate_matches runtime candidate" "no_evidence as"
        "artifacts st = as @ [Evidence (evidence_of env frontend runtime candidate (journal st))]"
proof -
  obtain st1 r1 where opened: "run_steps (open_dashboard env assets) (initial_run h) = (st1, r1)" by force
  have st1: "journal st1 = empty_journal" "no_evidence (artifacts st1)"
    using open_dashboard_keeps [of env assets "initial_run h"] opened
    by (simp_all add: initial_run_def empty_journal_def no_evidence_def)
  obtain st2 r2 where ran: "run_steps (run_scenarios env) st1 = (st2, r2)" by force
  obtain n where n: "journal st2 = story all_scenarios n r2 empty_journal" "artifacts st2 = artifacts st1"
    "if fulfilled r2 then n = length all_scenarios else n < length all_scenarios"
    using run_scenarios_story [OF ran [unfolded run_scenarios_def]] st1(1)
    by (metis length_map scenario_names)
  show thesis
  proof (cases r1)
    case (Inl e)
    with assms opened st1 show thesis
      by (intro not_opened [of e]) (simp_all add: try_block_def run_steps_append)
  next
    case r1: (Inr u)
    show thesis
    proof (cases r2)
      case (Inl e)
      with assms opened ran r1 n st1 show thesis
        by (intro scenario_failed [of e n]) (auto simp: try_block_def run_steps_append)
    next
      case (Inr u)
      with assms opened ran r1 have tail: "run_steps (conclude env frontend) st2 = (st, r)"
        by (simp add: try_block_def run_steps_append)
      from n st1 Inr have "no_evidence (artifacts st2)"
        "journal st2 = story all_scenarios (length all_scenarios) (Inr ()) empty_journal" by simp_all
      with tail show thesis
        by (cases rule: conclude_cases)
          (use not_concluded concluded opened ran r1 Inr in simp_all)
    qed
  qed
qed

lemma main_parts:
  assumes "main env assets frontend h = (st, r)"
  obtains st0 r0 where "run_steps (try_block env assets frontend) (initial_run h) = (st0, r0)"
    "same_record st0 st" "r = Inr () \<Longrightarrow> r0 = Inr () \<and> run_steps (finally_block env) st0 = (st, Inr ())"
proof -
  obtain st0 r0 where try_it: "run_steps (try_block env assets frontend) (initial_run h) = (st0, r0)" by force
  define st1 where "st1 = (case r0 of Inl _ \<Rightarrow> fst (catch_block env st0) | Inr _ \<Rightarrow> st0)"
  obtain st2 r2 where finish: "run_steps (finally_block env) st1 = (st2, r2)" by force
  have result: "st = st2" "r = (case r2 of Inl e \<Rightarrow> Inl e | Inr _ \<Rightarrow> r0)"
    using assms try_it finish by (auto simp: main_def st1_def split: sum.splits)
  have "same_record st0 st1"
    using same_record_steps(5) [of st0 env] by (simp add: st1_def same_record_def split: sum.splits)
  then have "same_record st0 st"
    using finally_keeps [of st1 env] finish result(1) by (auto intro: same_record_trans)
  moreover have "r0 = Inr () \<and> run_steps (finally_block env) st0 = (st, Inr ())" if "r = Inr ()"
    using that result finish by (auto simp: st1_def split: sum.splits)
  ultimately show thesis using try_it that by blast
qed

lemma on_http_status: "r_status (on_http assets f route) = r_status (on_http assets f' route)"
  by (simp add: on_http_def json_response_def split: option.splits)

lemma check_denied_ok:
  "check_denied env assets st = (st', Inr ()) \<Longrightarrow>
   \<forall>route \<in> set denied_routes. r_status (on_http assets f route) = 404"
  unfolding on_http_status [of assets f _ "h_fixture (harness st)"]
  by (auto simp: check_denied_def denied_routes_def split: if_splits)

lemma opened_denied:
  "run_steps (open_dashboard env assets) st = (st', Inr ()) \<Longrightarrow>
   \<forall>route \<in> set denied_routes. r_status (on_http assets f route) = 404"
  unfolding open_dashboard_def run_steps_Cons by (blast dest: check_denied_ok)

lemma last_scenario_clean:
  assumes "run_steps (run_scenarios env) st = (st', Inr ())"
  shows "browserErrors (harness st') = [] \<and> blockedRequests (harness st') = []"
proof -
  have "\<exists>name front. run_scenarios env = front @ [scenario name no_errors_body]"
    unfolding run_scenarios_def scenario_bodies_def
    by (intro exI [of _ "''no-browser-errors-or-external-requests''"]) simp
  then obtain name front where "run_scenarios env = front @ [scenario name no_errors_body]" by blast
  with assms obtain st1 where "scenario name no_errors_body st1 = (st', Inr ())"
    by (auto simp: run_steps_append split: prod.splits sum.splits)
  then show ?thesis
    by (auto simp: scenario_def no_errors_body_def split: if_splits)
qed

text \<open>C10: Whenever main wrote its evidence file, all eleven scenarios had passed and are listed, no
  failure was recorded, the last scenario saw no browser error or blocked request, the denied
  routes answer 404 and the candidate matches the tested source.\<close>

theorem evidence_only_after_every_scenario:
  assumes "main env assets frontend h = (st, r)" and "Evidence ev \<in> set (artifacts st)"
  shows "ev_scenarios ev = all_scenarios \<and> ev_testsPassed ev = 11 \<and> ev_testsFailed ev = 0
       \<and> ev_frontend ev = frontend \<and> failures (journal st) = []
       \<and> candidate_matches (ev_runtime ev) (ev_candidate ev)
       \<and> (\<forall>route \<in> set denied_routes. r_status (on_http assets f route) = 404)
       \<and> (\<exists>st1 st2. run_steps (run_scenarios env) st1 = (st2, Inr ())
            \<and> browserErrors (harness st2) = [] \<and> blockedRequests (harness st2) = [])"
proof -
  obtain st0 r0 where try_it: "run_steps (try_block env assets frontend) (initial_run h) = (st0, r0)"
    and same: "same_record st0 st"
    using main_parts [OF assms(1)] by blast
  from same assms(2) have ev: "Evidence ev \<in> set (artifacts st0)" by (simp add: same_record_def)
  show ?thesis using try_it
  proof (cases rule: try_block_cases)
    case (concluded st1 st2 runtime candidate as)
    from ev concluded(6,7) have "ev = evidence_of env frontend runtime candidate (journal st0)"
      by (auto simp: no_evidence_def)
    moreover have "journal st0 = \<lparr>scenarios = all_scenarios, failures = []\<rparr>"
      using concluded(4) by (simp add: story_def empty_journal_def)
    moreover have "length all_scenarios = 11" by code_simp
    ultimately show ?thesis
      using concluded(3,5) opened_denied [OF concluded(2)] last_scenario_clean [OF concluded(3)] same
      by (simp add: evidence_of_def same_record_def) blast
  qed (use ev in \<open>auto simp: no_evidence_def\<close>)
qed

text \<open>However main ends, the passed scenarios are a prefix of the eleven, and a recorded failure
  is the next one, makes the exit code 1 and excludes evidence.\<close>

theorem journal_tells_the_story:
  assumes "main env assets frontend h = (st, r)"
  shows "\<exists>n \<le> 11. scenarios (journal st) = take n all_scenarios
    \<and> (failures (journal st) = []
       \<or> (n < 11 \<and> exit_code r = 1 \<and> (\<exists>e. failures (journal st) = [(all_scenarios ! n, e)])
           \<and> no_evidence (artifacts st)))"
proof -
  obtain st0 r0 where try_it: "run_steps (try_block env assets frontend) (initial_run h) = (st0, r0)"
    and same: "same_record st0 st" and ok: "r = Inr () \<Longrightarrow> r0 = Inr ()"
    using main_parts [OF assms] by blast
  have code: "exit_code r = 1" if "r0 = Inl e" for e
    using ok that by (cases r) (auto simp: exit_code_def)
  have eleven: "length all_scenarios = 11" by code_simp
  have journal: "journal st = journal st0" using same by (simp add: same_record_def)
  show ?thesis using try_it
  proof (cases rule: try_block_cases)
    case (not_opened e)
    then show ?thesis by (intro exI [of _ 0]) (simp add: journal empty_journal_def)
  next
    case (scenario_failed n e)
    then show ?thesis
      using code [of e] no_evidence_same [OF same] eleven
      by (intro exI [of _ n]) (simp add: journal story_def empty_journal_def)
  qed (use eleven in \<open>auto simp: journal story_def empty_journal_def intro!: exI [of _ 11]\<close>)
qed

lemma main_fulfilled:
  assumes "main env assets frontend h = (st, Inr ())"
  shows "\<not> no_evidence (artifacts st) \<and> journal st = \<lparr>scenarios = all_scenarios, failures = []\<rparr>
    \<and> (\<exists>errors blocked. Diagnostics (journal st) errors blocked \<in> set (artifacts st))
    \<and> \<not> serving st \<and> \<not> has_browser st"
proof -
  obtain st0 where try_it: "run_steps (try_block env assets frontend) (initial_run h) = (st0, Inr ())"
    and same: "same_record st0 st" and finish: "run_steps (finally_block env) st0 = (st, Inr ())"
    using main_parts [OF assms] by metis
  show ?thesis using try_it
  proof (cases rule: try_block_cases)
    case (concluded st1 st2 runtime candidate as)
    then have "\<not> no_evidence (artifacts st0)" by (auto simp: no_evidence_def)
    with concluded(4) finally_ends [OF finish] no_evidence_same [OF same] same show ?thesis
      by (auto simp: same_record_def story_def empty_journal_def)
  qed simp_all
qed

text \<open>A run that exits with 0 left evidence, diagnostics and a complete journal, and closed
  browser and server.\<close>

theorem exit_zero_leaves_evidence:
  assumes "main env assets frontend h = (st, r)" and "exit_code r = 0"
  shows "\<not> no_evidence (artifacts st) \<and> journal st = \<lparr>scenarios = all_scenarios, failures = []\<rparr>
    \<and> (\<exists>errors blocked. Diagnostics (journal st) errors blocked \<in> set (artifacts st))
    \<and> \<not> serving st \<and> \<not> has_browser st"
proof -
  have "r = Inr ()" using assms(2) by (cases r) (auto simp: exit_code_def)
  with assms(1) have "main env assets frontend h = (st, Inr ())" by simp
  then show ?thesis by (rule main_fulfilled)
qed

lemma write_evidence_serving: "serving (fst (write_evidence env frontend st)) = serving st"
proof -
  obtain st' r where w: "write_evidence env frontend st = (st', r)" by force
  then show ?thesis by (cases rule: write_evidence_cases) (use w in simp_all)
qed

lemma scenario_serving: "serving (fst (scenario name run st)) = serving st"
  by (simp add: scenario_def split: prod.splits sum.splits)

lemma try_block_serving: "serving (fst (run_steps (try_block env assets frontend) st)) = serving st"
  by (rule run_steps_keeps [where I = "\<lambda>st'. serving st' = serving st"])
    (auto simp: try_block_def open_dashboard_def run_scenarios_def conclude_def step_cases check_denied_def
      write_evidence_serving scenario_serving split: if_splits)

lemma catch_serving: "serving (fst (catch_block env st)) = serving st"
  by (simp add: catch_block_def step_cases)

text \<open>C19: If diagnostics.json cannot be written, main ends with the HTTP server still open and exit
  code 1: the rest of the finally block is skipped.\<close>

theorem unwritten_diagnostics_leave_server_open:
  assumes "\<forall>j errors blocked. \<not> fulfilled (x_write env (Diagnostics j errors blocked))"
  shows "serving (fst (main env assets frontend h)) \<and> exit_code (snd (main env assets frontend h)) = 1"
proof -
  obtain st0 r0 where try_it: "run_steps (try_block env assets frontend) (initial_run h) = (st0, r0)" by force
  then have "serving st0"
    using try_block_serving [of env assets frontend "initial_run h"] by (simp add: initial_run_def)
  define st1 where "st1 = (case r0 of Inl _ \<Rightarrow> fst (catch_block env st0) | Inr _ \<Rightarrow> st0)"
  have "serving st1" using \<open>serving st0\<close> by (simp add: st1_def catch_serving split: sum.splits)
  moreover obtain e where "run_steps (finally_block env) st1 = (st1, Inl e)"
    using finally_diagnostics_failed [of env st1] assms by blast
  ultimately show ?thesis
    using try_it by (simp add: main_def st1_def exit_code_def Let_def)
qed

section \<open>A run\<close>

definition demo_environment :: environment where
  "demo_environment =
     \<lparr>x_fetch = (\<lambda>_. Inr ()), x_stage = (\<lambda>_ h. (h, Inr ())), x_write = (\<lambda>_. Inr ()),
      x_driver = demo_driver, x_runtime_file = None,
      x_runtime_default = JObj [(js ''sourceSha'', jlit ''local'')], x_candidate_file = None,
      x_engine = js ''chromium''\<rparr>"

lemma demo_denied: "check_denied demo_environment (staticAssets demo_seen) st = (st, Inr ())"
proof -
  have "map (\<lambda>r. r_status (on_http (staticAssets demo_seen) (initial_fixture 0 []) r)) denied_routes = [404, 404, 404]"
    unfolding demo_seen_def tree_inventory_def demo_served by code_simp
  then have "map (\<lambda>r. r_status (on_http (staticAssets demo_seen) (h_fixture (harness st)) r)) denied_routes = [404, 404, 404]"
    unfolding on_http_status [of _ "h_fixture (harness st)" _ "initial_fixture 0 []"] .
  then show ?thesis by (simp add: check_denied_def demo_environment_def list_all_iff)
qed

lemma demo_fields [simp]:
  "x_stage demo_environment s h = (h, Inr ())" "x_write demo_environment a = Inr ()"
  "x_driver demo_environment = demo_driver" "x_fetch demo_environment u = Inr ()"
  "x_runtime_file demo_environment = None" "x_candidate_file demo_environment = None"
  by (simp_all add: demo_environment_def)

definition demo_opened :: run_state where
  "demo_opened =
     \<lparr>harness = demo_harness [], journal = \<lparr>scenarios = [], failures = []\<rparr>, artifacts = [ReadinessControls],
      has_browser = True, has_context = True, has_page = True, serving = True\<rparr>"

lemma demo_scenarios: "snd (run_steps (map (\<lambda>(name, body). scenario name body) (scenario_bodies demo_driver)) demo_opened) = Inr ()"
  by code_simp


lemma demo_conclude: "snd (run_steps (conclude demo_environment frontend) st) = Inr ()"
  by (simp add: conclude_def acquire_def save_def write_evidence_def read_runtime_def read_candidate_def)

lemma demo_finally: "snd (run_steps (finally_block demo_environment) st) = Inr ()"
  by (simp add: finally_block_def finally_defs ignore_def acquire_def save_def)

definition demo_final :: run_state where
  "demo_final = fst (main demo_environment (staticAssets demo_seen) demo_frontend (demo_harness []))"

lemma demo_main:
  "main demo_environment (staticAssets demo_seen) demo_frontend (demo_harness []) = (demo_final, Inr ())"
proof -
  let ?env = demo_environment
  have opened: "run_steps (open_dashboard ?env (staticAssets demo_seen)) (initial_run (demo_harness []))
      = (demo_opened, Inr ())"
    by (simp add: open_dashboard_def await_def acquire_def save_def demo_denied initial_run_def demo_opened_def)
  obtain st where ran: "run_steps (run_scenarios ?env) demo_opened = (st, Inr ())"
    using demo_scenarios by (metis demo_fields(3) prod.collapse run_scenarios_def)
  obtain st1 where concluded: "run_steps (conclude ?env demo_frontend) st = (st1, Inr ())"
    using demo_conclude by (metis prod.collapse)
  obtain st2 where finish: "run_steps (finally_block ?env) st1 = (st2, Inr ())"
    using demo_finally by (metis prod.collapse)
  have "snd (main ?env (staticAssets demo_seen) demo_frontend (demo_harness [])) = Inr ()"
    unfolding main_def try_block_def run_steps_append opened prod.case sum.case ran concluded Let_def finish
    by simp
  then show ?thesis by (simp add: demo_final_def prod_eq_iff)
qed

theorem evidence_only_after_every_scenario_witness:
  "\<exists>ev. Evidence ev \<in> set (artifacts demo_final) \<and> ev_testsPassed ev = 11 \<and> ev_scenarios ev = all_scenarios"
proof -
  obtain ev where "Evidence ev \<in> set (artifacts demo_final)"
    using main_fulfilled [OF demo_main] by (auto simp: no_evidence_def)
  with evidence_only_after_every_scenario [OF demo_main this] show ?thesis by blast
qed

theorem journal_tells_the_story_witness:
  "\<exists>n \<le> 11. scenarios (journal demo_final) = take n all_scenarios"
  using journal_tells_the_story [OF demo_main] by blast

theorem exit_zero_leaves_evidence_witness:
  "\<not> no_evidence (artifacts demo_final) \<and> \<not> serving demo_final"
  using exit_zero_leaves_evidence [OF demo_main] by (simp add: exit_code_def)

theorem unwritten_diagnostics_leave_server_open_witness:
  "serving (fst (main (demo_environment\<lparr>x_write := \<lambda>a. Inl (Error ''ENOSPC'')\<rparr>) (staticAssets demo_seen)
     demo_frontend (demo_harness [])))"
  using unwritten_diagnostics_leave_server_open [of "demo_environment\<lparr>x_write := \<lambda>a. Inl (Error ''ENOSPC'')\<rparr>"]
  by simp

end
