(* ===== verification/PythonValues.thy ===== *)
theory PythonValues
  imports Prelude
begin

text \<open>
  The values of the Python server as far as its push pipeline uses them: strings as lists of code
  points (a lone surrogate is one), integers without bounds, the text \<open>json.dumps\<close> gives with
  \<open>separators=(",", ":")\<close> and \<open>ensure_ascii=False\<close>, its UTF-8 encoding, and the JavaScript
  value that \<open>JSON.parse\<close> makes of it in the browser.
\<close>

type_synonym pystring = "nat list"

datatype pyval =
    PyNone
  | PyBool bool
  | PyInt int
  | PyFloat jsnum
  | PyStr pystring
  | PyList "pyval list"
  | PyDict "(pystring \<times> pyval) list"

fun is_dict :: "pyval \<Rightarrow> bool" where
  "is_dict (PyDict _) = True"
| "is_dict _ = False"

text \<open>The exceptions by class; \<open>SubscriptionLimit\<close> is the \<open>ValueError\<close> that the registration tells
  from the others by its text, \<open>SubscriptionConflict\<close> and \<open>PushRateLimit\<close> are subclasses.\<close>

datatype py_error =
    ValueError
  | PyTypeError
  | KeyError
  | IntegrityError
  | OperationalError
  | SubscriptionConflict
  | SubscriptionLimit
  | PushRateLimit

type_synonym 'a outcome = "py_error + 'a"

definition py :: "string \<Rightarrow> pystring" where
  "py s = map of_char s"

abbreviation pylit :: "string \<Rightarrow> pyval" where
  "pylit s \<equiv> PyStr (py s)"

lemma py_eq_iff [simp]: "py s = py t \<longleftrightarrow> s = t"
  unfolding py_def by (rule inj_map_eq_map) (simp add: inj_def)

lemma length_py [simp]: "length (py s) = length s"
  by (simp add: py_def)

lemma py_Nil_iff [simp]: "py s = [] \<longleftrightarrow> s = []" "[] = py s \<longleftrightarrow> s = []"
  by (auto simp: py_def)

section \<open>Text encodings\<close>

text \<open>Every code point but the surrogates has a UTF-8 encoding; Python raises for those.\<close>

definition scalar :: "nat \<Rightarrow> bool" where
  "scalar c \<longleftrightarrow> c < 0xD800 \<or> 0xE000 \<le> c \<and> c < 0x110000"

definition utf8_char :: "nat \<Rightarrow> 8 word list" where
  "utf8_char c =
     (if c < 0x80 then [of_nat c]
      else if c < 0x800 then [of_nat (0xC0 + c div 64), of_nat (0x80 + c mod 64)]
      else if c < 0x10000 then
        [of_nat (0xE0 + c div 4096), of_nat (0x80 + c div 64 mod 64), of_nat (0x80 + c mod 64)]
      else [of_nat (0xF0 + c div 262144), of_nat (0x80 + c div 4096 mod 64), of_nat (0x80 + c div 64 mod 64),
        of_nat (0x80 + c mod 64)])"

definition encode :: "pystring \<Rightarrow> 8 word list outcome" where
  "encode s = (if list_all scalar s then Inr (concat (map utf8_char s)) else Inl ValueError)"

definition utf16_char :: "nat \<Rightarrow> jsstring" where
  "utf16_char c =
     (if c < 0x10000 then [of_nat c]
      else [of_nat (0xD800 + (c - 0x10000) div 1024), of_nat (0xDC00 + (c - 0x10000) mod 1024)])"

definition utf16 :: "pystring \<Rightarrow> jsstring" where
  "utf16 s = concat (map utf16_char s)"

lemma utf16_simps [simp]: "utf16 [] = []" "utf16 (c # s) = utf16_char c @ utf16 s"
  by (simp_all add: utf16_def)

lemma utf16_py [simp]: "utf16 (py s) = js s"
proof (induction s)
  case (Cons c s)
  have "(of_char c :: nat) < 0x10000"
    by (rule less_trans [OF nat_of_char_less_256]) simp
  then have "utf16_char (of_char c) = [of_char c]"
    by (simp only: utf16_char_def if_True of_nat_of_char)
  with Cons show ?case by (simp add: py_def js_def)
qed (simp add: py_def js_def)

lemma utf16_char_Nil [simp]: "utf16_char c \<noteq> []"
  by (simp add: utf16_char_def)

lemma utf16_Nil_iff [simp]: "utf16 s = [] \<longleftrightarrow> s = []"
  by (cases s) simp_all

text \<open>The browser counts the code points of a received string as Python did.\<close>

lemma array_from_length_cons:
  "\<not> high_surrogate u \<Longrightarrow> array_from_length (u # s) = Suc (array_from_length s)"
  by (cases s) auto

lemma unat_of_nat_16: "c < 0x10000 \<Longrightarrow> unat (of_nat c :: 16 word) = c"
  by (simp add: unat_of_nat)

lemma array_from_length_utf16: "list_all scalar s \<Longrightarrow> array_from_length (utf16 s) = length s"
proof (induction s)
  case (Cons c s)
  then have c: "scalar c" and IH: "array_from_length (utf16 s) = length s" by simp_all
  show ?case
  proof (cases "c < 0x10000")
    case True
    then have "unat (of_nat c :: 16 word) = c" by (rule unat_of_nat_16)
    with c True have "\<not> high_surrogate (of_nat c)"
      by (auto simp: high_surrogate_def scalar_def word_le_nat_alt)
    with True IH show ?thesis by (simp add: utf16_char_def array_from_length_cons)
  next
    case False
    let ?h = "0xD800 + (c - 0x10000) div 1024" and ?l = "0xDC00 + (c - 0x10000) mod 1024"
    from c False have "?h < 0xDC00" "?l < 0xE000" by (auto simp: scalar_def)
    then have "high_surrogate (of_nat ?h)" "low_surrogate (of_nat ?l)"
      unfolding high_surrogate_def low_surrogate_def word_le_nat_alt
      using unat_of_nat_16 [of ?h] unat_of_nat_16 [of ?l] by simp_all
    with False IH show ?thesis by (simp add: utf16_char_def)
  qed
qed simp

section \<open>JSON text\<close>

fun nat_digits :: "nat \<Rightarrow> pystring" where
  "nat_digits n = (if n < 10 then [0x30 + n] else nat_digits (n div 10) @ [0x30 + n mod 10])"

declare nat_digits.simps [simp del]

definition int_text :: "int \<Rightarrow> pystring" where
  "int_text i = (if i < 0 then 0x2D # nat_digits (nat (- i)) else nat_digits (nat i))"

definition hex_digit :: "nat \<Rightarrow> nat" where
  "hex_digit n = (if n < 10 then 0x30 + n else 0x57 + n)"

definition json_char :: "nat \<Rightarrow> pystring" where
  "json_char c =
     (if c = 0x22 then py [CHR 0x5C, CHR 0x22]
      else if c = 0x5C then py [CHR 0x5C, CHR 0x5C]
      else if c = 0x0A then py [CHR 0x5C, CHR ''n'']
      else if c = 0x0D then py [CHR 0x5C, CHR ''r'']
      else if c = 0x09 then py [CHR 0x5C, CHR ''t'']
      else if c = 0x0C then py [CHR 0x5C, CHR ''f'']
      else if c = 0x08 then py [CHR 0x5C, CHR ''b'']
      else if c < 0x20 then [0x5C, 0x75, 0x30, 0x30, hex_digit (c div 16), hex_digit (c mod 16)]
      else [c])"

definition json_string :: "pystring \<Rightarrow> pystring" where
  "json_string s = 0x22 # concat (map json_char s) @ [0x22]"

fun join_comma :: "pystring list \<Rightarrow> pystring" where
  "join_comma [] = []"
| "join_comma [s] = s"
| "join_comma (s # t # ss) = s @ 0x2C # join_comma (t # ss)"

text \<open>\<open>show_float\<close> is \<open>float.__repr__\<close>.\<close>

fun dumps :: "(jsnum \<Rightarrow> pystring) \<Rightarrow> pyval \<Rightarrow> pystring" where
  "dumps show_float PyNone = py ''null''"
| "dumps show_float (PyBool b) = (if b then py ''true'' else py ''false'')"
| "dumps show_float (PyInt i) = int_text i"
| "dumps show_float (PyFloat n) = show_float n"
| "dumps show_float (PyStr s) = json_string s"
| "dumps show_float (PyList vs) = 0x5B # join_comma (map (dumps show_float) vs) @ [0x5D]"
| "dumps show_float (PyDict kvs) =
     0x7B # join_comma (map (\<lambda>(k, v). json_string k @ 0x3A # dumps show_float v) kvs) @ [0x7D]"

fun to_js :: "pyval \<Rightarrow> jsval" where
  "to_js PyNone = JNull"
| "to_js (PyBool b) = JBool b"
| "to_js (PyInt i) = jint i"
| "to_js (PyFloat n) = JNum n"
| "to_js (PyStr s) = JStr (utf16 s)"
| "to_js (PyList vs) = JArr (map to_js vs)"
| "to_js (PyDict kvs) = JObj (map (\<lambda>(k, v). (utf16 k, to_js v)) kvs)"

section \<open>What is encodable, and how long it is\<close>

lemma scalar_small: "c < 0xD800 \<Longrightarrow> scalar c"
  by (simp add: scalar_def)

lemma scalar_of_char: "scalar (of_char c)"
  by (rule scalar_small, rule less_trans [OF nat_of_char_less_256]) simp

lemma scalar_py [simp]: "list_all scalar (py s)"
  by (simp add: py_def list_all_iff scalar_of_char)

lemma encode_Inr_iff: "encode s = Inr b \<longleftrightarrow> list_all scalar s \<and> b = concat (map utf8_char s)"
  by (auto simp: encode_def)

lemma encode_Inl_iff: "encode s = Inl e \<longleftrightarrow> \<not> list_all scalar s \<and> e = ValueError"
  by (auto simp: encode_def)

lemma length_utf8_char: "0 < length (utf8_char c)" "length (utf8_char c) \<le> 4"
  by (simp_all add: utf8_char_def)

lemma length_utf8_char_ascii: "c < 0x80 \<Longrightarrow> length (utf8_char c) = 1"
  by (simp add: utf8_char_def)

text \<open>\<open>utf8_length s\<close> is \<open>len(s.encode())\<close> for the encodable \<open>s\<close>.\<close>

definition utf8_length :: "pystring \<Rightarrow> nat" where
  "utf8_length s = length (concat (map utf8_char s))"

lemma utf8_length_simps [simp]:
  "utf8_length [] = 0"
  "utf8_length (c # s) = length (utf8_char c) + utf8_length s"
  "utf8_length (s @ t) = utf8_length s + utf8_length t"
  by (simp_all add: utf8_length_def)

lemma utf8_length_concat: "utf8_length (concat ss) = sum_list (map utf8_length ss)"
  by (induction ss) simp_all

lemma utf8_length_bound: "(\<And>c. c \<in> set s \<Longrightarrow> length (utf8_char c) \<le> n) \<Longrightarrow> utf8_length s \<le> n * length s"
  by (induction s) (force simp: algebra_simps)+

lemma utf8_length_ascii: "(\<And>c. c \<in> set s \<Longrightarrow> c < 0x80) \<Longrightarrow> utf8_length s = length s"
  by (induction s) (simp_all add: length_utf8_char_ascii)

lemma utf8_length_py [simp]: "utf8_length (py s) \<le> 2 * length s"
proof -
  have "length (utf8_char c) \<le> 2" if "c \<in> set (py s)" for c
  proof -
    from that have "c < 256" by (auto simp: py_def nat_of_char_less_256)
    then show ?thesis by (simp add: utf8_char_def)
  qed
  then show ?thesis using utf8_length_bound [of "py s" 2] by simp
qed

text \<open>A JSON character takes at most six bytes, and is encodable just when the character is.\<close>

lemma utf8_length_json_char: "utf8_length (json_char c) \<le> 6"
proof (cases "c < 0x20")
  case True
  then have "c div 16 < 10" by (simp add: less_mult_imp_div_less)
  with True show ?thesis
    by (auto simp: json_char_def py_def hex_digit_def utf8_char_def)
next
  case False
  then show ?thesis
    using length_utf8_char(2) [of c] by (auto simp: json_char_def py_def utf8_char_def)
qed

lemma utf8_length_json_string: "utf8_length (json_string s) \<le> 6 * length s + 2"
proof -
  have "utf8_length (concat (map json_char s)) \<le> 6 * length s"
  proof (induction s)
    case (Cons c s)
    with utf8_length_json_char [of c] show ?case by simp
  qed simp
  then show ?thesis by (simp add: json_string_def utf8_char_def)
qed

lemma scalar_json_char: "list_all scalar (json_char c) \<longleftrightarrow> scalar c"
proof (cases "c < 0x20")
  case True
  then have "c div 16 < 10" "c mod 16 < 16" by (simp_all add: less_mult_imp_div_less)
  with True show ?thesis
    by (auto simp: json_char_def hex_digit_def scalar_def py_def)
next
  case False
  then show ?thesis by (auto simp: json_char_def py_def scalar_of_char scalar_small)
qed

lemma scalar_json_string: "list_all scalar (json_string s) \<longleftrightarrow> list_all scalar s"
proof -
  have "list_all scalar (concat (map json_char s)) \<longleftrightarrow> list_all scalar s"
    by (induction s) (simp_all add: scalar_json_char)
  then show ?thesis by (simp add: json_string_def scalar_small)
qed

end
