(* ===== verification/PushPayload.thy ===== *)
theory PushPayload
  imports PythonValues NotificationEvents
begin

text \<open>
  The notification payloads of the server (\<open>push_events.py\<close>, lines 14-115): how
  \<open>event_payload\<close> builds one within the size limit of a push message, how
  \<open>validate_persisted_payload\<close> checks the ones found in the database, and how both agree with
  what the service worker accepts (\<open>normalizedEvent\<close>).

  A \<open>runtime\<close> holds what is left open of the Python runtime: the hexadecimal SHA-256 digest, the
  text of a float, \<open>str\<close> of a value that is no string, the \<open>:g\<close> format of a number, and \<open>datetime.fromisoformat\<close> with
  \<open>timestamp()\<close>, which gives an instant for the texts that name one with a time zone. Times are the
  rationals that the floats of \<open>time.time()\<close> denote.
\<close>

record runtime =
  sha256_hex :: "8 word list \<Rightarrow> pystring"
  float_repr :: "jsnum \<Rightarrow> pystring"
  str_of :: "pyval \<Rightarrow> pystring"
  format_g :: "rat \<Rightarrow> pystring"
  from_iso :: "pystring \<Rightarrow> rat option"

abbreviation json :: "runtime \<Rightarrow> pyval \<Rightarrow> pystring" where
  "json rt v \<equiv> dumps (float_repr rt) v"

text \<open>\<open>int(x)\<close> of a float cuts towards zero.\<close>

definition py_int :: "rat \<Rightarrow> int" where
  "py_int q = (if 0 \<le> q then \<lfloor>q\<rfloor> else \<lceil>q\<rceil>)"

definition MAX_PAYLOAD :: nat where
  "MAX_PAYLOAD = 3072"

section \<open>Building a payload\<close>

definition payload_fields ::
  "pystring \<Rightarrow> pystring \<Rightarrow> pystring \<Rightarrow> int \<Rightarrow> int \<Rightarrow> pystring \<Rightarrow> pystring \<Rightarrow> pyval" where
  "payload_fields key kind source source_ms observed title body =
     PyDict
       [(py ''schemaVersion'', PyInt 1),
        (py ''eventKey'', PyStr key),
        (py ''kind'', PyStr kind),
        (py ''source'', PyStr source),
        (py ''sourceTimestampMs'', PyInt source_ms),
        (py ''observedAtMs'', PyInt observed),
        (py ''title'', PyStr title),
        (py ''body'', PyStr body),
        (py ''url'', pylit ''/'')]"

fun py_items :: "pyval \<Rightarrow> (pystring \<times> pyval) list" where
  "py_items (PyDict kvs) = kvs"
| "py_items _ = []"

text \<open>\<open>d[k]\<close> and \<open>d[k] = x\<close>; the code reads only keys that it has put or whose presence it has
  checked.\<close>

definition py_item :: "pyval \<Rightarrow> string \<Rightarrow> pyval" where
  "py_item d k = (case map_of (py_items d) (py k) of None \<Rightarrow> PyNone | Some v \<Rightarrow> v)"

definition py_set_item :: "string \<Rightarrow> pyval \<Rightarrow> pyval \<Rightarrow> pyval" where
  "py_set_item k x d = PyDict (AList.update (py k) x (py_items d))"

fun py_chars :: "pyval \<Rightarrow> pystring" where
  "py_chars (PyStr s) = s"
| "py_chars _ = []"

text \<open>The loop drops one character of the body after the other. It has no other exit, so an envelope
  that is too long by itself would make it run forever: then the result is \<open>None\<close>.\<close>

partial_function (option) trim_body :: "runtime \<Rightarrow> pyval \<Rightarrow> pyval outcome option" where
  "trim_body rt payload =
     (case encode (json rt payload) of
        Inl e \<Rightarrow> Some (Inl e)
      | Inr b \<Rightarrow>
          if length b > MAX_PAYLOAD
          then trim_body rt (py_set_item ''body'' (PyStr (butlast (py_chars (py_item payload ''body'')))) payload)
          else Some (Inr payload))"

definition event_payload ::
  "runtime \<Rightarrow> pystring \<Rightarrow> pystring \<Rightarrow> pystring \<Rightarrow> int \<Rightarrow> rat \<Rightarrow> pystring \<Rightarrow> pystring
    \<Rightarrow> pyval outcome option" where
  "event_payload rt kind source ident source_ms now title body =
     (case encode (json rt (PyList [PyStr kind, PyStr source, PyStr ident, PyInt source_ms])) of
        Inl e \<Rightarrow> Some (Inl e)
      | Inr identity \<Rightarrow>
          trim_body rt
            (payload_fields (sha256_hex rt identity) kind source source_ms (py_int (now * 1000))
              (take 120 title) (take 1000 body)))"

section \<open>Validating a payload\<close>

definition required :: "pystring set" where
  "required = py ` {''schemaVersion'', ''eventKey'', ''kind'', ''source'', ''sourceTimestampMs'',
     ''observedAtMs'', ''title'', ''body'', ''url''}"

text \<open>\<open>isinstance(v, int)\<close> holds of the booleans too.\<close>

fun as_int :: "pyval \<Rightarrow> int option" where
  "as_int (PyInt i) = Some i"
| "as_int (PyBool b) = Some (of_bool b)"
| "as_int _ = None"

fun is_bool :: "pyval \<Rightarrow> bool" where
  "is_bool (PyBool _) = True"
| "is_bool _ = False"

fun as_str :: "pyval \<Rightarrow> pystring option" where
  "as_str (PyStr s) = Some s"
| "as_str _ = None"

fun hashable :: "pyval \<Rightarrow> bool" where
  "hashable (PyList _) = False"
| "hashable (PyDict _) = False"
| "hashable _ = True"

definition kind_sources :: "pystring \<Rightarrow> pyval set" where
  "kind_sources k =
     (if k = py ''native'' then {pylit ''victron'', pylit ''system''}
      else if k = py ''ev'' then {pylit ''victron''}
      else if k = py ''water'' then {pylit ''victron''}
      else if k = py ''lowBattery'' then {pylit ''victron''}
      else if k = py ''test'' then {pylit ''system''}
      else {})"

definition hex64 :: "pystring \<Rightarrow> bool" where
  "hex64 s \<longleftrightarrow> length s = 64
     \<and> list_all (\<lambda>c. 0x61 \<le> c \<and> c \<le> 0x66 \<or> 0x30 \<le> c \<and> c \<le> 0x39) s"

definition text_ok :: "pyval \<Rightarrow> nat \<Rightarrow> bool" where
  "text_ok v maximum =
     (case as_str v of None \<Rightarrow> False | Some s \<Rightarrow> \<not> length s > maximum)"

definition time_ok :: "pyval \<Rightarrow> bool" where
  "time_ok v =
     (case as_int v of None \<Rightarrow> False | Some i \<Rightarrow> \<not> (is_bool v \<or> \<not> (0 < i \<and> i \<le> 9007199254740991)))"

definition validate_payload_fields :: "runtime \<Rightarrow> pyval \<Rightarrow> unit outcome" where
  "validate_payload_fields rt v =
     (if \<not> (text_ok (py_item v ''eventKey'') 64 \<and> text_ok (py_item v ''title'') 120
            \<and> text_ok (py_item v ''body'') 1000) then Inl ValueError
      else if \<not> hex64 (py_chars (py_item v ''eventKey'')) then Inl ValueError
      else if \<not> (time_ok (py_item v ''sourceTimestampMs'') \<and> time_ok (py_item v ''observedAtMs''))
        then Inl ValueError
      else case encode (json rt v) of
        Inl e \<Rightarrow> Inl e
      | Inr b \<Rightarrow> if length b > MAX_PAYLOAD then Inl ValueError else Inr ())"

definition validate_persisted_payload :: "runtime \<Rightarrow> pyval \<Rightarrow> unit outcome" where
  "validate_persisted_payload rt v =
     (case v of PyDict kvs \<Rightarrow>
        (if set (map fst kvs) \<noteq> required then Inl ValueError
         else if as_int (py_item v ''schemaVersion'') \<noteq> Some 1 \<or> is_bool (py_item v ''schemaVersion'')
                 \<or> py_item v ''url'' \<noteq> pylit ''/'' then Inl ValueError
         else case as_str (py_item v ''kind'') of
            None \<Rightarrow> Inl ValueError
          | Some k \<Rightarrow>
              if \<not> hashable (py_item v ''source'') then Inl PyTypeError
              else if py_item v ''source'' \<notin> kind_sources k then Inl ValueError
              else validate_payload_fields rt v)
      | _ \<Rightarrow> Inl ValueError)"

section \<open>The loop\<close>

text \<open>\<open>fits\<close>: the message with this body has at most \<open>MAX_PAYLOAD\<close> bytes.\<close>

definition json_bytes :: "runtime \<Rightarrow> pyval \<Rightarrow> nat" where
  "json_bytes rt v = utf8_length (json rt v)"

lemma utf8_length_join_comma:
  "utf8_length (join_comma ss) = sum_list (map utf8_length ss) + (length ss - 1)"
  by (induction ss rule: join_comma.induct) (simp_all add: utf8_char_def)

lemma scalar_join_comma: "list_all scalar (join_comma ss) \<longleftrightarrow> (\<forall>s \<in> set ss. list_all scalar s)"
  by (induction ss rule: join_comma.induct) (auto simp: scalar_small)

lemma set_nat_digits: "c \<in> set (nat_digits n) \<Longrightarrow> 0x30 \<le> c \<and> c < 0x3A"
proof (induction n rule: nat_digits.induct)
  case (1 n)
  then show ?case
    by (subst (asm) (2) nat_digits.simps) (auto split: if_splits)
qed

lemma length_nat_digits: "n < 10 ^ Suc k \<Longrightarrow> length (nat_digits n) \<le> Suc k"
proof (induction k arbitrary: n)
  case 0
  then show ?case by (subst nat_digits.simps) simp
next
  case (Suc k)
  then have "n div 10 < 10 ^ Suc k" by (simp add: less_mult_imp_div_less mult.commute)
  with Suc.IH [of "n div 10"] show ?case
    by (subst nat_digits.simps) simp
qed

lemma set_int_text: "c \<in> set (int_text i) \<Longrightarrow> c < 0x3A"
  using set_nat_digits by (fastforce simp: int_text_def split: if_splits)

lemma scalar_int_text [simp]: "list_all scalar (int_text i)"
  using set_int_text [of _ i] by (force simp: list_all_iff intro: scalar_small)

lemma utf8_length_int_text:
  assumes "0 \<le> i" and "i \<le> 9007199254740991"
  shows "utf8_length (int_text i) \<le> 16"
proof -
  have "utf8_length (int_text i) = length (int_text i)"
    by (rule utf8_length_ascii) (use set_int_text in fastforce)
  moreover have "length (nat_digits (nat i)) \<le> Suc 15"
    by (rule length_nat_digits) (use assms in simp)
  ultimately show ?thesis using assms(1) by (simp add: int_text_def)
qed

text \<open>The payloads that the server builds: kind and source are literals of its own.\<close>

lemma utf8_length_json_key: "utf8_length (json_string (py s)) \<le> 6 * length s + 2"
  using utf8_length_json_string [of "py s"] by simp

lemma json_string_unfold: "json_string s = 0x22 # concat (map json_char s) @ [0x22]"
  by (simp add: json_string_def)

lemma json_payload_body:
  "json_bytes rt (payload_fields key kind source sms obs title body)
     = json_bytes rt (payload_fields key kind source sms obs title [])
       + utf8_length (concat (map json_char body))"
  by (simp add: json_bytes_def payload_fields_def json_string_unfold utf8_length_concat)

lemma scalar_payload:
  "list_all scalar (json rt (payload_fields key kind source sms obs title body))
     \<longleftrightarrow> (\<forall>s \<in> {key, kind, source, title, body}. list_all scalar s)"
  by (auto simp: payload_fields_def scalar_json_string scalar_small scalar_join_comma)

lemma encode_payload:
  "encode (json rt p) = (if list_all scalar (json rt p) then Inr (concat (map utf8_char (json rt p))) else Inl ValueError)"
  by (simp add: encode_def)

lemma length_encode: "encode (json rt p) = Inr b \<Longrightarrow> length b = json_bytes rt p"
  by (auto simp: encode_Inr_iff json_bytes_def utf8_length_def)

lemma envelope_fits:
  assumes "length key \<le> 64" and "length kind \<le> 10" and "length source \<le> 7" and "length title \<le> 120"
    and "0 \<le> sms" "sms \<le> 9007199254740991" and "0 \<le> obs" "obs \<le> 9007199254740991"
  shows "json_bytes rt (payload_fields key kind source sms obs title []) \<le> MAX_PAYLOAD"
proof -
  note bounds = utf8_length_json_string [of key] utf8_length_json_string [of kind]
    utf8_length_json_string [of source] utf8_length_json_string [of title]
    utf8_length_int_text [OF assms(5,6)] utf8_length_int_text [OF assms(7,8)]
    utf8_length_json_key [of "''schemaVersion''"] utf8_length_json_key [of "''eventKey''"]
    utf8_length_json_key [of "''kind''"] utf8_length_json_key [of "''source''"]
    utf8_length_json_key [of "''sourceTimestampMs''"] utf8_length_json_key [of "''observedAtMs''"]
    utf8_length_json_key [of "''title''"] utf8_length_json_key [of "''body''"]
    utf8_length_json_key [of "''url''"] utf8_length_json_key [of "''/''"]
    utf8_length_json_string [of "[]"] utf8_length_int_text [of 1]
  have colon: "length (utf8_char c) = 1" if "c \<in> {0x2C, 0x3A, 0x7B, 0x7D}" for c
    using that by (auto simp: utf8_char_def)
  have "json_bytes rt (payload_fields key kind source sms obs title []) \<le> 2500"
    unfolding json_bytes_def payload_fields_def dumps.simps list.map prod.case join_comma.simps
      utf8_length_simps
    using bounds assms(1-4) by (simp add: colon)
  then show ?thesis by (simp add: MAX_PAYLOAD_def)
qed

lemma body_of_payload [simp]:
  "py_item (payload_fields key kind source sms obs title body) ''body'' = PyStr body"
  by (simp add: payload_fields_def py_item_def)

lemma set_body_of_payload [simp]:
  "py_set_item ''body'' (PyStr b) (payload_fields key kind source sms obs title body)
     = payload_fields key kind source sms obs title b"
  by (simp add: payload_fields_def py_set_item_def)

text \<open>The loop stops at the longest prefix of the body that fits.\<close>

lemma trim_body_stops:
  assumes "json_bytes rt (payload_fields key kind source sms obs title []) \<le> MAX_PAYLOAD"
    and "\<forall>s \<in> {key, kind, source, title, body}. list_all scalar s"
  shows "\<exists>n \<le> length body.
    trim_body rt (payload_fields key kind source sms obs title body)
      = Some (Inr (payload_fields key kind source sms obs title (take n body)))
    \<and> json_bytes rt (payload_fields key kind source sms obs title (take n body)) \<le> MAX_PAYLOAD
    \<and> (n < length body \<longrightarrow>
        MAX_PAYLOAD < json_bytes rt (payload_fields key kind source sms obs title (take (Suc n) body)))"
  using assms(2)
proof (induction body rule: rev_induct)
  case Nil
  with assms(1) have "trim_body rt (payload_fields key kind source sms obs title [])
      = Some (Inr (payload_fields key kind source sms obs title []))"
    by (subst trim_body.simps)
       (auto simp: scalar_payload encode_payload json_bytes_def utf8_length_def)
  with assms(1) show ?case by simp
next
  case (snoc c cs)
  let ?P = "payload_fields key kind source sms obs title"
  have enc: "encode (json rt (?P (cs @ [c]))) = Inr (concat (map utf8_char (json rt (?P (cs @ [c])))))"
    using snoc.prems by (simp add: encode_payload scalar_payload)
  note len = length_encode [OF enc]
  show ?case
  proof (cases "json_bytes rt (?P (cs @ [c])) \<le> MAX_PAYLOAD")
    case True
    then have "trim_body rt (?P (cs @ [c])) = Some (Inr (?P (cs @ [c])))"
      by (subst trim_body.simps) (simp add: enc len)
    with True show ?thesis by (intro exI [of _ "Suc (length cs)"]) simp
  next
    case False
    then have step: "trim_body rt (?P (cs @ [c])) = trim_body rt (?P cs)"
      by (subst trim_body.simps) (simp add: enc len)
    from snoc obtain n where n: "n \<le> length cs"
      "trim_body rt (?P cs) = Some (Inr (?P (take n cs)))" "json_bytes rt (?P (take n cs)) \<le> MAX_PAYLOAD"
      "n < length cs \<longrightarrow> MAX_PAYLOAD < json_bytes rt (?P (take (Suc n) cs))"
      by auto
    with False step show ?thesis
      by (intro exI [of _ n]) (cases "n = length cs", auto)
  qed
qed

lemma trim_body_raises:
  assumes "\<not> (\<forall>s \<in> {key, kind, source, title, body}. list_all scalar s)"
  shows "trim_body rt (payload_fields key kind source sms obs title body) = Some (Inl ValueError)"
proof -
  from assms have "encode (json rt (payload_fields key kind source sms obs title body)) = Inl ValueError"
    unfolding encode_payload scalar_payload by (rule if_not_P)
  then show ?thesis by (subst trim_body.simps) simp
qed

section \<open>What validation accepts\<close>

text \<open>The kinds of notification with their sources, as the server builds and checks them.\<close>

definition server_source :: "string \<Rightarrow> string \<Rightarrow> bool" where
  "server_source kind source \<longleftrightarrow>
     (kind, source) \<in> {(''native'', ''victron''), (''native'', ''system''), (''ev'', ''victron''),
       (''water'', ''victron''), (''lowBattery'', ''victron''), (''test'', ''system'')}"

definition time_range :: "int \<Rightarrow> bool" where
  "time_range t \<longleftrightarrow> 0 < t \<and> t \<le> MAX_SAFE_INTEGER"

lemma time_ok_iff: "time_ok v \<longleftrightarrow> (\<exists>t. v = PyInt t \<and> time_range t)"
  by (cases v) (auto simp: time_ok_def time_range_def MAX_SAFE_INTEGER_def)

lemma text_ok_iff: "text_ok v n \<longleftrightarrow> (\<exists>s. v = PyStr s \<and> length s \<le> n)"
  by (cases v) (auto simp: text_ok_def)

lemma as_int_one: "as_int v = Some 1 \<and> \<not> is_bool v \<longleftrightarrow> v = PyInt 1"
  by (cases v) auto

lemma as_str_Some [simp]: "as_str v = Some s \<longleftrightarrow> v = PyStr s"
  by (cases v) auto

lemma kind_sources_iff:
  "v \<in> kind_sources k \<longleftrightarrow> (\<exists>kind source. k = py kind \<and> v = pylit source \<and> server_source kind source)"
  by (auto simp: kind_sources_def server_source_def)

definition valid_payload :: "runtime \<Rightarrow> pyval \<Rightarrow> bool" where
  "valid_payload rt v \<longleftrightarrow>
     (\<exists>kvs kind source key title body sms obs. v = PyDict kvs \<and> set (map fst kvs) = required
        \<and> py_item v ''schemaVersion'' = PyInt 1 \<and> py_item v ''url'' = pylit ''/''
        \<and> py_item v ''kind'' = pylit kind \<and> py_item v ''source'' = pylit source
        \<and> server_source kind source
        \<and> py_item v ''eventKey'' = PyStr key \<and> hex64 key
        \<and> py_item v ''title'' = PyStr title \<and> length title \<le> 120
        \<and> py_item v ''body'' = PyStr body \<and> length body \<le> 1000
        \<and> py_item v ''sourceTimestampMs'' = PyInt sms \<and> time_range sms
        \<and> py_item v ''observedAtMs'' = PyInt obs \<and> time_range obs
        \<and> list_all scalar (json rt v) \<and> json_bytes rt v \<le> MAX_PAYLOAD)"

lemma validate_fields_Inr_iff:
  "validate_payload_fields rt v = Inr u \<longleftrightarrow>
     (\<exists>key title body sms obs.
        py_item v ''eventKey'' = PyStr key \<and> hex64 key
        \<and> py_item v ''title'' = PyStr title \<and> length title \<le> 120
        \<and> py_item v ''body'' = PyStr body \<and> length body \<le> 1000
        \<and> py_item v ''sourceTimestampMs'' = PyInt sms \<and> time_range sms
        \<and> py_item v ''observedAtMs'' = PyInt obs \<and> time_range obs
        \<and> list_all scalar (json rt v) \<and> json_bytes rt v \<le> MAX_PAYLOAD)"
proof (cases "list_all scalar (json rt v)")
  case True
  have "length key \<le> 64" if "hex64 key" for key using that by (simp add: hex64_def)
  with True show ?thesis
    unfolding validate_payload_fields_def
    by (auto simp: text_ok_iff time_ok_iff encode_payload json_bytes_def utf8_length_def not_less
        split: if_splits)
next
  case False
  then show ?thesis
    by (auto simp: validate_payload_fields_def encode_payload split: if_splits)
qed

lemma validate_Inr_iff: "validate_persisted_payload rt v = Inr () \<longleftrightarrow> valid_payload rt v"
proof (cases v)
  case (PyDict kvs)
  have hash: "hashable (py_item v ''source'')" if "py_item v ''source'' = pylit s" for s
    using that by simp
  show ?thesis
    unfolding validate_persisted_payload_def valid_payload_def PyDict pyval.case
    using as_int_one [of "py_item v ''schemaVersion''"] hash
    by (auto simp: PyDict kind_sources_iff validate_fields_Inr_iff split: if_splits option.splits)
qed (simp_all add: validate_persisted_payload_def valid_payload_def)

lemma validate_fields_fails: "validate_payload_fields rt v \<in> {Inr (), Inl ValueError}"
  by (simp add: validate_payload_fields_def encode_def)

lemma validate_fails:
  "validate_persisted_payload rt v \<in> {Inr (), Inl ValueError, Inl PyTypeError}"
  using validate_fields_fails [of rt v]
  by (auto simp: validate_persisted_payload_def split: pyval.splits option.splits)

section \<open>What is built\<close>

definition message_ok :: "pystring \<Rightarrow> pystring \<Rightarrow> pystring \<Rightarrow> bool" where
  "message_ok ident title body \<longleftrightarrow>
     list_all scalar ident \<and> list_all scalar (take 120 title) \<and> list_all scalar (take 1000 body)"

definition identity_bytes :: "pystring \<Rightarrow> pystring \<Rightarrow> pystring \<Rightarrow> int \<Rightarrow> 8 word list" where
  "identity_bytes kind source ident sms =
     concat (map utf8_char
       (dumps (\<lambda>_. []) (PyList [PyStr kind, PyStr source, PyStr ident, PyInt sms])))"

lemma encode_identity:
  "encode (json rt (PyList [PyStr (py kind), PyStr (py source), PyStr ident, PyInt sms]))
     = (if list_all scalar ident then Inr (identity_bytes (py kind) (py source) ident sms)
        else Inl ValueError)"
  unfolding encode_def identity_bytes_def
  by (simp add: scalar_join_comma scalar_json_string scalar_small)

lemma server_source_lengths: "server_source kind source \<Longrightarrow> length kind \<le> 10 \<and> length source \<le> 7"
  by (auto simp: server_source_def)

lemma hex64_scalar: "hex64 key \<Longrightarrow> list_all scalar key"
  by (auto simp: hex64_def list_all_iff intro!: scalar_small)

lemma event_payload_cases:
  fixes ident title body :: pystring
  assumes "server_source kind source" and "time_range sms" and "time_range (py_int (now * 1000))"
    and digest: "\<And>b. hex64 (sha256_hex rt b)"
  defines "P \<equiv> payload_fields (sha256_hex rt (identity_bytes (py kind) (py source) ident sms))
      (py kind) (py source) sms (py_int (now * 1000)) (take 120 title)"
  shows "if message_ok ident title body
    then (\<exists>n \<le> length (take 1000 body).
      event_payload rt (py kind) (py source) ident sms now title body
        = Some (Inr (P (take n (take 1000 body))))
      \<and> json_bytes rt (P (take n (take 1000 body))) \<le> MAX_PAYLOAD
      \<and> (n < length (take 1000 body) \<longrightarrow>
            MAX_PAYLOAD < json_bytes rt (P (take (Suc n) (take 1000 body)))))
    else event_payload rt (py kind) (py source) ident sms now title body = Some (Inl ValueError)"
proof (cases "message_ok ident title body")
  case True
  then have body: "event_payload rt (py kind) (py source) ident sms now title body
      = trim_body rt (P (take 1000 body))"
    by (simp add: event_payload_def encode_identity P_def message_ok_def del: dumps.simps)
  have envelope: "json_bytes rt (P []) \<le> MAX_PAYLOAD"
    unfolding P_def
    by (rule envelope_fits)
       (use assms(1-4) server_source_lengths in
         \<open>auto simp: hex64_def time_range_def MAX_SAFE_INTEGER_def\<close>)
  have encodable: "\<forall>s \<in> {sha256_hex rt (identity_bytes (py kind) (py source) ident sms),
      py kind, py source, take 120 title, take 1000 body}. list_all scalar s"
    using True digest hex64_scalar by (simp add: message_ok_def)
  note trim_body_stops [OF envelope [unfolded P_def] encodable]
  with True show ?thesis
    unfolding body P_def by (simp only: if_True)
next
  case False
  then have "event_payload rt (py kind) (py source) ident sms now title body = Some (Inl ValueError)"
    by (auto simp: event_payload_def encode_identity message_ok_def simp del: dumps.simps
        intro!: trim_body_raises)
  with False show ?thesis by simp
qed

lemma valid_built:
  assumes "server_source kind source" and "time_range sms" and "time_range obs" and "hex64 key"
    and "length title \<le> 120" and "length body \<le> 1000" and "list_all scalar title" "list_all scalar body"
    and "json_bytes rt (payload_fields key (py kind) (py source) sms obs title body) \<le> MAX_PAYLOAD"
  shows "valid_payload rt (payload_fields key (py kind) (py source) sms obs title body)"
proof -
  let ?p = "payload_fields key (py kind) (py source) sms obs title body"
  have enc: "list_all scalar (json rt ?p)"
    using assms hex64_scalar by (simp add: scalar_payload)
  have "set (map fst (py_items ?p)) = required"
    by (simp add: payload_fields_def required_def)
  moreover have "?p = PyDict (py_items ?p)" by (simp add: payload_fields_def)
  moreover have "py_item ?p ''schemaVersion'' = PyInt 1" "py_item ?p ''url'' = pylit ''/''"
    "py_item ?p ''kind'' = pylit kind" "py_item ?p ''source'' = pylit source"
    "py_item ?p ''eventKey'' = PyStr key" "py_item ?p ''title'' = PyStr title"
    "py_item ?p ''sourceTimestampMs'' = PyInt sms" "py_item ?p ''observedAtMs'' = PyInt obs"
    by (simp_all add: payload_fields_def py_item_def)
  ultimately show ?thesis
    unfolding valid_payload_def using enc assms body_of_payload by (metis (no_types, lifting))
qed

section \<open>What the browser makes of it\<close>

definition payload_text :: "pyval \<Rightarrow> string \<Rightarrow> pystring" where
  "payload_text v k = py_chars (py_item v k)"

definition payload_time :: "pyval \<Rightarrow> string \<Rightarrow> int" where
  "payload_time v k = (case as_int (py_item v k) of None \<Rightarrow> 0 | Some i \<Rightarrow> i)"

definition worker_event :: "pyval \<Rightarrow> event" where
  "worker_event v =
     \<lparr>ev_key = utf16 (payload_text v ''eventKey''), ev_title = utf16 (payload_text v ''title''),
      ev_body = utf16 (payload_text v ''body''), ev_timestamp = payload_time v ''sourceTimestampMs''\<rparr>"

lemma map_of_utf16:
  assumes "fst ` set kvs \<subseteq> range py"
  shows "map_of (map (\<lambda>(k, v). (utf16 k, to_js v)) kvs) (js p) = map_option to_js (map_of kvs (py p))"
  using assms by (induction kvs) auto

lemma js_get_to_js:
  assumes "set (map fst kvs) = required" and "py_item (PyDict kvs) p = x" and "x \<noteq> PyNone"
  shows "js_get (to_js (PyDict kvs)) p = to_js x"
proof -
  have "fst ` set kvs \<subseteq> range py" using assms(1) by (auto simp: required_def)
  from map_of_utf16 [OF this, of p] show ?thesis
    using assms(2,3) by (auto simp: py_item_def split: option.splits)
qed

lemma scalar_item:
  assumes "list_all scalar (json rt (PyDict kvs))" and "py_item (PyDict kvs) k = PyStr s"
  shows "list_all scalar s"
proof -
  from assms(2) have "(py k, PyStr s) \<in> set kvs"
    by (auto simp: py_item_def dest: map_of_SomeD split: option.splits)
  with assms(1) show ?thesis
    by (force simp: scalar_join_comma scalar_json_string)
qed

lemma hex64_utf16: "hex64 key \<Longrightarrow> hex_exactly 64 (utf16 key)"
proof -
  have digit: "utf16_char c = [of_nat c] \<and> is_lower_hex (of_nat c)"
    if "0x61 \<le> c \<and> c \<le> 0x66 \<or> 0x30 \<le> c \<and> c \<le> 0x39" for c
  proof -
    from that have "c < 0x10000" by auto
    with that unat_of_nat_16 [of c] show ?thesis
      by (auto simp: utf16_char_def is_lower_hex_def is_digit_def word_le_nat_alt)
  qed
  have "length (utf16 s) = length s \<and> list_all is_lower_hex (utf16 s)"
    if "list_all (\<lambda>c. 0x61 \<le> c \<and> c \<le> 0x66 \<or> 0x30 \<le> c \<and> c \<le> 0x39) s" for s
    using that
  proof (induction s)
    case (Cons c s)
    with digit [of c] show ?case by simp
  qed simp
  then show "hex64 key \<Longrightarrow> hex_exactly 64 (utf16 key)"
    by (auto simp: hex64_def hex_exactly_def)
qed

lemma server_source_allowed: "server_source kind source \<Longrightarrow> source_allowed kind source"
  by (auto simp: server_source_def source_allowed_def)

lemma worker_reads_payload:
  assumes "valid_payload rt v"
  shows "well_formed_push now (to_js v) e \<longleftrightarrow>
    e = worker_event v \<and> payload_text v ''title'' \<noteq> []
    \<and> fresh now (payload_time v ''sourceTimestampMs'') \<and> fresh now (payload_time v ''observedAtMs'')"
proof -
  from assms obtain kvs kind source key title body sms obs where v:
    "v = PyDict kvs" "set (map fst kvs) = required"
    "py_item v ''schemaVersion'' = PyInt 1" "py_item v ''url'' = pylit ''/''"
    "py_item v ''kind'' = pylit kind" "py_item v ''source'' = pylit source" "server_source kind source"
    "py_item v ''eventKey'' = PyStr key" "hex64 key"
    "py_item v ''title'' = PyStr title" "length title \<le> 120"
    "py_item v ''body'' = PyStr body" "length body \<le> 1000"
    "py_item v ''sourceTimestampMs'' = PyInt sms" "py_item v ''observedAtMs'' = PyInt obs"
    "list_all scalar (json rt v)"
    unfolding valid_payload_def by blast
  note get = js_get_to_js [OF v(2), folded v(1)]
  have fields: "js_get (to_js v) ''schemaVersion'' = jint 1" "js_get (to_js v) ''url'' = jlit ''/''"
    "js_get (to_js v) ''kind'' = jlit kind" "js_get (to_js v) ''source'' = jlit source"
    "js_get (to_js v) ''eventKey'' = JStr (utf16 key)" "js_get (to_js v) ''title'' = JStr (utf16 title)"
    "js_get (to_js v) ''body'' = JStr (utf16 body)"
    "js_get (to_js v) ''sourceTimestampMs'' = jint sms" "js_get (to_js v) ''observedAtMs'' = jint obs"
    using get [OF v(3)] get [OF v(4)] get [OF v(5)] get [OF v(6)] get [OF v(8)] get [OF v(10)]
      get [OF v(12)] get [OF v(14)] get [OF v(15)] by simp_all
  have lengths: "array_from_length (utf16 title) = length title" "array_from_length (utf16 body) = length body"
    using scalar_item [of rt kvs] v by (simp_all add: array_from_length_utf16)
  have event: "worker_event v
      = \<lparr>ev_key = utf16 key, ev_title = utf16 title, ev_body = utf16 body, ev_timestamp = sms\<rparr>"
    "payload_text v ''title'' = title" "payload_time v ''sourceTimestampMs'' = sms"
    "payload_time v ''observedAtMs'' = obs"
    by (simp_all add: worker_event_def payload_text_def payload_time_def v(8,10,12,14,15))
  have "Suc 0 \<le> length title \<longleftrightarrow> title \<noteq> []" by (cases title) simp_all
  then show ?thesis
    unfolding well_formed_push_def fields event
    using hex64_utf16 [OF v(9)] server_source_allowed [OF v(7)] v(11,13) lengths
    by (cases e) auto
qed

section \<open>Properties\<close>

definition demo_runtime :: runtime where
  "demo_runtime = \<lparr>sha256_hex = (\<lambda>_. replicate 64 0x61), float_repr = (\<lambda>_. py ''0.0''),
     str_of = (\<lambda>_. []), format_g = (\<lambda>_. py ''19''), from_iso = (\<lambda>_. Some 1700000000)\<rparr>"

lemma sha256_demo [simp]: "sha256_hex demo_runtime b = replicate 64 0x61"
  by (simp add: demo_runtime_def)

lemma demo_digest: "hex64 (sha256_hex demo_runtime b)"
  by (simp add: hex64_def list_all_iff)

lemma event_payload_no_body:
  assumes "server_source kind source" and "time_range sms" and "time_range (py_int (now * 1000))"
    and "\<And>b. hex64 (sha256_hex rt b)" and "list_all scalar ident" and "list_all scalar (take 120 title)"
  shows "event_payload rt (py kind) (py source) ident sms now title []
    = Some (Inr (payload_fields (sha256_hex rt (identity_bytes (py kind) (py source) ident sms))
        (py kind) (py source) sms (py_int (now * 1000)) (take 120 title) []))"
  using event_payload_cases [OF assms(1-4), of ident title "[]"] assms(5,6) by (simp add: message_ok_def)

lemma built_cases:
  assumes "server_source kind source" and "time_range sms" and "time_range (py_int (now * 1000))"
    and "\<And>b. hex64 (sha256_hex rt b)"
    and "event_payload rt (py kind) (py source) ident sms now title body = Some (Inr p)"
  obtains n where "message_ok ident title body"
    "p = payload_fields (sha256_hex rt (identity_bytes (py kind) (py source) ident sms))
           (py kind) (py source) sms (py_int (now * 1000)) (take 120 title) (take n (take 1000 body))"
    "json_bytes rt p \<le> MAX_PAYLOAD"
  using event_payload_cases [OF assms(1-4), of ident title body] assms(5) by (auto split: if_splits)

lemma built_valid:
  assumes "server_source kind source" and "time_range sms" and "time_range (py_int (now * 1000))"
    and "\<And>b. hex64 (sha256_hex rt b)"
    and "event_payload rt (py kind) (py source) ident sms now title body = Some (Inr p)"
  shows "valid_payload rt p"
proof -
  from built_cases [OF assms] obtain n where n: "message_ok ident title body"
    "p = payload_fields (sha256_hex rt (identity_bytes (py kind) (py source) ident sms))
           (py kind) (py source) sms (py_int (now * 1000)) (take 120 title) (take n (take 1000 body))"
    "json_bytes rt p \<le> MAX_PAYLOAD" .
  from n(1) have "list_all scalar (take n (take 1000 body))"
    by (auto simp: message_ok_def list_all_iff simp del: take_take dest: in_set_takeD)
  with n assms(1-4) show ?thesis
    by (auto simp: message_ok_def intro!: valid_built)
qed

text \<open>C15: event_payload returns, with at most 3072 bytes and the longest prefix of the body that
  fits, or raises exactly when the identifier, the cut title or the cut body has a lone surrogate.\<close>

theorem event_payload_fits:
  fixes ident title body :: pystring
  assumes "server_source kind source" and "time_range sms" and "time_range (py_int (now * 1000))"
    and "\<And>b. hex64 (sha256_hex rt b)"
  defines "P \<equiv> payload_fields (sha256_hex rt (identity_bytes (py kind) (py source) ident sms))
      (py kind) (py source) sms (py_int (now * 1000)) (take 120 title)"
  shows "if message_ok ident title body
    then (\<exists>n \<le> length (take 1000 body).
      event_payload rt (py kind) (py source) ident sms now title body
        = Some (Inr (P (take n (take 1000 body))))
      \<and> json_bytes rt (P (take n (take 1000 body))) \<le> MAX_PAYLOAD
      \<and> (n < length (take 1000 body) \<longrightarrow>
            MAX_PAYLOAD < json_bytes rt (P (take (Suc n) (take 1000 body)))))
    else event_payload rt (py kind) (py source) ident sms now title body = Some (Inl ValueError)"
  unfolding P_def by (rule event_payload_cases [OF assms(1-4)])

lemma event_payload_fits_witness:
  "event_payload demo_runtime (py ''ev'') (py ''victron'') (py ''x'') 1700000000000 1700000000
     [0xD800] (py ''b'') = Some (Inl ValueError)"
  using event_payload_fits [of "''ev''" "''victron''" 1700000000000 1700000000 demo_runtime
      "py ''x''" "[0xD800]" "py ''b''", OF _ _ _ demo_digest]
  by (simp add: server_source_def time_range_def MAX_SAFE_INTEGER_def py_int_def message_ok_def scalar_def
      split: if_splits)

text \<open>A payload that event_payload built passes validate_persisted_payload when it is read back.\<close>

theorem built_payload_validates:
  assumes "server_source kind source" and "time_range sms" and "time_range (py_int (now * 1000))"
    and "\<And>b. hex64 (sha256_hex rt b)"
    and "event_payload rt (py kind) (py source) ident sms now title body = Some (Inr p)"
  shows "validate_persisted_payload rt p = Inr ()"
  using built_valid [OF assms] by (simp add: validate_Inr_iff)

lemma demo_payload:
  "event_payload demo_runtime (py ''test'') (py ''system'') (py ''x'') 1700000000000 1700000000 title []
     = (if list_all scalar (take 120 title)
        then Some (Inr (payload_fields (replicate 64 0x61) (py ''test'') (py ''system'') 1700000000000
               1700000000000 (take 120 title) []))
        else Some (Inl ValueError))"
  using event_payload_cases [of "''test''" "''system''" 1700000000000 1700000000 demo_runtime
      "py ''x''" title "[]", OF _ _ _ demo_digest]
  by (simp add: server_source_def time_range_def MAX_SAFE_INTEGER_def py_int_def message_ok_def split: if_splits)

lemma built_payload_validates_witness:
  "validate_persisted_payload demo_runtime
     (payload_fields (replicate 64 0x61) (py ''test'') (py ''system'') 1700000000000 1700000000000
       (py ''t'') []) = Inr ()"
  by (rule built_payload_validates [OF _ _ _ demo_digest,
      of "''test''" "''system''" 1700000000000 1700000000 "py ''x''" "py ''t''" "[]"])
     (simp_all add: demo_payload server_source_def time_range_def MAX_SAFE_INTEGER_def py_int_def
       take_Cons' scalar_of_char)

text \<open>C14: What the server accepts as a stored payload the service worker reads as exactly that event,
  or rejects only because its title is empty or a timestamp is not fresh.\<close>

theorem validated_payload_at_worker:
  assumes "validate_persisted_payload rt v = Inr ()"
  shows "normalizedEvent now (to_js v) =
    (if payload_text v ''title'' \<noteq> [] \<and> fresh now (payload_time v ''sourceTimestampMs'')
        \<and> fresh now (payload_time v ''observedAtMs'')
     then Some (worker_event v) else None)"
proof (cases "normalizedEvent now (to_js v)")
  case None
  then have "\<not> well_formed_push now (to_js v) (worker_event v)"
    by (simp add: normalizedEvent_iff [symmetric])
  with None assms show ?thesis
    by (auto simp: validate_Inr_iff worker_reads_payload)
next
  case (Some e)
  with assms show ?thesis
    by (auto simp: validate_Inr_iff normalizedEvent_iff worker_reads_payload)
qed

lemma untitled_validates:
  "validate_persisted_payload demo_runtime
     (payload_fields (replicate 64 0x61) (py ''test'') (py ''system'') 1700000000000 1700000000000 [] [])
   = Inr ()"
  unfolding validate_Inr_iff
  by (rule built_valid [OF _ _ _ demo_digest,
      of "''test''" "''system''" 1700000000000 1700000000 "py ''x''" "[]" "[]"])
     (simp_all add: demo_payload server_source_def time_range_def MAX_SAFE_INTEGER_def py_int_def)

lemma validated_payload_at_worker_witness:
  "normalizedEvent 1700000000007
     (to_js (payload_fields (replicate 64 0x61) (py ''test'') (py ''system'') 1700000000000 1700000000000
       [] [])) = None"
  unfolding validated_payload_at_worker [OF untitled_validates]
  by (simp add: payload_text_def py_item_def payload_fields_def)

end
