(* ===== verification/PushStore.thy ===== *)
theory PushStore
  imports PushPayload
begin

text \<open>
  The SQLite store of the push pipeline (\<open>push_store.py\<close>, lines 17-22 and 172-309): the event
  identities seen, the subscriptions, and the outbox of deliveries, each a list in the order of
  its rows. \<open>with self.db\<close> is \<open>with_db\<close>: what its block raises rolls the block back, and a
  commit that fails (the flag \<open>disk\<close> is false) raises with the store unchanged. A text column
  that holds a JSON document is kept as the document, since only \<open>json.dumps\<close> writes it and
  only \<open>json.loads\<close> reads it. Times are seconds.
\<close>

definition MAX_SUBSCRIPTIONS :: nat where
  "MAX_SUBSCRIPTIONS = 64"

definition MAX_REMEMBERED :: nat where
  "MAX_REMEMBERED = 4096"

definition MAX_DELIVERIES :: nat where
  "MAX_DELIVERIES = 1024"

section \<open>Tables\<close>

record subscription =
  endpoint :: pystring
  p256dh :: pystring
  auth :: pystring

record subscriber =
  s_id :: pystring
  s_subscription :: subscription
  s_preferences :: pyval
  s_updated_at :: rat
  s_last_test_at :: rat

text \<open>A row of \<open>events\<close>, ordered as \<open>ORDER BY observed_at, id\<close> does.\<close>

datatype remembered = Remembered (observed_at: rat) (r_id: pystring)

instantiation remembered :: linorder
begin

definition less_eq_remembered :: "remembered \<Rightarrow> remembered \<Rightarrow> bool" where
  "less_eq_remembered r q \<longleftrightarrow> (observed_at r, r_id r) \<le> (observed_at q, r_id q)"

definition less_remembered :: "remembered \<Rightarrow> remembered \<Rightarrow> bool" where
  "less_remembered r q \<longleftrightarrow> (observed_at r, r_id r) < (observed_at q, r_id q)"

instance
  by standard (auto simp: less_eq_remembered_def less_remembered_def remembered.expand)

end

record delivery =
  d_event :: pystring
  d_subscription :: pystring
  d_payload :: pyval
  d_expires_at :: rat
  d_next_at :: rat
  d_attempts :: nat
  d_epoch :: pystring

record push_store =
  remembered :: "remembered list"
  subscribers :: "subscriber list"
  deliveries :: "delivery list"

abbreviation row_key :: "delivery \<Rightarrow> pystring \<times> pystring" where
  "row_key d \<equiv> (d_event d, d_subscription d)"

definition with_db ::
  "bool \<Rightarrow> (push_store \<Rightarrow> push_store \<times> 'a outcome) \<Rightarrow> push_store \<Rightarrow> push_store \<times> 'a outcome" where
  "with_db disk block st =
     (case block st of
        (st1, Inl e) \<Rightarrow> (st, Inl e)
      | (st1, Inr a) \<Rightarrow> if disk then (st1, Inr a) else (st, Inl OperationalError))"

section \<open>Subscriptions\<close>

definition get :: "push_store \<Rightarrow> pystring \<Rightarrow> subscriber option" where
  "get st i = find (\<lambda>s. s_id s = i) (subscribers st)"

definition subscriptions :: "push_store \<Rightarrow> subscriber list" where
  "subscriptions st = sort_key s_id (subscribers st)"

text \<open>\<open>INSERT ... ON CONFLICT(id) DO UPDATE\<close> keeps the row and its \<open>last_test_at\<close>.\<close>

definition upsert :: "pystring \<Rightarrow> subscription \<Rightarrow> pyval \<Rightarrow> rat \<Rightarrow> subscriber list \<Rightarrow> subscriber list" where
  "upsert i sub prefs now ss =
     (if i \<in> s_id ` set ss
      then map (\<lambda>s. if s_id s = i
                  then s\<lparr>s_subscription := sub, s_preferences := prefs, s_updated_at := now\<rparr> else s) ss
      else ss @ [\<lparr>s_id = i, s_subscription = sub, s_preferences = prefs, s_updated_at = now,
                  s_last_test_at = 0\<rparr>])"

definition register ::
  "runtime \<Rightarrow> bool \<Rightarrow> subscription \<Rightarrow> pyval \<Rightarrow> rat \<Rightarrow> push_store \<Rightarrow> push_store \<times> pystring outcome" where
  "register rt disk sub prefs now st =
     (case encode (endpoint sub) of
        Inl e \<Rightarrow> (st, Inl e)
      | Inr b \<Rightarrow>
          let i = sha256_hex rt b in
          with_db disk (\<lambda>st.
            if (case get st i of None \<Rightarrow> False | Some current \<Rightarrow> s_subscription current \<noteq> sub)
            then (st, Inl SubscriptionConflict)
            else if get st i = None \<and> length (subscribers st) \<ge> MAX_SUBSCRIPTIONS
            then (st, Inl SubscriptionLimit)
            else (st\<lparr>subscribers := upsert i sub prefs now (subscribers st),
                     deliveries := filter (\<lambda>d. d_subscription d \<noteq> i) (deliveries st)\<rparr>, Inr i)) st)"

text \<open>The deliveries of a deleted subscription go with it (\<open>ON DELETE CASCADE\<close>).\<close>

definition delete :: "bool \<Rightarrow> pystring \<Rightarrow> push_store \<Rightarrow> push_store \<times> unit outcome" where
  "delete disk i =
     with_db disk (\<lambda>st.
       (st\<lparr>subscribers := filter (\<lambda>s. s_id s \<noteq> i) (subscribers st),
           deliveries := filter (\<lambda>d. d_subscription d \<noteq> i) (deliveries st)\<rparr>, Inr ()))"

definition allow_test :: "bool \<Rightarrow> pystring \<Rightarrow> rat \<Rightarrow> push_store \<Rightarrow> push_store \<times> bool outcome" where
  "allow_test disk i now =
     with_db disk (\<lambda>st.
       (st\<lparr>subscribers := map (\<lambda>s. if s_id s = i \<and> s_last_test_at s \<le> now - 60
              then s\<lparr>s_last_test_at := now\<rparr> else s) (subscribers st)\<rparr>,
        Inr (length (filter (\<lambda>s. s_id s = i \<and> s_last_test_at s \<le> now - 60) (subscribers st)) = 1)))"

section \<open>Event identities\<close>

definition surplus :: "remembered list \<Rightarrow> remembered list" where
  "surplus rs = drop MAX_REMEMBERED (rev (sort rs))"

definition remember_row :: "pystring \<Rightarrow> rat \<Rightarrow> push_store \<Rightarrow> push_store \<times> bool" where
  "remember_row i now st =
     (let rs = remembered st;
          new = i \<notin> r_id ` set rs;
          rs1 = (if new then rs @ [Remembered now i] else rs)
      in (st\<lparr>remembered := filter (\<lambda>r. r_id r \<notin> r_id ` set (surplus rs1)) rs1\<rparr>, new))"

definition remember :: "bool \<Rightarrow> pystring \<Rightarrow> rat \<Rightarrow> push_store \<Rightarrow> push_store \<times> bool outcome" where
  "remember disk i now =
     with_db disk (\<lambda>st. case remember_row i now st of (st1, new) \<Rightarrow> (st1, Inr new))"

section \<open>The outbox\<close>

definition expire :: "rat \<Rightarrow> push_store \<Rightarrow> push_store" where
  "expire now st = st\<lparr>deliveries := filter (\<lambda>d. \<not> d_expires_at d \<le> now) (deliveries st)\<rparr>"

definition has_delivery_capacity :: "bool \<Rightarrow> rat \<Rightarrow> push_store \<Rightarrow> push_store \<times> bool outcome" where
  "has_delivery_capacity disk now st =
     (case with_db disk (\<lambda>st. (expire now st, Inr ())) st of
        (st1, Inl e) \<Rightarrow> (st1, Inl e)
      | (st1, Inr _) \<Rightarrow> (st1, Inr (length (deliveries st1) < MAX_DELIVERIES)))"

text \<open>\<open>payload.get("sourceTimestampMs", now * 1000)\<close>; the payloads are those of
  \<open>event_payload\<close>, whose timestamp is an integer.\<close>

definition expiry :: "pyval \<Rightarrow> rat \<Rightarrow> rat" where
  "expiry payload now =
     min (now + 300)
       ((case as_int (py_item payload ''sourceTimestampMs'') of None \<Rightarrow> now * 1000 | Some t \<Rightarrow> of_int t)
         / 1000 + 300)"

text \<open>\<open>INSERT OR IGNORE\<close> skips a row whose primary key is taken, but a missing subscription
  raises.\<close>

fun insert_deliveries ::
  "pystring \<Rightarrow> pyval \<Rightarrow> rat \<Rightarrow> pystring \<Rightarrow> pystring list \<Rightarrow> push_store \<Rightarrow> push_store outcome" where
  "insert_deliveries ev payload now epoch [] st = Inr st"
| "insert_deliveries ev payload now epoch (i # is) st =
     (if (ev, i) \<in> row_key ` set (deliveries st) then insert_deliveries ev payload now epoch is st
      else if i \<notin> s_id ` set (subscribers st) then Inl IntegrityError
      else insert_deliveries ev payload now epoch is
        (st\<lparr>deliveries := deliveries st @
             [\<lparr>d_event = ev, d_subscription = i, d_payload = payload, d_expires_at = expiry payload now,
               d_next_at = now, d_attempts = 0, d_epoch = epoch\<rparr>]\<rparr>))"

definition enqueue ::
  "runtime \<Rightarrow> bool \<Rightarrow> pystring \<Rightarrow> pyval \<Rightarrow> pystring list \<Rightarrow> rat \<Rightarrow> pystring \<Rightarrow> push_store
    \<Rightarrow> push_store \<times> bool outcome" where
  "enqueue rt disk ev payload targets now epoch st =
     (case encode (json rt payload) of
        Inl e \<Rightarrow> (st, Inl e)
      | Inr encoded \<Rightarrow>
          if length encoded > MAX_PAYLOAD then (st, Inl ValueError)
          else with_db disk (\<lambda>st.
            case remember_row ev now (expire now st) of
              (st1, False) \<Rightarrow> (st1, Inr False)
            | (st1, True) \<Rightarrow>
                (case insert_deliveries ev payload now epoch
                        (take (MAX_DELIVERIES - length (deliveries st1)) targets) st1 of
                   Inl e \<Rightarrow> (st1, Inl e)
                 | Inr st2 \<Rightarrow> (st2, Inr True))) st)"

definition retire_epochs :: "bool \<Rightarrow> pystring \<Rightarrow> push_store \<Rightarrow> push_store \<times> unit outcome" where
  "retire_epochs disk epoch =
     with_db disk (\<lambda>st.
       (st\<lparr>deliveries := filter (\<lambda>d. d_epoch d \<in> {epoch, py ''test''}) (deliveries st)\<rparr>, Inr ()))"

text \<open>\<open>UPDATE deliveries SET ... WHERE event_id=? AND subscription_id=?\<close>.\<close>

definition update_row ::
  "pystring \<times> pystring \<Rightarrow> (delivery \<Rightarrow> delivery) \<Rightarrow> push_store \<Rightarrow> push_store" where
  "update_row k f st = st\<lparr>deliveries := map (\<lambda>d. if row_key d = k then f d else d) (deliveries st)\<rparr>"

text \<open>\<open>ORDER BY next_at LIMIT 1\<close>; of the rows due at the same time the first is taken, which SQL
  leaves open.\<close>

definition first_due :: "rat \<Rightarrow> delivery list \<Rightarrow> delivery option" where
  "first_due now ds =
     (case sort_key d_next_at (filter (\<lambda>d. d_next_at d \<le> now) ds) of [] \<Rightarrow> None | d # _ \<Rightarrow> Some d)"

definition next_delivery ::
  "bool \<Rightarrow> bool \<Rightarrow> bool \<Rightarrow> rat \<Rightarrow> push_store \<Rightarrow> push_store \<times> delivery option outcome" where
  "next_delivery disk disk2 claim now st =
     (case with_db disk (\<lambda>st. (expire now st, Inr ())) st of
        (st1, Inl e) \<Rightarrow> (st1, Inl e)
      | (st1, Inr _) \<Rightarrow>
          (case first_due now (deliveries st1) of
             None \<Rightarrow> (st1, Inr None)
           | Some row \<Rightarrow>
               if claim
               then with_db disk2
                 (\<lambda>st. (update_row (row_key row) (\<lambda>d. d\<lparr>d_next_at := now + 30\<rparr>) st, Inr (Some row))) st1
               else (st1, Inr (Some row))))"

definition owns_delivery :: "push_store \<Rightarrow> delivery \<Rightarrow> rat \<Rightarrow> bool" where
  "owns_delivery st delivery now =
     (case find (\<lambda>d. row_key d = row_key delivery) (deliveries st) of
        None \<Rightarrow> False
      | Some row \<Rightarrow> d_epoch row = d_epoch delivery \<and> d_attempts row = d_attempts delivery
          \<and> d_expires_at row > now)"

definition finish :: "bool \<Rightarrow> delivery \<Rightarrow> rat option \<Rightarrow> push_store \<Rightarrow> push_store \<times> unit outcome" where
  "finish disk delivery retry_at =
     with_db disk (\<lambda>st.
       case retry_at of
         None \<Rightarrow> (st\<lparr>deliveries := filter (\<lambda>d. row_key d \<noteq> row_key delivery) (deliveries st)\<rparr>, Inr ())
       | Some t \<Rightarrow>
           if d_attempts delivery \<ge> 2
           then (st\<lparr>deliveries := filter (\<lambda>d. row_key d \<noteq> row_key delivery) (deliveries st)\<rparr>, Inr ())
           else (update_row (row_key delivery) (\<lambda>d. d\<lparr>d_attempts := Suc (d_attempts d), d_next_at := t\<rparr>) st,
                 Inr ()))"

section \<open>The invariant of the store\<close>

definition db_ok :: "push_store \<Rightarrow> bool" where
  "db_ok st \<longleftrightarrow>
     distinct (map s_id (subscribers st)) \<and> length (subscribers st) \<le> MAX_SUBSCRIPTIONS
     \<and> distinct (map r_id (remembered st)) \<and> length (remembered st) \<le> MAX_REMEMBERED
     \<and> distinct (map row_key (deliveries st)) \<and> length (deliveries st) \<le> MAX_DELIVERIES
     \<and> (\<forall>d \<in> set (deliveries st). d_subscription d \<in> s_id ` set (subscribers st) \<and> d_attempts d < 3)"

lemma with_db_cases:
  obtains e where "with_db disk block st = (st, Inl e)"
  | st1 a where "disk" "block st = (st1, Inr a)" "with_db disk block st = (st1, Inr a)"
  by (cases "block st"; cases "snd (block st)"; cases disk) (auto simp: with_db_def)

lemma with_db_simps [simp]:
  "block st = (st1, Inr a) \<Longrightarrow> with_db True block st = (st1, Inr a)"
  "block st = (st1, Inl e) \<Longrightarrow> with_db disk block st = (st, Inl e)"
  by (simp_all add: with_db_def)

lemma with_db_keeps:
  assumes "I st" and "\<And>st1 a. I st \<Longrightarrow> block st = (st1, Inr a) \<Longrightarrow> I st1"
  shows "I (fst (with_db disk block st))"
  using assms by (cases rule: with_db_cases [of disk block st]) auto

lemma find_Some_iff_distinct:
  "distinct (map f xs) \<Longrightarrow> find (\<lambda>x. f x = k) xs = Some y \<longleftrightarrow> y \<in> set xs \<and> f y = k"
  by (induction xs) (auto simp: image_iff)

lemma find_None_key: "find (\<lambda>x. f x = k) xs = None \<longleftrightarrow> k \<notin> f ` set xs"
  by (auto simp: find_None_iff)

lemma distinct_map_filter': "distinct (map f xs) \<Longrightarrow> distinct (map f (filter P xs))"
  by (rule distinct_map_filter)

lemma map_key_update: "(\<And>x. f (g x) = f x) \<Longrightarrow> map f (map (\<lambda>x. if P x then g x else x) xs) = map f xs"
  by (simp add: comp_def)

lemma filter_deliveries_ok:
  "db_ok st \<Longrightarrow> db_ok (st\<lparr>deliveries := filter P (deliveries st)\<rparr>)"
  by (auto simp: db_ok_def distinct_map_filter intro: order_trans [OF length_filter_le])

lemma expire_ok: "db_ok st \<Longrightarrow> db_ok (expire now st)"
  unfolding expire_def by (rule filter_deliveries_ok)

lemma map_s_id_upsert:
  "map s_id (upsert i sub prefs now ss) = (if i \<in> s_id ` set ss then map s_id ss else map s_id ss @ [i])"
  by (simp add: upsert_def comp_def if_distrib cong: if_cong)

lemma s_id_upsert: "s_id ` set (upsert i sub prefs now ss) = insert i (s_id ` set ss)"
  using map_s_id_upsert [of i sub prefs now ss, THEN arg_cong [where f = set]] by (auto split: if_splits)

lemma length_upsert: "length (upsert i sub prefs now ss) = length ss + of_bool (i \<notin> s_id ` set ss)"
  using map_s_id_upsert [of i sub prefs now ss, THEN arg_cong [where f = length]] by simp

lemma upsert_ok:
  assumes "db_ok st" and "i \<in> s_id ` set (subscribers st) \<or> length (subscribers st) < MAX_SUBSCRIPTIONS"
  shows "db_ok (st\<lparr>subscribers := upsert i sub prefs now (subscribers st),
                      deliveries := filter P (deliveries st)\<rparr>)"
  using filter_deliveries_ok [OF assms(1), of P] assms(2)
  by (auto simp: db_ok_def map_s_id_upsert s_id_upsert length_upsert)

lemma get_None_iff: "get st i = None \<longleftrightarrow> i \<notin> s_id ` set (subscribers st)"
  by (simp add: get_def find_None_key)

lemma register_ok: "db_ok st \<Longrightarrow> db_ok (fst (register rt disk sub prefs now st))"
proof (cases "encode (endpoint sub)")
  case (Inr b)
  assume "db_ok st"
  then show ?thesis
    unfolding register_def Inr sum.case Let_def
    by (rule with_db_keeps) (auto simp: get_None_iff intro: upsert_ok split: if_splits)
qed (simp add: register_def)

lemma map_s_id_test: "map s_id (map (\<lambda>s. if P s then s\<lparr>s_last_test_at := now\<rparr> else s) ss) = map s_id ss"
  by (simp add: comp_def if_distrib cong: if_cong)

lemma same_ids_ok:
  assumes "db_ok st" and ids: "map s_id ss = map s_id (subscribers st)"
  shows "db_ok (st\<lparr>subscribers := ss\<rparr>)"
proof -
  have "length ss = length (subscribers st)" "s_id ` set ss = s_id ` set (subscribers st)"
    using ids [THEN arg_cong [where f = length]] ids [THEN arg_cong [where f = set]] by simp_all
  with assms show ?thesis by (simp add: db_ok_def)
qed

lemma allow_test_ok: "db_ok st \<Longrightarrow> db_ok (fst (allow_test disk i now st))"
  unfolding allow_test_def
  by (erule with_db_keeps) (auto intro: same_ids_ok simp only: prod.inject map_s_id_test)

lemma image_other_keys: "f ` {x \<in> A. f x \<noteq> k} = f ` A - {k}"
  by auto

lemma delete_ok: "db_ok st \<Longrightarrow> db_ok (fst (delete disk i st))"
  unfolding delete_def
  by (erule with_db_keeps)
     (auto simp: db_ok_def distinct_map_filter image_other_keys intro: order_trans [OF length_filter_le])

lemma retire_ok: "db_ok st \<Longrightarrow> db_ok (fst (retire_epochs disk epoch st))"
  unfolding retire_epochs_def
  by (erule with_db_keeps) (auto intro: filter_deliveries_ok)

text \<open>Pruning the event identities.\<close>

definition kept :: "remembered list \<Rightarrow> remembered list" where
  "kept rs = filter (\<lambda>r. r_id r \<notin> r_id ` set (surplus rs)) rs"

lemma set_kept:
  assumes "distinct (map r_id rs)"
  shows "set (kept rs) = set (take MAX_REMEMBERED (rev (sort rs)))"
proof -
  let ?l = "rev (sort rs)"
  have set: "set ?l = set rs" by simp
  have inj: "inj_on r_id (set rs)" and "distinct rs"
    using assms by (simp_all add: distinct_map)
  then have disjoint: "set (take MAX_REMEMBERED ?l) \<inter> set (drop MAX_REMEMBERED ?l) = {}"
    using set_take_disj_set_drop_if_distinct [of ?l MAX_REMEMBERED MAX_REMEMBERED] by simp
  have union: "set (take MAX_REMEMBERED ?l) \<union> set (drop MAX_REMEMBERED ?l) = set rs"
    using set_append [of "take MAX_REMEMBERED ?l" "drop MAX_REMEMBERED ?l"] set by simp
  have "r_id r \<in> r_id ` set (drop MAX_REMEMBERED ?l) \<longleftrightarrow> r \<in> set (drop MAX_REMEMBERED ?l)"
    if "r \<in> set rs" for r
    using inj that union by (auto dest: inj_onD)
  then show ?thesis
    unfolding kept_def surplus_def using disjoint union by auto
qed

lemma length_kept: "distinct (map r_id rs) \<Longrightarrow> length (kept rs) \<le> MAX_REMEMBERED"
proof -
  assume distinct: "distinct (map r_id rs)"
  then have "distinct rs" "distinct (kept rs)" by (simp_all add: distinct_map kept_def)
  with set_kept [OF distinct] have "length (kept rs) = length (take MAX_REMEMBERED (rev (sort rs)))"
    by (metis distinct_card distinct_rev distinct_sort distinct_take)
  then show ?thesis by simp
qed

lemma kept_id: "distinct (map r_id rs) \<Longrightarrow> length rs \<le> MAX_REMEMBERED \<Longrightarrow> kept rs = rs"
  by (simp add: kept_def surplus_def)

lemma remember_row_alt:
  "remember_row i now st =
     (let new = i \<notin> r_id ` set (remembered st)
      in (st\<lparr>remembered := kept (if new then remembered st @ [Remembered now i] else remembered st)\<rparr>, new))"
  by (simp add: remember_row_def kept_def Let_def)

lemma remember_row_ok: "db_ok st \<Longrightarrow> db_ok (fst (remember_row i now st))"
proof -
  assume ok: "db_ok st"
  let ?rs = "if i \<notin> r_id ` set (remembered st) then remembered st @ [Remembered now i] else remembered st"
  from ok have "distinct (map r_id ?rs)" by (auto simp: db_ok_def)
  with ok show ?thesis
    using length_kept [of ?rs]
    by (auto simp: remember_row_alt db_ok_def kept_def distinct_map_filter Let_def)
qed

lemma remember_row_frame:
  assumes "remember_row i now st = (st1, new)"
  shows "deliveries st1 = deliveries st" "subscribers st1 = subscribers st"
    "new \<longleftrightarrow> i \<notin> r_id ` set (remembered st)"
    "r_id ` set (remembered st1) \<subseteq> insert i (r_id ` set (remembered st))"
  using assms by (auto simp: remember_row_alt kept_def Let_def split: if_splits)

lemma remember_ok: "db_ok st \<Longrightarrow> db_ok (fst (remember disk i now st))"
  unfolding remember_def
  by (erule with_db_keeps) (metis (no_types, lifting) case_prod_beta fst_conv remember_row_ok)

lemma has_delivery_capacity_ok: "db_ok st \<Longrightarrow> db_ok (fst (has_delivery_capacity disk now st))"
proof -
  assume "db_ok st"
  then have "db_ok (fst (with_db disk (\<lambda>st. (expire now st, Inr ())) st))"
    by (rule with_db_keeps) (auto intro: expire_ok)
  then show ?thesis by (auto simp: has_delivery_capacity_def split: prod.splits sum.splits)
qed

lemma insert_deliveries_ok:
  assumes "db_ok st" and "length (deliveries st) + length targets \<le> MAX_DELIVERIES"
    and "insert_deliveries ev payload now epoch targets st = Inr st'"
  shows "db_ok st'"
  using assms
proof (induction ev payload now epoch targets st rule: insert_deliveries.induct)
  case (2 ev payload now epoch i "is" st)
  show ?case
  proof (cases "(ev, i) \<in> row_key ` set (deliveries st)")
    case True
    with 2 show ?thesis by simp
  next
    case False
    note new = this
    with 2(5) have i: "i \<in> s_id ` set (subscribers st)" by (auto split: if_splits)
    let ?st = "st\<lparr>deliveries := deliveries st @
      [\<lparr>d_event = ev, d_subscription = i, d_payload = payload, d_expires_at = expiry payload now,
        d_next_at = now, d_attempts = 0, d_epoch = epoch\<rparr>]\<rparr>"
    have "db_ok ?st"
      using 2(3,4) new i by (auto simp: db_ok_def)
    moreover have "insert_deliveries ev payload now epoch is ?st = Inr st'"
      using 2(5) new i by (simp split: if_splits)
    ultimately show ?thesis
      using 2(2) [OF new] 2(4) i by simp
  qed
qed simp

lemma insert_deliveries_frame:
  "insert_deliveries ev payload now epoch targets st = Inr st' \<Longrightarrow>
     remembered st' = remembered st \<and> subscribers st' = subscribers st
     \<and> (\<forall>d \<in> set (deliveries st'). d \<in> set (deliveries st)
          \<or> d_event d = ev \<and> d_payload d = payload \<and> d_subscription d \<in> set targets \<and> d_epoch d = epoch
            \<and> d_attempts d = 0 \<and> d_next_at d = now \<and> d_expires_at d = expiry payload now)"
  by (induction ev payload now epoch targets st rule: insert_deliveries.induct)
     (fastforce split: if_splits)+

text \<open>A committed \<open>enqueue\<close>, by what it returned.\<close>

lemma enqueue_cases:
  obtains e where "enqueue rt disk ev payload targets now epoch st = (st, Inl e)"
  | st1 where "remember_row ev now (expire now st) = (st1, False)"
      "enqueue rt disk ev payload targets now epoch st = (st1, Inr False)"
  | st1 st2 where "remember_row ev now (expire now st) = (st1, True)"
      "insert_deliveries ev payload now epoch (take (MAX_DELIVERIES - length (deliveries st1)) targets) st1
         = Inr st2"
      "json_bytes rt payload \<le> MAX_PAYLOAD" "list_all scalar (json rt payload)"
      "enqueue rt disk ev payload targets now epoch st = (st2, Inr True)"
proof (cases "encode (json rt payload)")
  case (Inl e)
  then show ?thesis using that(1) by (simp add: enqueue_def)
next
  case (Inr b)
  show ?thesis
  proof (cases "length b > MAX_PAYLOAD")
    case True
    with Inr show ?thesis using that(1) by (simp add: enqueue_def)
  next
    case False
    with Inr have bytes: "json_bytes rt payload \<le> MAX_PAYLOAD" "list_all scalar (json rt payload)"
      using length_encode [OF Inr] by (simp_all add: encode_Inr_iff)
    from Inr False show ?thesis
      using that(1) that(2) that(3) [OF _ _ bytes]
      by (cases rule: with_db_cases [of disk "\<lambda>st.
            case remember_row ev now (expire now st) of
              (st1, False) \<Rightarrow> (st1, Inr False)
            | (st1, True) \<Rightarrow>
                (case insert_deliveries ev payload now epoch
                        (take (MAX_DELIVERIES - length (deliveries st1)) targets) st1 of
                   Inl e \<Rightarrow> (st1, Inl e)
                 | Inr st2 \<Rightarrow> (st2, Inr True))" st])
         (auto simp: enqueue_def split: prod.splits bool.splits sum.splits)
  qed
qed

lemma enqueue_ok: "db_ok st \<Longrightarrow> db_ok (fst (enqueue rt disk ev payload targets now epoch st))"
proof -
  assume "db_ok st"
  then have ok: "db_ok (fst (remember_row ev now (expire now st)))"
    by (intro remember_row_ok expire_ok)
  then show ?thesis
  proof (cases rule: enqueue_cases [of rt disk ev payload targets now epoch st])
    case (3 st1 st2)
    with ok have "db_ok st1" by simp
    then have "length (deliveries st1) \<le> MAX_DELIVERIES" by (simp add: db_ok_def)
    then have room: "length (deliveries st1) + length (take (MAX_DELIVERIES - length (deliveries st1)) targets)
        \<le> MAX_DELIVERIES"
      by (simp add: min_def) arith
    from insert_deliveries_ok [OF \<open>db_ok st1\<close> room 3(2)] 3(5) show ?thesis by simp
  qed (use \<open>db_ok st\<close> in auto)
qed

lemma map_row_key_update:
  "(\<And>d. row_key (f d) = row_key d) \<Longrightarrow> map row_key (deliveries (update_row k f st)) = map row_key (deliveries st)"
  by (simp add: update_row_def comp_def)

lemma update_row_ok:
  assumes "db_ok st" and key: "\<And>d. row_key (f d) = row_key d"
    and attempts: "\<And>d. d \<in> set (deliveries st) \<Longrightarrow> row_key d = k \<Longrightarrow> d_attempts (f d) < 3"
  shows "db_ok (update_row k f st)"
proof -
  have sub: "d_subscription (f d) = d_subscription d" for d using key [of d] by simp
  have "map row_key (deliveries (update_row k f st)) = map row_key (deliveries st)"
    by (rule map_row_key_update [OF key])
  moreover have "length (deliveries (update_row k f st)) = length (deliveries st)"
    "remembered (update_row k f st) = remembered st" "subscribers (update_row k f st) = subscribers st"
    by (simp_all add: update_row_def)
  moreover have "\<forall>d \<in> set (deliveries (update_row k f st)).
      d_subscription d \<in> s_id ` set (subscribers st) \<and> d_attempts d < 3"
    using assms(1) attempts sub by (auto simp: update_row_def db_ok_def)
  ultimately show ?thesis using assms(1) by (simp add: db_ok_def)
qed

lemma next_delivery_ok: "db_ok st \<Longrightarrow> db_ok (fst (next_delivery disk disk2 claim now st))"
proof -
  assume "db_ok st"
  then have ok: "db_ok (fst (with_db disk (\<lambda>st. (expire now st, Inr ())) st))"
    by (rule with_db_keeps) (auto intro: expire_ok)
  have lease: "db_ok (fst (with_db disk2
      (\<lambda>st. (update_row k (\<lambda>d. d\<lparr>d_next_at := now + 30\<rparr>) st, Inr (Some row))) st1))" if "db_ok st1" for k row st1
    using that
  proof (rule with_db_keeps)
    fix s s1 a
    assume ok: "db_ok s"
      and "(update_row k (\<lambda>d. d\<lparr>d_next_at := now + 30\<rparr>) s, Inr (Some row)) = (s1, Inr a :: _ outcome)"
    then have s1: "s1 = update_row k (\<lambda>d. d\<lparr>d_next_at := now + 30\<rparr>) s" by simp
    from ok have "d_attempts d < 3" if "d \<in> set (deliveries s)" for d using that by (simp add: db_ok_def)
    then show "db_ok s1" unfolding s1 by (intro update_row_ok [OF ok]) simp_all
  qed
  show ?thesis
    using ok lease by (auto simp: next_delivery_def split: prod.splits sum.splits option.splits)
qed

text \<open>A completion may only count an attempt on the row that it was made for.\<close>

lemma finish_ok:
  assumes "db_ok st"
    and "retry_at \<noteq> None \<Longrightarrow> \<forall>d \<in> set (deliveries st). row_key d = row_key delivery \<longrightarrow> d_attempts d = d_attempts delivery"
  shows "db_ok (fst (finish disk delivery retry_at st))"
proof (cases rule: with_db_cases [of disk "\<lambda>st. case retry_at of
      None \<Rightarrow> (st\<lparr>deliveries := filter (\<lambda>d. row_key d \<noteq> row_key delivery) (deliveries st)\<rparr>, Inr ())
    | Some t \<Rightarrow> if d_attempts delivery \<ge> 2
        then (st\<lparr>deliveries := filter (\<lambda>d. row_key d \<noteq> row_key delivery) (deliveries st)\<rparr>, Inr ())
        else (update_row (row_key delivery) (\<lambda>d. d\<lparr>d_attempts := Suc (d_attempts d), d_next_at := t\<rparr>) st,
              Inr ())" st])
  case (1 e)
  with assms(1) show ?thesis by (simp add: finish_def)
next
  case (2 st1 a)
  have "db_ok st1"
    using 2(2) assms
    by (auto split: option.splits if_splits intro!: filter_deliveries_ok update_row_ok)
  with 2(3) show ?thesis by (simp add: finish_def)
qed

section \<open>Sequences of calls\<close>

text \<open>Every public operation that writes; each names its commits that succeed.\<close>

datatype store_call =
    Register bool subscription pyval rat
  | Delete bool pystring
  | AllowTest bool pystring rat
  | Remember bool pystring rat
  | HasCapacity bool rat
  | Enqueue bool pystring pyval "pystring list" rat pystring
  | RetireEpochs bool pystring
  | NextDelivery bool bool bool rat
  | Finish bool delivery "rat option"

fun store_step :: "runtime \<Rightarrow> store_call \<Rightarrow> push_store \<Rightarrow> push_store" where
  "store_step rt (Register disk sub prefs now) st = fst (register rt disk sub prefs now st)"
| "store_step rt (Delete disk i) st = fst (delete disk i st)"
| "store_step rt (AllowTest disk i now) st = fst (allow_test disk i now st)"
| "store_step rt (Remember disk i now) st = fst (remember disk i now st)"
| "store_step rt (HasCapacity disk now) st = fst (has_delivery_capacity disk now st)"
| "store_step rt (Enqueue disk ev payload targets now epoch) st
     = fst (enqueue rt disk ev payload targets now epoch st)"
| "store_step rt (RetireEpochs disk epoch) st = fst (retire_epochs disk epoch st)"
| "store_step rt (NextDelivery disk disk2 claim now) st = fst (next_delivery disk disk2 claim now st)"
| "store_step rt (Finish disk delivery retry_at) st = fst (finish disk delivery retry_at st)"

text \<open>The one obligation of the callers: a retry is recorded for a delivery that is still owned.\<close>

fun call_allowed :: "push_store \<Rightarrow> store_call \<Rightarrow> bool" where
  "call_allowed st (Finish disk delivery (Some t)) = (\<exists>now. owns_delivery st delivery now)"
| "call_allowed st _ = True"

lemma row_unique:
  "db_ok st \<Longrightarrow> d \<in> set (deliveries st) \<Longrightarrow> e \<in> set (deliveries st) \<Longrightarrow> row_key d = row_key e \<Longrightarrow> d = e"
  by (auto simp: db_ok_def distinct_map dest: inj_onD)

lemma owns_delivery_iff:
  assumes "db_ok st"
  shows "owns_delivery st delivery now \<longleftrightarrow>
    (\<exists>row \<in> set (deliveries st). row_key row = row_key delivery \<and> d_epoch row = d_epoch delivery
       \<and> d_attempts row = d_attempts delivery \<and> now < d_expires_at row)"
proof (cases "find (\<lambda>d. row_key d = row_key delivery) (deliveries st)")
  case None
  then have "row_key d \<noteq> row_key delivery" if "d \<in> set (deliveries st)" for d
    using that by (auto simp: find_None_iff)
  with None show ?thesis by (auto simp: owns_delivery_def)
next
  case (Some row)
  then have row: "row \<in> set (deliveries st)" "row_key row = row_key delivery"
    by (auto simp: find_Some_iff)
  have only: "d = row" if "d \<in> set (deliveries st)" "row_key d = row_key delivery" for d
    by (rule row_unique [OF assms that(1) row(1)]) (simp only: that(2) row(2))
  have "owns_delivery st delivery now \<longleftrightarrow> d_epoch row = d_epoch delivery
      \<and> d_attempts row = d_attempts delivery \<and> now < d_expires_at row"
    by (simp only: owns_delivery_def Some option.case)
  with row only show ?thesis by blast
qed

lemma store_step_ok: "db_ok st \<Longrightarrow> call_allowed st c \<Longrightarrow> db_ok (store_step rt c st)"
proof (cases c)
  case (Finish disk delivery retry_at)
  assume ok: "db_ok st" and "call_allowed st c"
  have "\<forall>d \<in> set (deliveries st). row_key d = row_key delivery \<longrightarrow> d_attempts d = d_attempts delivery"
    if "retry_at \<noteq> None"
  proof -
    from that Finish \<open>call_allowed st c\<close> obtain now where "owns_delivery st delivery now" by auto
    then obtain row where row: "row \<in> set (deliveries st)" "row_key row = row_key delivery"
        "d_attempts row = d_attempts delivery"
      unfolding owns_delivery_iff [OF ok] by blast
    show ?thesis
    proof (intro ballI impI)
      fix d
      assume "d \<in> set (deliveries st)" "row_key d = row_key delivery"
      then have "d = row" using row by (intro row_unique [OF ok]) simp_all
      with row show "d_attempts d = d_attempts delivery" by simp
    qed
  qed
  then show ?thesis unfolding Finish store_step.simps by (rule finish_ok [OF ok])
qed (simp_all add: register_ok delete_ok allow_test_ok remember_ok has_delivery_capacity_ok enqueue_ok
    retire_ok next_delivery_ok)

section \<open>Each event is queued once\<close>

definition seen :: "push_store \<Rightarrow> pystring \<Rightarrow> bool" where
  "seen st i \<longleftrightarrow> i \<in> r_id ` set (remembered st)"

lemma seen_after_remember_row:
  "seen (fst (remember_row i now st)) k \<Longrightarrow> k \<noteq> i \<or> \<not> snd (remember_row i now st) \<Longrightarrow> seen st k"
  using remember_row_frame [of i now st] by (cases "remember_row i now st") (auto simp: seen_def)

text \<open>Claims of an identity: by an \<open>enqueue\<close> that returns true, or a \<open>remember\<close> that does.\<close>

datatype claim_call =
    ByEnqueue runtime bool pyval "pystring list" rat pystring
  | ByRemember bool rat
  | Other runtime store_call

fun claim_identity :: "claim_call \<Rightarrow> pystring \<Rightarrow> push_store \<Rightarrow> push_store \<times> bool" where
  "claim_identity (ByEnqueue rt disk payload targets now epoch) i st =
     map_prod id (\<lambda>r. r = Inr True) (enqueue rt disk i payload targets now epoch st)"
| "claim_identity (ByRemember disk now) i st = map_prod id (\<lambda>r. r = Inr True) (remember disk i now st)"
| "claim_identity (Other rt c) i st = (st, False)"

fun claims :: "store_call \<Rightarrow> bool" where
  "claims (Enqueue _ _ _ _ _ _) = True"
| "claims (Remember _ _ _) = True"
| "claims _ = False"

fun other_call :: "claim_call \<Rightarrow> pystring \<Rightarrow> push_store \<Rightarrow> push_store" where
  "other_call (Other rt c) i st = (if claims c then st else store_step rt c st)"
| "other_call _ i st = st"

lemma with_db_remembered:
  assumes "\<And>st1 a. block st = (st1, Inr a) \<Longrightarrow> remembered st1 = remembered st"
  shows "remembered (fst (with_db disk block st)) = remembered st"
  using assms by (cases rule: with_db_cases [of disk block st]) auto

lemma expire_remembered [simp]: "remembered (expire now st) = remembered st"
  by (simp add: expire_def)

lemma seen_other:
  assumes "\<not> claims c"
  shows "remembered (store_step rt c st) = remembered st"
proof (cases c)
  case (Register disk sub prefs now)
  then show ?thesis
    by (auto simp: register_def Let_def intro!: with_db_remembered split: sum.split if_splits)
next
  case (HasCapacity disk now)
  have "remembered (fst (with_db disk (\<lambda>st. (expire now st, Inr ())) st)) = remembered st"
    by (rule with_db_remembered) auto
  with HasCapacity show ?thesis
    by (auto simp: has_delivery_capacity_def split: prod.splits sum.splits)
next
  case (NextDelivery disk disk2 claim now)
  have first: "remembered (fst (with_db disk (\<lambda>st. (expire now st, Inr ())) st)) = remembered st"
    by (rule with_db_remembered) auto
  have second: "remembered (fst (with_db disk2
      (\<lambda>st. (update_row k f st, Inr (Some row :: delivery option))) st1)) = remembered st1" for k f row st1
    by (rule with_db_remembered) (auto simp: update_row_def)
  show ?thesis
    using NextDelivery first second
    by (auto simp: next_delivery_def split: prod.splits sum.splits option.splits)
next
  case (Finish disk delivery retry_at)
  then show ?thesis
    by (auto simp: finish_def update_row_def intro!: with_db_remembered split: option.splits if_splits)
qed (use assms in \<open>auto simp: delete_def allow_test_def retire_epochs_def intro!: with_db_remembered\<close>)

lemma enqueue_seen:
  assumes "enqueue rt disk i payload targets now epoch st = (st', r)"
  shows "r = Inr True \<Longrightarrow> \<not> seen st i" "seen st' k \<Longrightarrow> k \<noteq> i \<or> r \<noteq> Inr True \<Longrightarrow> seen st k"
proof -
  show "\<not> seen st i" if "r = Inr True"
  proof (cases rule: enqueue_cases [of rt disk i payload targets now epoch st])
    case (3 st1 st2)
    from remember_row_frame(3) [OF 3(1)] show ?thesis by (simp add: seen_def)
  qed (use assms that in auto)
  show "seen st k" if "seen st' k" "k \<noteq> i \<or> r \<noteq> Inr True"
  proof (cases rule: enqueue_cases [of rt disk i payload targets now epoch st])
    case (1 e)
    with assms that show ?thesis by simp
  next
    case (2 st1)
    with assms that seen_after_remember_row [of i now "expire now st" k] show ?thesis
      by (simp add: seen_def)
  next
    case (3 st1 st2)
    with assms that seen_after_remember_row [of i now "expire now st" k] insert_deliveries_frame [OF 3(2)]
    show ?thesis by (simp add: seen_def)
  qed
qed

lemma remember_seen:
  assumes "remember disk i now st = (st', r)"
  shows "r = Inr True \<Longrightarrow> \<not> seen st i" "seen st' k \<Longrightarrow> k \<noteq> i \<or> r \<noteq> Inr True \<Longrightarrow> seen st k"
  using assms remember_row_frame [of i now st] seen_after_remember_row [of i now st k]
  by (cases "remember_row i now st"; auto simp: remember_def with_db_def seen_def split: if_splits)+

interpretation event_ledger: dedup_ledger seen claim_identity other_call "\<lambda>_. True"
proof (unfold_locales, goal_cases)
  case (1 s e k)
  then show ?case
    by (cases e) (auto dest: enqueue_seen(1) [OF surjective_pairing] remember_seen(1) [OF surjective_pairing])
next
  case (2 s e k)
  then show ?case
    by (cases e) (auto intro: enqueue_seen(2) [OF surjective_pairing] remember_seen(2) [OF surjective_pairing])
next
  case (3 s k' k e)
  then show ?case
    by (cases e) (auto intro: enqueue_seen(2) [OF surjective_pairing] remember_seen(2) [OF surjective_pairing])
next
  case (4 s e k k')
  then show ?case
    by (cases e) (auto simp: seen_def seen_other split: if_splits)
qed simp_all

text \<open>How often a sequence of calls takes an identity, and how often it is gone after a call.\<close>

fun takes :: "runtime \<Rightarrow> pystring \<Rightarrow> store_call \<Rightarrow> push_store \<Rightarrow> bool" where
  "takes rt i (Enqueue disk ev payload ts now ep) st \<longleftrightarrow>
     ev = i \<and> snd (enqueue rt disk ev payload ts now ep st) = Inr True"
| "takes rt i (Remember disk k now) st \<longleftrightarrow> k = i \<and> snd (remember disk k now st) = Inr True"
| "takes rt i c st \<longleftrightarrow> False"

fun times_taken :: "runtime \<Rightarrow> pystring \<Rightarrow> store_call list \<Rightarrow> push_store \<Rightarrow> nat" where
  "times_taken rt i [] st = 0"
| "times_taken rt i (c # cs) st = of_bool (takes rt i c st) + times_taken rt i cs (store_step rt c st)"

fun times_forgotten :: "runtime \<Rightarrow> pystring \<Rightarrow> store_call list \<Rightarrow> push_store \<Rightarrow> nat" where
  "times_forgotten rt i [] st = 0"
| "times_forgotten rt i (c # cs) st =
     of_bool ((seen st i \<or> takes rt i c st) \<and> \<not> seen (store_step rt c st) i)
     + times_forgotten rt i cs (store_step rt c st)"

fun ledger_call :: "runtime \<Rightarrow> store_call \<Rightarrow> claim_call \<times> pystring \<times> bool" where
  "ledger_call rt (Enqueue disk ev payload ts now ep) = (ByEnqueue rt disk payload ts now ep, ev, True)"
| "ledger_call rt (Remember disk i now) = (ByRemember disk now, i, True)"
| "ledger_call rt c = (Other rt c, [], False)"

lemma ledger_step:
  "fst (event_ledger.step st (ledger_call rt c)) = store_step rt c st"
  "snd (event_ledger.step st (ledger_call rt c)) \<and> fst (snd (ledger_call rt c)) = i \<longleftrightarrow> takes rt i c st"
  by (cases c; auto)+

lemma ledger_counts:
  "event_ledger.wins i st (map (ledger_call rt) cs) = times_taken rt i cs st"
  "event_ledger.losses i st (map (ledger_call rt) cs) = times_forgotten rt i cs st"
  by (induction cs arbitrary: st) (simp_all add: ledger_step)

text \<open>Pruning. A call that takes an identity at a time adds a row; when \<open>MAX_REMEMBERED\<close> rows were
  there, the oldest of them all is forgotten, which may be the new one.\<close>

fun adds :: "store_call \<Rightarrow> (pystring \<times> rat) option" where
  "adds (Enqueue disk ev payload ts now ep) = Some (ev, now)"
| "adds (Remember disk i now) = Some (i, now)"
| "adds c = None"

definition prunes :: "runtime \<Rightarrow> pystring \<Rightarrow> store_call \<Rightarrow> push_store \<Rightarrow> bool" where
  "prunes rt i c st =
     (case adds c of
        None \<Rightarrow> False
      | Some (k, now) \<Rightarrow> takes rt k c st \<and> length (remembered st) = MAX_REMEMBERED
          \<and> i = r_id (hd (sort (remembered st @ [Remembered now k]))))"

fun times_pruned :: "runtime \<Rightarrow> pystring \<Rightarrow> store_call list \<Rightarrow> push_store \<Rightarrow> nat" where
  "times_pruned rt i [] st = 0"
| "times_pruned rt i (c # cs) st = of_bool (prunes rt i c st) + times_pruned rt i cs (store_step rt c st)"

definition remembered_ok :: "push_store \<Rightarrow> bool" where
  "remembered_ok st \<longleftrightarrow> distinct (map r_id (remembered st)) \<and> length (remembered st) \<le> MAX_REMEMBERED"

lemma surplus_one:
  assumes "length rs = Suc MAX_REMEMBERED"
  shows "surplus rs = [hd (sort rs)]"
proof -
  from assms have n: "length (sort rs) = Suc MAX_REMEMBERED" by simp
  then obtain y ys where ys: "sort rs = y # ys" by (cases "sort rs") simp_all
  with n have "length ys = MAX_REMEMBERED" by simp
  with ys show ?thesis by (simp add: surplus_def)
qed

lemma remember_row_prunes:
  assumes "remembered_ok st" and "remember_row k now st = (st1, new)" and "seen st i \<or> new \<and> k = i" and "\<not> seen st1 i"
  shows "new \<and> length (remembered st) = MAX_REMEMBERED \<and> i = r_id (hd (sort (remembered st @ [Remembered now k])))"
proof -
  let ?rs = "remembered st @ [Remembered now k]"
  have ok: "distinct (map r_id (remembered st))" "length (remembered st) \<le> MAX_REMEMBERED"
    using assms(1) by (simp_all add: remembered_ok_def)
  have new: new
  proof (rule ccontr)
    assume old: "\<not> new"
    with assms(2) have "remembered st1 = remembered st"
      using kept_id [OF ok] by (auto simp: remember_row_alt Let_def)
    with assms(3,4) old show False by (simp add: seen_def)
  qed
  with assms(2) have fresh: "k \<notin> r_id ` set (remembered st)" and st1: "remembered st1 = kept ?rs"
    by (auto simp: remember_row_alt Let_def)
  from assms(3) have present: "i \<in> r_id ` set ?rs" by (auto simp: seen_def)
  have full: "length (remembered st) = MAX_REMEMBERED"
  proof (rule ccontr)
    assume "length (remembered st) \<noteq> MAX_REMEMBERED"
    with ok fresh have "kept ?rs = ?rs" by (intro kept_id) simp_all
    with st1 present assms(4) show False by (simp add: seen_def)
  qed
  then have "length ?rs = Suc MAX_REMEMBERED" by simp
  from surplus_one [OF this] have kept: "set (kept ?rs) = {r \<in> set ?rs. r_id r \<noteq> r_id (hd (sort ?rs))}"
    unfolding kept_def by (simp only: set_filter list.set image_insert image_empty singleton_iff)
  from present obtain r where r: "r \<in> set ?rs" "i = r_id r" by (rule imageE)
  with assms(4) st1 have "r \<notin> set (kept ?rs)" by (auto simp: seen_def simp del: set_append)
  with kept r have "i = r_id (hd (sort ?rs))" by blast
  with new full show ?thesis by simp
qed

lemma forgotten_pruned:
  assumes "remembered_ok st" and "seen st i \<or> takes rt i c st" and "\<not> seen (store_step rt c st) i"
  shows "prunes rt i c st"
proof (cases "claims c")
  case False
  then have "\<not> takes rt i c st" by (cases c) simp_all
  with assms(2,3) seen_other [OF False, of rt st] show ?thesis by (simp add: seen_def)
next
  case True
  show ?thesis
  proof (cases c)
    case (Enqueue disk ev payload ts now ep)
    have ok: "remembered_ok (expire now st)" using assms(1) by (simp add: remembered_ok_def)
    show ?thesis
    proof (cases rule: enqueue_cases [of rt disk ev payload ts now ep st])
      case (1 e)
      with assms(2,3) Enqueue show ?thesis by simp
    next
      case (2 st1)
      with assms(2,3) Enqueue remember_row_prunes [OF ok 2(1), of i] show ?thesis by (simp add: seen_def)
    next
      case (3 st1 st2)
      with insert_deliveries_frame [OF 3(2)] have "remembered st2 = remembered st1" by simp
      with 3 assms(2,3) Enqueue remember_row_prunes [OF ok 3(1), of i] show ?thesis
        by (auto simp: seen_def prunes_def)
    qed
  next
    case (Remember disk k now)
    obtain st1 new where row: "remember_row k now st = (st1, new)" by fastforce
    show ?thesis
      using assms(2,3) Remember row remember_row_prunes [OF assms(1) row, of i]
      by (auto simp: remember_def with_db_def prunes_def split: if_splits)
  qed (use True in simp_all)
qed

lemma remember_row_remembered_ok: "remembered_ok st \<Longrightarrow> remembered_ok (fst (remember_row k now st))"
  using length_kept [of "remembered st"] length_kept [of "remembered st @ [Remembered now k]"]
  by (auto simp: remembered_ok_def remember_row_alt kept_def distinct_map_filter Let_def)

lemma remembered_ok_step:
  assumes "remembered_ok st"
  shows "remembered_ok (store_step rt c st)"
proof (cases "claims c")
  case False
  with assms show ?thesis by (simp add: remembered_ok_def seen_other)
next
  case True
  show ?thesis
  proof (cases c)
    case (Enqueue disk ev payload ts now ep)
    have "remembered_ok (expire now st)" using assms by (simp add: remembered_ok_def)
    from remember_row_remembered_ok [OF this, of ev now] show ?thesis
      using assms Enqueue
      by (cases rule: enqueue_cases [of rt disk ev payload ts now ep st])
         (auto simp: remembered_ok_def dest!: insert_deliveries_frame)
  next
    case (Remember disk k now)
    with assms remember_row_remembered_ok [OF assms, of k now] show ?thesis
      by (auto simp: remember_def with_db_def split: prod.splits)
  qed (use True in simp_all)
qed

lemma forgotten_le_pruned: "remembered_ok st \<Longrightarrow> times_forgotten rt i cs st \<le> times_pruned rt i cs st"
proof (induction cs arbitrary: st)
  case (Cons c cs)
  have "(of_bool ((seen st i \<or> takes rt i c st) \<and> \<not> seen (store_step rt c st) i) :: nat) \<le> of_bool (prunes rt i c st)"
    using forgotten_pruned [OF Cons.prems, of i rt c] by (cases "prunes rt i c st") auto
  with Cons.IH [OF remembered_ok_step [OF Cons.prems, of rt c]] show ?case
    by (simp only: times_forgotten.simps times_pruned.simps add_mono)
qed simp

section \<open>Properties\<close>

text \<open>C23: In a table of at most \<open>MAX_REMEMBERED\<close> distinct identities: over every sequence of store calls,
  those that newly queued or remembered one event identity, with the row it may start with, are at most
  one more than the times it was pruned, which takes a new identity on a full table and strikes the
  oldest row only. So an event is queued once until it is the oldest of a full table when another comes.\<close>

theorem event_queued_once:
  assumes "remembered_ok st"
  shows "times_taken rt i cs st + of_bool (seen st i) \<le> times_pruned rt i cs st + 1"
  using event_ledger.wins_balance [where s = st and k = i and xs = "map (ledger_call rt) cs"]
    forgotten_le_pruned [OF assms, of rt i cs]
  by (simp add: ledger_counts)

text \<open>Remembered twice on an empty table.\<close>

lemma event_queued_once_witness:
  "times_taken demo_runtime (py ''e'') [Remember True (py ''e'') 7, Remember True (py ''e'') 8]
     \<lparr>remembered = [], subscribers = [], deliveries = []\<rparr> = 1"
proof -
  let ?st = "\<lparr>remembered = [], subscribers = [], deliveries = []\<rparr>" and ?cs = "[Remember True (py ''e'') 7, Remember True (py ''e'') 8]"
  have first: "remember_row (py ''e'') 7 ?st = (?st\<lparr>remembered := [Remembered 7 (py ''e'')]\<rparr>, True)"
    by (simp add: remember_row_alt kept_id MAX_REMEMBERED_def)
  have "times_pruned demo_runtime (py ''e'') ?cs ?st = 0" "1 \<le> times_taken demo_runtime (py ''e'') ?cs ?st"
    by (simp_all add: prunes_def remember_def with_db_def first MAX_REMEMBERED_def)
  with event_queued_once [of ?st demo_runtime "py ''e''" ?cs] show ?thesis
    by (simp add: remembered_ok_def)
qed

end
