(* ===== verification/PushEvents.thy ===== *)
theory PushEvents
  imports PushStore
begin

text \<open>
  The event processor of the server (\<open>push_events.py\<close>, lines 14-42 and 118-222): what counts as
  a notification worth a push. A connection starts an epoch; what is present when it starts only
  primes the processor, and later native notifications and samples of selected values are events
  if they are fresh transitions. \<open>None\<close> is a call that does not return (see \<open>trim_body\<close>), an
  exception is a left value, and the store is threaded through the calls.
\<close>

definition MAX_AGE_SECONDS :: rat where
  "MAX_AGE_SECONDS = 300"

definition FUTURE_SKEW_SECONDS :: rat where
  "FUTURE_SKEW_SECONDS = 30"

definition SAMPLE_FRESH_SECONDS :: rat where
  "SAMPLE_FRESH_SECONDS = 30"

lemmas event_limits = MAX_AGE_SECONDS_def FUTURE_SKEW_SECONDS_def SAMPLE_FRESH_SECONDS_def

definition default_preferences :: "pystring set" where
  "default_preferences = py ` {''native'', ''ev'', ''water'', ''lowBattery''}"

definition preferences :: "pyval \<Rightarrow> pyval outcome" where
  "preferences v =
     (case v of PyDict kvs \<Rightarrow>
        (if set (map fst kvs) \<noteq> default_preferences then Inl ValueError
         else if list_ex (\<lambda>(k, x). \<not> is_bool x) kvs then Inl ValueError
         else Inr v)
      | _ \<Rightarrow> Inl ValueError)"

definition py_get :: "pyval \<Rightarrow> string \<Rightarrow> pyval \<Rightarrow> pyval" where
  "py_get d k dflt = (case map_of (py_items d) (py k) of None \<Rightarrow> dflt | Some v \<Rightarrow> v)"

definition py_str :: "runtime \<Rightarrow> pyval \<Rightarrow> pystring" where
  "py_str rt v = (case as_str v of Some s \<Rightarrow> s | None \<Rightarrow> str_of rt v)"

definition timestamp_ms :: "runtime \<Rightarrow> pyval \<Rightarrow> int option" where
  "timestamp_ms rt v =
     (case as_str v of
        None \<Rightarrow> None
      | Some s \<Rightarrow>
          if length s > 64 then None
          else case from_iso rt s of
              None \<Rightarrow> None
            | Some t \<Rightarrow> if t * 1000 \<le> 0 then None else Some (py_int (t * 1000)))"

record processor =
  epoch :: pystring
  started_at :: rat
  native_primed :: bool
  unknown_primed :: "(pystring \<times> pystring \<times> pystring) list"
  samples :: "(pystring \<times> pyval \<times> rat) list"

definition reset :: "bool \<Rightarrow> pystring \<Rightarrow> rat \<Rightarrow> push_store \<Rightarrow> push_store \<times> processor \<times> unit outcome" where
  "reset disk new_epoch now st =
     (case retire_epochs disk new_epoch st of
        (st1, r) \<Rightarrow>
          (st1, \<lparr>epoch = new_epoch, started_at = now, native_primed = False, unknown_primed = [], samples = []\<rparr>, r))"

section \<open>Native notifications\<close>

definition notification_id :: "runtime \<Rightarrow> pyval \<Rightarrow> pystring" where
  "notification_id rt n = take 200 (py_str rt (py_get n ''id'' (PyStr [])))"

definition occurrence :: "runtime \<Rightarrow> pyval \<Rightarrow> pystring \<times> pystring" where
  "occurrence rt n = (py_str rt (py_get n ''title'' (PyStr [])), py_str rt (py_get n ''body'' (PyStr [])))"

definition native_source :: "pyval \<Rightarrow> string" where
  "native_source n = (if py_get n ''source'' PyNone = pylit ''victron'' then ''victron'' else ''system'')"

definition stale :: "processor \<Rightarrow> rat \<Rightarrow> int \<Rightarrow> bool" where
  "stale p now source_ms =
     (let source_time = of_int source_ms / 1000
      in source_time < started_at p - FUTURE_SKEW_SECONDS
         \<or> now - source_time > MAX_AGE_SECONDS
         \<or> source_time - now > FUTURE_SKEW_SECONDS)"

text \<open>One commit of the store is made at most, by \<open>remember\<close>.\<close>

definition remember_event ::
  "bool \<Rightarrow> pyval \<Rightarrow> rat \<Rightarrow> processor \<Rightarrow> push_store \<Rightarrow> push_store \<times> (processor \<times> pyval option) outcome" where
  "remember_event disk event now p st =
     (case remember disk (payload_text event ''eventKey'') now st of
        (st1, Inl e) \<Rightarrow> (st1, Inl e)
      | (st1, Inr _) \<Rightarrow> (st1, Inr (p, None)))"

definition native_event ::
  "runtime \<Rightarrow> bool \<Rightarrow> pyval \<Rightarrow> rat \<Rightarrow> bool \<Rightarrow> processor \<Rightarrow> push_store
    \<Rightarrow> (push_store \<times> (processor \<times> pyval option) outcome) option" where
  "native_event rt disk n now prime p st =
     (let i = notification_id rt n; occ = occurrence rt n in
      case timestamp_ms rt (py_get n ''ts'' PyNone) of
        None \<Rightarrow>
          Some (st, Inr (if prime \<and> i \<noteq> []
                         then p\<lparr>unknown_primed := AList.update i occ (unknown_primed p)\<rparr> else p, None))
      | Some source_ms \<Rightarrow>
          (case event_payload rt (py ''native'') (py (native_source n)) i source_ms now (fst occ) (snd occ) of
             None \<Rightarrow> None
           | Some (Inl e) \<Rightarrow> Some (st, Inl e)
           | Some (Inr event) \<Rightarrow>
               let initial = map_of (unknown_primed p) i;
                   p1 = p\<lparr>unknown_primed := AList.delete i (unknown_primed p)\<rparr>;
                   hydrated = (case initial of None \<Rightarrow> False | Some old \<Rightarrow> fst old = fst occ)
               in Some (if prime \<or> hydrated then remember_event disk event now p1 st
                        else if py_get n ''level'' PyNone \<notin> {pylit ''warning'', pylit ''alarm'', pylit ''error''}
                        then (st, Inr (p1, None))
                        else if stale p1 now source_ms then remember_event disk event now p1 st
                        else (st, Inr (p1, Some event)))))"

text \<open>The loop over the notifications; the commits of its turns succeed as the list \<open>disks\<close> says.\<close>

fun native_loop ::
  "runtime \<Rightarrow> (nat \<Rightarrow> bool) \<Rightarrow> rat \<Rightarrow> bool \<Rightarrow> pyval list \<Rightarrow> processor \<Rightarrow> push_store
    \<Rightarrow> (push_store \<times> (processor \<times> pyval list) outcome) option" where
  "native_loop rt disks now prime [] p st = Some (st, Inr (p, []))"
| "native_loop rt disks now prime (n # ns) p st =
     (case native_event rt (disks 0) n now prime p st of
        None \<Rightarrow> None
      | Some (st1, Inl e) \<Rightarrow> Some (st1, Inl e)
      | Some (st1, Inr (p1, event)) \<Rightarrow>
          (case native_loop rt (\<lambda>i. disks (Suc i)) now prime ns p1 st1 of
             None \<Rightarrow> None
           | Some (st2, Inl e) \<Rightarrow> Some (st2, Inl e)
           | Some (st2, Inr (p2, out)) \<Rightarrow>
               Some (st2, Inr (p2, case event of None \<Rightarrow> out | Some v \<Rightarrow> v # out))))"

definition native ::
  "runtime \<Rightarrow> (nat \<Rightarrow> bool) \<Rightarrow> pyval list \<Rightarrow> rat \<Rightarrow> bool \<Rightarrow> processor \<Rightarrow> push_store
    \<Rightarrow> (push_store \<times> (processor \<times> pyval list) outcome) option" where
  "native rt disks notifications now prime p st =
     (let prime1 = prime \<or> \<not> native_primed p;
          present = notification_id rt ` set (take 100 notifications);
          p1 = p\<lparr>unknown_primed := filter (\<lambda>(k, v). k \<in> present) (unknown_primed p)\<rparr>
      in case native_loop rt disks now prime1 (take 100 notifications) p1 st of
           None \<Rightarrow> None
         | Some (st1, Inl e) \<Rightarrow> Some (st1, Inl e)
         | Some (st1, Inr (p2, out)) \<Rightarrow> Some (st1, Inr (p2\<lparr>native_primed := True\<rparr>, out)))"

section \<open>Samples\<close>

text \<open>The values that the observer samples are floats and booleans; comparing one with a number
  raises a \<open>TypeError\<close> otherwise.\<close>

fun py_number :: "pyval \<Rightarrow> rat option" where
  "py_number (PyBool b) = Some (of_bool b)"
| "py_number (PyInt i) = Some (of_int i)"
| "py_number (PyFloat (Num q)) = Some q"
| "py_number _ = None"

definition py_equal :: "pyval \<Rightarrow> pyval \<Rightarrow> bool" where
  "py_equal v w = (case (py_number v, py_number w) of (Some x, Some y) \<Rightarrow> x = y | _ \<Rightarrow> v = w)"

fun py_truthy :: "pyval \<Rightarrow> bool" where
  "py_truthy PyNone = False"
| "py_truthy (PyBool b) = b"
| "py_truthy (PyInt i) = (i \<noteq> 0)"
| "py_truthy (PyFloat n) = (n \<noteq> Num 0)"
| "py_truthy (PyStr s) = (s \<noteq> [])"
| "py_truthy (PyList vs) = (vs \<noteq> [])"
| "py_truthy (PyDict kvs) = (kvs \<noteq> [])"

definition sample_message ::
  "runtime \<Rightarrow> string \<Rightarrow> pystring \<Rightarrow> pyval \<Rightarrow> pyval \<Rightarrow> (pystring \<times> pystring) option outcome" where
  "sample_message rt kind ident before v =
     (if kind = ''lowBattery'' then
        (case (py_number before, py_number v) of
           (Some b, Some x) \<Rightarrow>
             if \<not> (b > 20 \<and> 20 \<ge> x) then Inr None
             else Inr (Some (py ''Low battery'',
               py ''Battery state of charge is '' @ format_g rt x @ py ''%''))
         | _ \<Rightarrow> Inl PyTypeError)
      else if py_equal v before then Inr None
      else if kind = ''ev'' then
        Inr (Some (if py_truthy v then py ''EV charging started'' else py ''EV charging stopped'',
          py ''Observed from the selected EV charger''))
      else if kind = ''water'' then
        Inr (Some ((if take 5 ident = py ''pump:'' then py ''Water pump'' else py ''Water valve'')
            @ py '' '' @ (if py_truthy v then py ''on'' else py ''off''),
          py ''Observed from native device state''))
      else Inr None)"

definition sample_key :: "string \<Rightarrow> pystring \<Rightarrow> pystring" where
  "sample_key kind ident = py kind @ py '':'' @ ident"

definition sample ::
  "runtime \<Rightarrow> string \<Rightarrow> pystring \<Rightarrow> pyval \<Rightarrow> rat \<Rightarrow> bool \<Rightarrow> processor \<Rightarrow> (processor \<times> pyval option outcome) option" where
  "sample rt kind ident v now prime p =
     (let key = sample_key kind ident in
      if v = PyNone then Some (p\<lparr>samples := AList.delete key (samples p)\<rparr>, Inr None)
      else
        let previous = map_of (samples p) key;
            p1 = p\<lparr>samples := AList.update key (v, now) (samples p)\<rparr>
        in case previous of
             None \<Rightarrow> Some (p1, Inr None)
           | Some (before, sampled_at) \<Rightarrow>
               if prime \<or> \<not> (0 \<le> now - sampled_at \<and> now - sampled_at \<le> SAMPLE_FRESH_SECONDS) then Some (p1, Inr None)
               else case sample_message rt kind ident before v of
                   Inl e \<Rightarrow> Some (p1, Inl e)
                 | Inr None \<Rightarrow> Some (p1, Inr None)
                 | Inr (Some (title, body)) \<Rightarrow>
                     (case event_payload rt (py kind) (py ''victron'') ident (py_int (now * 1000)) now title body of
                        None \<Rightarrow> None
                      | Some (Inl e) \<Rightarrow> Some (p1, Inl e)
                      | Some (Inr event) \<Rightarrow> Some (p1, Inr (Some event))))"

section \<open>Which notifications become events\<close>

text \<open>The clock readings for which a timestamp near them fits the payload.\<close>

definition clock_ok :: "rat \<Rightarrow> bool" where
  "clock_ok now \<longleftrightarrow> 1000 \<le> now \<and> now \<le> 9007199254000"

lemma py_int_pos: "0 \<le> q \<Longrightarrow> py_int q = \<lfloor>q\<rfloor>"
  by (simp add: py_int_def)

lemma clock_time_range: "clock_ok now \<Longrightarrow> time_range (py_int (now * 1000))"
proof -
  assume "clock_ok now"
  then have now: "1000000 \<le> now * 1000" "now * 1000 \<le> 9007199254000000"
    by (simp_all add: clock_ok_def)
  then have "1 \<le> \<lfloor>now * 1000\<rfloor>" by (simp add: le_floor_iff)
  moreover have "\<lfloor>now * 1000\<rfloor> \<le> 9007199254000000"
    using now(2) by (simp add: floor_le_iff)
  ultimately show ?thesis
    using now by (simp add: py_int_pos time_range_def MAX_SAFE_INTEGER_def)
qed

lemma fresh_time_range:
  assumes "clock_ok now" and "\<not> stale p now t"
  shows "time_range t"
proof -
  from assms have "700 \<le> (of_int t / 1000 :: rat)" "(of_int t / 1000 :: rat) \<le> 9007199254030"
    by (auto simp: stale_def Let_def clock_ok_def event_limits)
  then have "(700000 :: rat) \<le> of_int t" "of_int t \<le> (9007199254030000 :: rat)"
    by simp_all
  then show ?thesis by (simp add: time_range_def MAX_SAFE_INTEGER_def)
qed

text \<open>What one turn of the loop that yields an event has checked.\<close>

definition event_of :: "runtime \<Rightarrow> rat \<Rightarrow> pyval \<Rightarrow> int \<Rightarrow> pyval outcome option" where
  "event_of rt now n t =
     event_payload rt (py ''native'') (py (native_source n)) (notification_id rt n) t now
       (fst (occurrence rt n)) (snd (occurrence rt n))"

lemma remember_event_None:
  "remember_event disk event now p st = (st1, Inr (p1, e)) \<Longrightarrow> e = None \<and> p1 = p"
  by (auto simp: remember_event_def split: prod.splits sum.splits)

lemma native_event_Some:
  assumes "native_event rt disk n now prime p st = Some (st1, Inr (p1, Some event))"
  obtains t where "\<not> prime" "timestamp_ms rt (py_get n ''ts'' PyNone) = Some t"
    "event_of rt now n t = Some (Inr event)"
    "py_get n ''level'' PyNone \<in> {pylit ''warning'', pylit ''alarm'', pylit ''error''}"
    "\<not> stale p now t" "st1 = st"
proof -
  from assms obtain t where t: "timestamp_ms rt (py_get n ''ts'' PyNone) = Some t"
    by (auto simp: native_event_def Let_def split: option.splits)
  moreover from assms t obtain e where "event_of rt now n t = Some (Inr e)"
    by (auto simp: native_event_def event_of_def Let_def split: option.splits sum.splits)
  ultimately show thesis
    using that [OF _ t] assms
    by (auto simp: native_event_def event_of_def Let_def stale_def split: if_splits
        dest!: remember_event_None)
qed

lemma native_event_started:
  "native_event rt disk n now prime p st = Some (st1, Inr (p1, e)) \<Longrightarrow> started_at p1 = started_at p"
  by (auto simp: native_event_def Let_def split: option.splits sum.splits if_splits
      dest!: remember_event_None)

lemma stale_cong: "started_at p1 = started_at p \<Longrightarrow> stale p1 = stale p"
  by (simp add: fun_eq_iff stale_def)

lemma native_loop_Cons:
  assumes "native_loop rt disks now prime (n # ns) p st = Some (st2, Inr (p2, out))"
  obtains st1 p1 e out1 where "native_event rt (disks 0) n now prime p st = Some (st1, Inr (p1, e))"
    "native_loop rt (\<lambda>i. disks (Suc i)) now prime ns p1 st1 = Some (st2, Inr (p2, out1))"
    "out = (case e of None \<Rightarrow> out1 | Some v \<Rightarrow> v # out1)"
  using assms by (auto split: option.splits sum.splits prod.splits)

lemma native_loop_events:
  assumes "native_loop rt disks now prime ns p st = Some (st1, Inr (p1, out))" and "event \<in> set out"
  shows "\<exists>n \<in> set ns. \<exists>t. \<not> prime \<and> timestamp_ms rt (py_get n ''ts'' PyNone) = Some t
    \<and> event_of rt now n t = Some (Inr event)
    \<and> py_get n ''level'' PyNone \<in> {pylit ''warning'', pylit ''alarm'', pylit ''error''} \<and> \<not> stale p now t"
  using assms
proof (induction ns arbitrary: disks p st out)
  case (Cons n ns)
  from Cons.prems(1) obtain st2 p2 e out1 where
    step: "native_event rt (disks 0) n now prime p st = Some (st2, Inr (p2, e))"
    and rest: "native_loop rt (\<lambda>i. disks (Suc i)) now prime ns p2 st2 = Some (st1, Inr (p1, out1))"
    and out: "out = (case e of None \<Rightarrow> out1 | Some v \<Rightarrow> v # out1)"
    by (rule native_loop_Cons)
  show ?case
  proof (cases "event \<in> set out1")
    case True
    from Cons.IH [OF rest True] stale_cong [OF native_event_started [OF step]] show ?thesis by auto
  next
    case False
    with Cons.prems(2) out step have "native_event rt (disks 0) n now prime p st = Some (st2, Inr (p2, Some event))"
      by (auto split: option.splits)
    then show ?thesis by (rule native_event_Some) auto
  qed
qed simp

lemma native_unfold:
  assumes "native rt disks ns now prime p st = Some (st1, Inr (p1, out))"
  obtains p0 p2 where "started_at p0 = started_at p"
    "native_loop rt disks now (prime \<or> \<not> native_primed p) (take 100 ns) p0 st = Some (st1, Inr (p2, out))"
    "p1 = p2\<lparr>native_primed := True\<rparr>"
proof -
  let ?p0 = "p\<lparr>unknown_primed := filter (\<lambda>(k, v). k \<in> notification_id rt ` set (take 100 ns))
    (unknown_primed p)\<rparr>"
  from assms obtain p2 where
    "native_loop rt disks now (prime \<or> \<not> native_primed p) (take 100 ns) ?p0 st = Some (st1, Inr (p2, out))"
    "p1 = p2\<lparr>native_primed := True\<rparr>"
    by (auto simp: native_def Let_def split: option.splits sum.splits prod.splits)
  then show thesis by (intro that [of ?p0 p2]) simp_all
qed

section \<open>Priming\<close>

lemma remember_row_seen:
  assumes "length (remembered st) < MAX_REMEMBERED"
  shows "seen (fst (remember_row i now st)) i" "seen st k \<Longrightarrow> seen (fst (remember_row i now st)) k"
    "length (remembered (fst (remember_row i now st))) \<le> Suc (length (remembered st))"
  using assms by (auto simp: remember_row_def surplus_def seen_def Let_def)

lemma remember_seen_all:
  assumes "remember disk i now st = (st1, Inr new)" and "length (remembered st) < MAX_REMEMBERED"
  shows "seen st1 i" "seen st k \<Longrightarrow> seen st1 k" "length (remembered st1) \<le> Suc (length (remembered st))"
proof -
  from assms(1) have "remember_row i now st = (st1, new)"
    by (cases "remember_row i now st") (auto simp: remember_def with_db_def split: if_splits)
  then have st1: "st1 = fst (remember_row i now st)" by simp
  show "seen st1 i" "seen st k \<Longrightarrow> seen st1 k" "length (remembered st1) \<le> Suc (length (remembered st))"
    unfolding st1 by (rule remember_row_seen [OF assms(2)], assumption?)+
qed

lemma native_event_seen:
  assumes "native_event rt disk n now prime p st = Some (st1, Inr r)" and "length (remembered st) < MAX_REMEMBERED"
  shows "seen st k \<Longrightarrow> seen st1 k" "length (remembered st1) \<le> Suc (length (remembered st))"
  using assms(1) remember_seen_all(2,3) [OF _ assms(2)]
  by (auto simp: native_event_def remember_event_def Let_def split: option.splits sum.splits if_splits prod.splits)

lemma native_event_primes:
  assumes "native_event rt disk n now True p st = Some (st1, Inr r)" and "length (remembered st) < MAX_REMEMBERED"
    and "timestamp_ms rt (py_get n ''ts'' PyNone) = Some t" and "event_of rt now n t = Some (Inr event)"
  shows "seen st1 (payload_text event ''eventKey'')"
  using assms(1,3,4) remember_seen_all(1) [OF _ assms(2)]
  by (auto simp: native_event_def remember_event_def event_of_def Let_def split: sum.splits prod.splits)

lemma native_loop_seen:
  assumes "native_loop rt disks now prime ns p st = Some (st1, Inr r)"
    and "length (remembered st) + length ns \<le> MAX_REMEMBERED"
  shows "(seen st k \<longrightarrow> seen st1 k) \<and> (prime \<longrightarrow> (\<forall>n \<in> set ns. \<forall>t event.
    timestamp_ms rt (py_get n ''ts'' PyNone) = Some t \<longrightarrow> event_of rt now n t = Some (Inr event)
      \<longrightarrow> payload_text event ''eventKey'' = k \<longrightarrow> seen st1 k))"
  using assms
proof (induction ns arbitrary: disks p st r)
  case (Cons n ns)
  obtain p1 out where r: "r = (p1, out)" by (cases r)
  from Cons.prems(1) obtain st2 p2 e out1 where
    step: "native_event rt (disks 0) n now prime p st = Some (st2, Inr (p2, e))"
    and rest: "native_loop rt (\<lambda>i. disks (Suc i)) now prime ns p2 st2 = Some (st1, Inr (p1, out1))"
    unfolding r by (rule native_loop_Cons)
  from Cons.prems(2) have room: "length (remembered st) < MAX_REMEMBERED" by simp
  note first = native_event_seen [OF step room]
  from Cons.prems(2) first(2) have "length (remembered st2) + length ns \<le> MAX_REMEMBERED" by simp
  note IH = Cons.IH [OF rest this]
  have "seen st2 k" if "prime" "timestamp_ms rt (py_get n ''ts'' PyNone) = Some t"
    "event_of rt now n t = Some (Inr event)" "payload_text event ''eventKey'' = k" for t event
    using that native_event_primes [OF _ room that(2,3), of "disks 0" p st2] step by simp
  with IH first(1) show ?case by auto
qed simp

definition demo_notification :: pyval where
  "demo_notification = PyDict [(py ''id'', pylit ''n''), (py ''title'', pylit ''t''), (py ''body'', PyStr []),
     (py ''level'', pylit ''warning''), (py ''ts'', pylit ''2023-11-14T22:13:20Z'')]"

definition demo_processor :: processor where
  "demo_processor = \<lparr>epoch = py ''e'', started_at = 1700000000, native_primed = True, unknown_primed = [],
     samples = [(sample_key ''lowBattery'' (py ''system:0''), PyFloat (Num 50), 1700000000)]\<rparr>"

definition demo_alert :: pyval where
  "demo_alert = payload_fields (replicate 64 0x61) (py ''native'') (py ''system'') 1700000000000 1700000001000
     (py ''t'') []"

abbreviation no_rows :: push_store where
  "no_rows \<equiv> \<lparr>remembered = [], subscribers = [], deliveries = []\<rparr>"

lemma demo_items:
  "notification_id demo_runtime demo_notification = py ''n''"
  "occurrence demo_runtime demo_notification = (py ''t'', [])"
  "native_source demo_notification = ''system''"
  "timestamp_ms demo_runtime (py_get demo_notification ''ts'' PyNone) = Some 1700000000000"
  "py_get demo_notification ''level'' PyNone = pylit ''warning''"
  by (simp_all add: demo_notification_def notification_id_def occurrence_def native_source_def py_get_def py_str_def
      timestamp_ms_def demo_runtime_def py_int_def take_Cons' numeral_eq_Suc)

lemma demo_alert_built:
  "event_payload demo_runtime (py ''native'') (py ''system'') (py ''n'') 1700000000000 1700000001 (py ''t'') []
     = Some (Inr demo_alert)"
  by (subst event_payload_no_body)
     (simp_all add: demo_digest server_source_def time_range_def MAX_SAFE_INTEGER_def py_int_def demo_alert_def
       py_def hex64_def list_all_iff scalar_small)

text \<open>A priming call yields no event and remembers every notification it saw, so that queueing
  one of them later does nothing.\<close>

theorem primed_notifications_stay_silent:
  assumes "native rt disks ns now prime p st = Some (st1, Inr (p1, out))" and "prime \<or> \<not> native_primed p"
    and "length (remembered st) + 100 \<le> MAX_REMEMBERED"
  shows "out = [] \<and> native_primed p1
    \<and> (\<forall>n \<in> set (take 100 ns). \<forall>t event. timestamp_ms rt (py_get n ''ts'' PyNone) = Some t
        \<longrightarrow> event_of rt now n t = Some (Inr event)
        \<longrightarrow> snd (enqueue rt disk (payload_text event ''eventKey'') payload targets later ep st1) \<noteq> Inr True)"
proof -
  from assms(1) obtain p0 p2 where
    loop: "native_loop rt disks now (prime \<or> \<not> native_primed p) (take 100 ns) p0 st
      = Some (st1, Inr (p2, out))" and p1: "p1 = p2\<lparr>native_primed := True\<rparr>"
    by (rule native_unfold)
  have "out = []"
    using native_loop_events [OF loop] assms(2) by (metis list.set_intros(1) neq_Nil_conv)
  moreover have "length (remembered st) + length (take 100 ns) \<le> MAX_REMEMBERED"
    using assms(3) by simp
  note seen = native_loop_seen [OF loop this]
  have "snd (enqueue rt disk i payload targets later ep st1) \<noteq> Inr True" if "seen st1 i" for i
    using enqueue_seen(1) [of rt disk i payload targets later ep st1] that by (auto simp: prod_eq_iff)
  ultimately show ?thesis using seen assms(2) p1 by auto
qed

lemma demo_primed:
  "native demo_runtime (\<lambda>_. True) [demo_notification] 1700000001 True demo_processor no_rows
     = Some (no_rows\<lparr>remembered := [Remembered 1700000001 (replicate 64 0x61)]\<rparr>, Inr (demo_processor, []))"
  using demo_alert_built
  by (simp add: native_def native_event_def demo_items demo_processor_def remember_event_def remember_def
      with_db_def remember_row_def surplus_def MAX_REMEMBERED_def demo_alert_def payload_text_def payload_fields_def
      py_item_def Let_def take_Cons')

lemma primed_notifications_stay_silent_witness:
  "snd (enqueue demo_runtime True (replicate 64 0x61) demo_alert [] 1700000002 (py ''e'')
     (no_rows\<lparr>remembered := [Remembered 1700000001 (replicate 64 0x61)]\<rparr>)) \<noteq> Inr True"
  using primed_notifications_stay_silent [OF demo_primed, of True demo_alert "[]" 1700000002 "py ''e''"]
    demo_alert_built
  by (simp add: MAX_REMEMBERED_def demo_items event_of_def take_Cons' demo_alert_def payload_text_def
      payload_fields_def py_item_def)

section \<open>Sampled transitions\<close>

text \<open>C21: Every native event is the valid payload of a warning, alarm or error that is at most 300 s
  old, at most 30 s ahead of the clock and at most 30 s older than the connection, and none comes
  from a priming call, if the clock is a time that JavaScript can represent and digests have 64
  hexadecimal digits.\<close>

theorem native_events_are_fresh_alerts:
  assumes "native rt disks ns now prime p st = Some (st1, Inr (p1, out))" and "event \<in> set out"
    and "clock_ok now" and "\<And>b. hex64 (sha256_hex rt b)"
  shows "\<not> prime \<and> native_primed p \<and> validate_persisted_payload rt event = Inr ()
    \<and> (\<exists>n \<in> set (take 100 ns). \<exists>t. timestamp_ms rt (py_get n ''ts'' PyNone) = Some t
        \<and> event_of rt now n t = Some (Inr event)
        \<and> py_get n ''level'' PyNone \<in> {pylit ''warning'', pylit ''alarm'', pylit ''error''}
        \<and> started_at p - 30 \<le> of_int t / 1000 \<and> now - 300 \<le> of_int t / 1000 \<and> of_int t / 1000 \<le> now + 30)"
proof -
  from assms(1) obtain p0 p2 where p0: "started_at p0 = started_at p"
    and loop: "native_loop rt disks now (prime \<or> \<not> native_primed p) (take 100 ns) p0 st
      = Some (st1, Inr (p2, out))"
    by (rule native_unfold)
  from native_loop_events [OF loop assms(2)] obtain n t where n: "n \<in> set (take 100 ns)"
    "\<not> (prime \<or> \<not> native_primed p)" "timestamp_ms rt (py_get n ''ts'' PyNone) = Some t"
    "event_of rt now n t = Some (Inr event)"
    "py_get n ''level'' PyNone \<in> {pylit ''warning'', pylit ''alarm'', pylit ''error''}" "\<not> stale p0 now t"
    by blast
  have "server_source ''native'' (native_source n)"
    by (simp add: server_source_def native_source_def)
  from built_valid [OF this fresh_time_range [OF assms(3) n(6)] clock_time_range [OF assms(3)] assms(4)]
    n(4) have "validate_persisted_payload rt event = Inr ()"
    by (simp add: event_of_def validate_Inr_iff)
  with n p0 show ?thesis
    by (fastforce simp: stale_def Let_def event_limits)
qed

lemma demo_native:
  "native demo_runtime (\<lambda>_. True) [demo_notification] 1700000001 False demo_processor no_rows
     = Some (no_rows, Inr (demo_processor, [demo_alert]))"
  using demo_alert_built
  by (simp add: native_def native_event_def demo_items demo_processor_def stale_def event_limits Let_def take_Cons')

lemma native_events_are_fresh_alerts_witness:
  "validate_persisted_payload demo_runtime demo_alert = Inr ()"
  using native_events_are_fresh_alerts [OF demo_native, of demo_alert, OF _ _ demo_digest]
  by (simp add: clock_ok_def)

text \<open>Low battery.\<close>

theorem low_battery_once_per_crossing:
  assumes "sample rt ''lowBattery'' ident (PyFloat (Num q)) now prime p = Some (p1, Inr (Some event))"
  shows "\<not> prime \<and> q \<le> 20
    \<and> (\<exists>before b sampled_at. map_of (samples p) (sample_key ''lowBattery'' ident) = Some (before, sampled_at)
        \<and> py_number before = Some b \<and> 20 < b \<and> sampled_at \<le> now \<and> now \<le> sampled_at + 30)
    \<and> (\<exists>p2. sample rt ''lowBattery'' ident (PyFloat (Num q')) now' prime' p1 = Some (p2, Inr None))"
proof -
  from assms obtain before sampled_at where prev:
    "map_of (samples p) (sample_key ''lowBattery'' ident) = Some (before, sampled_at)"
    by (auto simp: sample_def Let_def split: option.splits)
  from assms prev have checks: "\<not> prime" "0 \<le> now - sampled_at" "now - sampled_at \<le> 30"
    by (auto simp: sample_def Let_def event_limits split: if_splits)
  from assms prev checks obtain b where b: "py_number before = Some b" "b > 20" "q \<le> 20"
    by (auto simp: sample_def sample_message_def Let_def event_limits split: option.splits if_splits sum.splits)
  have p1: "samples p1 = AList.update (sample_key ''lowBattery'' ident) (PyFloat (Num q), now) (samples p)"
    using assms prev checks b
    by (auto simp: sample_def Let_def event_limits split: option.splits sum.splits)
  have "\<exists>p2. sample rt ''lowBattery'' ident (PyFloat (Num q')) now' prime' p1 = Some (p2, Inr None)"
    using b(3) by (simp add: sample_def sample_message_def p1 Let_def)
  with prev checks b show ?thesis by (auto simp: algebra_simps)
qed

lemma low_battery_once_per_crossing_witness:
  "\<exists>p1 p2 event.
     sample demo_runtime ''lowBattery'' (py ''system:0'') (PyFloat (Num 19)) 1700000010 False demo_processor
       = Some (p1, Inr (Some event))
     \<and> sample demo_runtime ''lowBattery'' (py ''system:0'') (PyFloat (Num 18)) 1700000020 False p1
       = Some (p2, Inr None)"
proof -
  have "message_ok (py ''system:0'') (py ''Low battery'') (py ''Battery state of charge is '' @ py ''19'' @ py ''%'')"
    by (simp add: message_ok_def py_def list_all_iff scalar_small)
  then obtain event where "event_payload demo_runtime (py ''lowBattery'') (py ''victron'') (py ''system:0'')
      1700000010000 1700000010 (py ''Low battery'') (py ''Battery state of charge is '' @ py ''19'' @ py ''%'')
      = Some (Inr event)"
    using event_payload_cases [of "''lowBattery''" "''victron''" 1700000010000 1700000010 demo_runtime
        "py ''system:0''" "py ''Low battery''" "py ''Battery state of charge is '' @ py ''19'' @ py ''%''",
        OF _ _ _ demo_digest]
    by (auto simp: server_source_def time_range_def MAX_SAFE_INTEGER_def py_int_def)
  then have "\<exists>p1. sample demo_runtime ''lowBattery'' (py ''system:0'') (PyFloat (Num 19)) 1700000010 False
      demo_processor = Some (p1, Inr (Some event))"
    by (simp add: sample_def demo_processor_def event_limits sample_message_def py_int_def demo_runtime_def Let_def)
  then obtain p1 where "sample demo_runtime ''lowBattery'' (py ''system:0'') (PyFloat (Num 19)) 1700000010 False
      demo_processor = Some (p1, Inr (Some event))" ..
  with low_battery_once_per_crossing [OF this, of 18 1700000020 False] show ?thesis by blast
qed

end
