(* ===== verification/PushService.thy ===== *)
theory PushService
  imports PushEvents
begin

text \<open>
  The push service (\<open>push_service.py\<close>): what it queues, how its two workers claim, send and
  complete deliveries, and what its requests do meanwhile. Every definition is one stretch of code
  between two awaits, which asyncio runs without interruption; \<open>now\<close> is the clock during it.
  \<open>_deliver\<close> has one await, so it is \<open>deliver_start\<close> and \<open>deliver_end\<close>, and what the transport
  did in between is a \<open>send_result\<close>. Logging is left out.
\<close>

record service =
  available :: bool
  db :: push_store
  proc :: processor
  connection :: "(pystring \<times> nat) option"
  test_times :: "rat list"

definition fail :: "service \<Rightarrow> service" where
  "fail s = s\<lparr>available := False, connection := None\<rparr>"

section \<open>Requests\<close>

definition preference :: "pyval \<Rightarrow> pystring \<Rightarrow> pyval" where
  "preference prefs kind = (case map_of (py_items prefs) kind of None \<Rightarrow> PyNone | Some v \<Rightarrow> v)"

definition targets :: "pyval \<Rightarrow> push_store \<Rightarrow> pystring list" where
  "targets event st =
     map s_id (filter (\<lambda>s. preference (s_preferences s) (payload_text event ''kind'') = PyBool True)
       (subscriptions st))"

definition queue :: "runtime \<Rightarrow> bool \<Rightarrow> pyval option \<Rightarrow> rat \<Rightarrow> service \<Rightarrow> service \<times> bool outcome" where
  "queue rt disk event now s =
     (if \<not> available s \<or> event = None \<or> connection s = None then (s, Inr False)
      else case enqueue rt disk (payload_text (the event) ''eventKey'') (the event)
                  (targets (the event) (db s)) now (epoch (proc s)) (db s) of
        (st, r) \<Rightarrow> (s\<lparr>db := st\<rparr>, r))"

text \<open>The same in a sequence, as the observer queues the events of one observation; it answers the
  first exception, and which of the events were queued.\<close>

fun queue_all :: "runtime \<Rightarrow> (nat \<Rightarrow> bool) \<Rightarrow> pyval list \<Rightarrow> rat \<Rightarrow> service \<Rightarrow> service \<times> pystring list \<times> unit outcome" where
  "queue_all rt disks [] now s = (s, [], Inr ())"
| "queue_all rt disks (v # vs) now s =
     (case queue rt (disks 0) (Some v) now s of
        (s1, Inl e) \<Rightarrow> (s1, [], Inl e)
      | (s1, Inr new) \<Rightarrow>
          (case queue_all rt (\<lambda>i. disks (Suc i)) vs now s1 of
             (s2, queued, r) \<Rightarrow> (s2, (if new then [payload_text v ''eventKey''] else []) @ queued, r)))"

text \<open>\<open>PushObserver\<close> runs \<open>native\<close>, queues its events, and calls \<open>fail\<close> on every exception
  but the one that cannot happen: \<open>None\<close> is a call that does not return.\<close>

definition observe_native ::
  "runtime \<Rightarrow> (nat \<Rightarrow> bool) \<Rightarrow> (nat \<Rightarrow> bool) \<Rightarrow> pyval list \<Rightarrow> rat \<Rightarrow> bool \<Rightarrow> service
    \<Rightarrow> (service \<times> pystring list) option" where
  "observe_native rt disks disks2 ns now prime s =
     (if \<not> available s then Some (s, [])
      else case native rt disks ns now prime (proc s) (db s) of
          None \<Rightarrow> None
        | Some (st, Inl e) \<Rightarrow> Some (fail (s\<lparr>db := st\<rparr>), [])
        | Some (st, Inr (p, out)) \<Rightarrow>
            (case queue_all rt disks2 out now (s\<lparr>db := st, proc := p\<rparr>) of
               (s1, queued, Inl e) \<Rightarrow> Some (fail s1, queued)
             | (s1, queued, Inr _) \<Rightarrow> Some (s1, queued)))"

definition observe_sample ::
  "runtime \<Rightarrow> bool \<Rightarrow> string \<Rightarrow> pystring \<Rightarrow> pyval \<Rightarrow> rat \<Rightarrow> bool \<Rightarrow> service \<Rightarrow> (service \<times> pystring list) option" where
  "observe_sample rt disk kind ident v now prime s =
     (if \<not> available s then Some (s, [])
      else case sample rt kind ident v now prime (proc s) of
          None \<Rightarrow> None
        | Some (p, Inl e) \<Rightarrow> Some (fail (s\<lparr>proc := p\<rparr>), [])
        | Some (p, Inr event) \<Rightarrow>
            (case queue rt disk event now (s\<lparr>proc := p\<rparr>) of
               (s1, Inl e) \<Rightarrow> Some (fail s1, [])
             | (s1, Inr new) \<Rightarrow> Some (s1, if new then [payload_text (the event) ''eventKey''] else [])))"

text \<open>\<open>register\<close> and \<open>delete\<close> take the subscription after \<open>validate_subscription\<close> and the endpoint
  after \<open>endpoint_host\<close>.\<close>

definition register_request ::
  "runtime \<Rightarrow> bool \<Rightarrow> subscription \<Rightarrow> pyval \<Rightarrow> rat \<Rightarrow> service \<Rightarrow> service \<times> pyval outcome" where
  "register_request rt disk sub selected now s =
     (case preferences selected of
        Inl e \<Rightarrow> (s, Inl e)
      | Inr prefs \<Rightarrow>
          (case register rt disk sub prefs now (db s) of
             (st, Inl SubscriptionLimit) \<Rightarrow> (s\<lparr>db := st\<rparr>, Inl PushRateLimit)
           | (st, Inl e) \<Rightarrow> (s\<lparr>db := st\<rparr>, Inl e)
           | (st, Inr i) \<Rightarrow> (s\<lparr>db := st\<rparr>, Inr prefs)))"

definition endpoint_id :: "runtime \<Rightarrow> pystring \<Rightarrow> pystring outcome" where
  "endpoint_id rt url = (case encode url of Inl e \<Rightarrow> Inl e | Inr b \<Rightarrow> Inr (sha256_hex rt b))"

definition delete_request :: "runtime \<Rightarrow> bool \<Rightarrow> pystring \<Rightarrow> service \<Rightarrow> service \<times> unit outcome" where
  "delete_request rt disk url s =
     (case endpoint_id rt url of
        Inl e \<Rightarrow> (s, Inl e)
      | Inr i \<Rightarrow> (case delete disk i (db s) of (st, r) \<Rightarrow> (s\<lparr>db := st\<rparr>, r)))"

text \<open>A test event is named by a fresh \<open>uuid4().hex\<close>. The rate limits answer \<open>PushRateLimit\<close>.\<close>

definition test ::
  "runtime \<Rightarrow> (nat \<Rightarrow> bool) \<Rightarrow> pystring \<Rightarrow> pystring \<Rightarrow> rat \<Rightarrow> service \<Rightarrow> (service \<times> pystring list \<times> unit outcome) option" where
  "test rt disks url uuid now s =
     (case endpoint_id rt url of
        Inl e \<Rightarrow> Some (s, [], Inl e)
      | Inr i \<Rightarrow>
          (case get (db s) i of
             None \<Rightarrow> Some (s, [], Inl KeyError)
           | Some subscriber \<Rightarrow>
               let s1 = s\<lparr>test_times := dropWhile (\<lambda>t. 60 \<le> now - t) (test_times s)\<rparr> in
               (case has_delivery_capacity (disks 0) now (db s1) of
                  (st, Inl e) \<Rightarrow> Some (s1\<lparr>db := st\<rparr>, [], Inl e)
                | (st, Inr capacity) \<Rightarrow>
                    let s2 = s1\<lparr>db := st\<rparr> in
                    if \<not> capacity \<or> length (test_times s2) \<ge> 10 then Some (s2, [], Inl PushRateLimit)
                    else case allow_test (disks 1) i now (db s2) of
                        (st2, Inl e) \<Rightarrow> Some (s2\<lparr>db := st2\<rparr>, [], Inl e)
                      | (st2, Inr False) \<Rightarrow> Some (s2\<lparr>db := st2\<rparr>, [], Inl PushRateLimit)
                      | (st2, Inr True) \<Rightarrow>
                          let s3 = s2\<lparr>db := st2, test_times := test_times s2 @ [now]\<rparr> in
                          (case event_payload rt (py ''test'') (py ''system'') uuid (py_int (now * 1000)) now
                                  (py ''Inverter Dashboard test'')
                                  (py ''This is a requested test notification.'') of
                             None \<Rightarrow> None
                           | Some (Inl e) \<Rightarrow> Some (s3, [], Inl e)
                           | Some (Inr event) \<Rightarrow>
                               (case enqueue rt (disks 2) (payload_text event ''eventKey'') event [i] now
                                       (py ''test'') (db s3) of
                                  (st3, Inl e) \<Rightarrow> Some (s3\<lparr>db := st3\<rparr>, [], Inl e)
                                | (st3, Inr new) \<Rightarrow>
                                    Some (s3\<lparr>db := st3\<rparr>,
                                      if new then [payload_text event ''eventKey''] else [], Inr ()))))))"

text \<open>\<open>_retire\<close>: the new epoch is a fresh \<open>uuid4().hex\<close>. The in-flight sends that it cancels are
  tasks of the workers and end on their own time.\<close>

definition retire :: "bool \<Rightarrow> pystring \<Rightarrow> rat \<Rightarrow> service \<Rightarrow> service" where
  "retire disk uuid now s =
     (case reset disk uuid now (db s) of
        (st, p, Inl e) \<Rightarrow> fail (s\<lparr>db := st, proc := p\<rparr>)
      | (st, p, Inr _) \<Rightarrow> s\<lparr>db := st, proc := p\<rparr>)"

definition connect ::
  "runtime \<Rightarrow> bool \<Rightarrow> pystring \<Rightarrow> nat \<Rightarrow> bool \<Rightarrow> pystring \<Rightarrow> rat \<Rightarrow> service \<Rightarrow> service \<times> bool" where
  "connect rt disk source owner force uuid now s =
     (if \<not> available s then (s, False)
      else if \<not> force \<and> connection s = Some (source, owner) then (s, False)
      else
        let s1 = retire disk uuid now s in
        if \<not> available s1 then (s1, False)
        else
          let s2 = s1\<lparr>connection := Some (source, owner)\<rparr> in
          \<comment> \<open>\<open>native([], now, prime=True)\<close>\<close>
          (if source = py ''mqtt'' then s2\<lparr>proc := (proc s2)\<lparr>unknown_primed := [], native_primed := True\<rparr>\<rparr>
           else s2, True))"

definition disconnect :: "bool \<Rightarrow> (pystring \<times> nat) option \<Rightarrow> pystring \<Rightarrow> rat \<Rightarrow> service \<Rightarrow> service" where
  "disconnect disk source uuid now s =
     (if \<not> available s then s
      else if source \<noteq> None \<and> connection s \<noteq> source then s
      else retire disk uuid now (s\<lparr>connection := None\<rparr>))"

section \<open>Deliveries\<close>

datatype send_result =
    Status int
  | Cancelled
  | Invalid
  | Broken

definition still_owns :: "delivery \<Rightarrow> rat \<Rightarrow> service \<Rightarrow> bool" where
  "still_owns d now s \<longleftrightarrow>
     available s \<and> d_epoch d \<in> {py ''test'', epoch (proc s)} \<and> owns_delivery (db s) d now"

text \<open>Up to the await: the subscription to send to, or nothing when the delivery is dropped.\<close>

definition deliver_start :: "bool \<Rightarrow> delivery \<Rightarrow> service \<Rightarrow> service \<times> subscriber option outcome" where
  "deliver_start disk d s =
     (let subscription = get (db s) (d_subscription d);
          kind = payload_text (d_payload d) ''kind''
      in if subscription = None
            \<or> d_epoch d \<notin> {py ''test'', epoch (proc s)}
            \<or> kind \<noteq> py ''test'' \<and> \<not> py_truthy (preference (s_preferences (the subscription)) kind)
         then (case finish disk d None (db s) of
                 (st, Inl e) \<Rightarrow> (s\<lparr>db := st\<rparr>, Inl e)
               | (st, Inr _) \<Rightarrow> (s\<lparr>db := st\<rparr>, Inr None))
         else (s, Inr subscription))"

definition backoff :: "delivery \<Rightarrow> rat" where
  "backoff d = min 60 (5 * 2 ^ d_attempts d)"

text \<open>After the await. A subscription that the provider has forgotten is deleted; should that fail,
  the exception counts as a broken send.\<close>

definition complete :: "bool \<Rightarrow> delivery \<Rightarrow> rat option \<Rightarrow> rat \<Rightarrow> service \<Rightarrow> service \<times> unit outcome" where
  "complete disk d retry_at now s =
     (if still_owns d now s
      then (case finish disk d retry_at (db s) of (st, r) \<Rightarrow> (s\<lparr>db := st\<rparr>, r))
      else (s, Inr ()))"

definition deliver_end ::
  "bool \<Rightarrow> bool \<Rightarrow> delivery \<Rightarrow> send_result \<Rightarrow> rat \<Rightarrow> service \<Rightarrow> service \<times> unit outcome" where
  "deliver_end disk disk2 d result now s =
     (case result of
        Status status \<Rightarrow>
          if \<not> still_owns d now s then (s, Inr ())
          else if status = 404 \<or> status = 410 then
            (case delete disk (d_subscription d) (db s) of
               (st, Inl e) \<Rightarrow> complete disk2 d (Some (now + backoff d)) now (s\<lparr>db := st\<rparr>)
             | (st, Inr _) \<Rightarrow> complete disk2 d None now (s\<lparr>db := st\<rparr>))
          else if status = 429 \<or> status \<ge> 500 then complete disk2 d (Some (now + backoff d)) now s
          else complete disk2 d None now s
      | Cancelled \<Rightarrow> complete disk2 d None now s
      | Invalid \<Rightarrow> complete disk2 d None now s
      | Broken \<Rightarrow> complete disk2 d (Some (now + backoff d)) now s)"

text \<open>One turn of \<open>_worker\<close> up to the await of the send; any exception takes the service down.\<close>

definition worker_claim ::
  "bool \<Rightarrow> bool \<Rightarrow> bool \<Rightarrow> rat \<Rightarrow> service \<Rightarrow> service \<times> delivery option" where
  "worker_claim disk disk2 disk3 now s =
     (if \<not> available s then (s, None)
      else case next_delivery disk disk2 True now (db s) of
          (st, Inl e) \<Rightarrow> (fail (s\<lparr>db := st\<rparr>), None)
        | (st, Inr None) \<Rightarrow> (s\<lparr>db := st\<rparr>, None)
        | (st, Inr (Some d)) \<Rightarrow>
            (case deliver_start disk3 d (s\<lparr>db := st\<rparr>) of
               (s1, Inl e) \<Rightarrow> (fail s1, None)
             | (s1, Inr None) \<Rightarrow> (s1, None)
             | (s1, Inr (Some _)) \<Rightarrow> (s1, Some d)))"

definition worker_end :: "bool \<Rightarrow> bool \<Rightarrow> delivery \<Rightarrow> send_result \<Rightarrow> rat \<Rightarrow> service \<Rightarrow> service" where
  "worker_end disk disk2 d result now s =
     (case deliver_end disk disk2 d result now s of
        (s1, Inl e) \<Rightarrow> fail s1
      | (s1, Inr _) \<Rightarrow> s1)"

section \<open>A notification that cannot be encoded\<close>

text \<open>The timestamps that \<open>datetime\<close> can represent are in range.\<close>

definition dates_ok :: "runtime \<Rightarrow> pyval list \<Rightarrow> bool" where
  "dates_ok rt ns \<longleftrightarrow> (\<forall>n \<in> set ns. \<forall>t. timestamp_ms rt (py_get n ''ts'' PyNone) = Some t \<longrightarrow> time_range t)"

definition encodable :: "runtime \<Rightarrow> pyval \<Rightarrow> bool" where
  "encodable rt n \<longleftrightarrow>
     message_ok (notification_id rt n) (fst (occurrence rt n)) (snd (occurrence rt n))"

lemma native_payload_cases:
  assumes "time_range t" and "clock_ok now" and "\<And>b. hex64 (sha256_hex rt b)"
  shows "event_of rt now n t = Some (Inl ValueError) \<and> \<not> encodable rt n
    \<or> (\<exists>e. event_of rt now n t = Some (Inr e)) \<and> encodable rt n"
proof -
  have "server_source ''native'' (native_source n)"
    by (simp add: server_source_def native_source_def)
  from event_payload_cases [OF this assms(1) clock_time_range [OF assms(2)] assms(3),
      of "notification_id rt n" "fst (occurrence rt n)" "snd (occurrence rt n)"]
  show ?thesis
    by (auto simp: event_of_def encodable_def split: if_splits)
qed

lemma native_event_outcome:
  assumes "dates_ok rt [n]" and "clock_ok now" and "\<And>b. hex64 (sha256_hex rt b)"
  shows "\<exists>st1 r. native_event rt disk n now prime p st = Some (st1, r)"
    and "timestamp_ms rt (py_get n ''ts'' PyNone) \<noteq> None \<Longrightarrow> \<not> encodable rt n \<Longrightarrow>
      native_event rt disk n now prime p st = Some (st, Inl ValueError)"
proof -
  note payload = native_payload_cases [OF _ assms(2,3), unfolded event_of_def]
  show "\<exists>st1 r. native_event rt disk n now prime p st = Some (st1, r)"
  proof (cases "timestamp_ms rt (py_get n ''ts'' PyNone)")
    case None
    then show ?thesis by (simp add: native_event_def Let_def)
  next
    case (Some t)
    with assms(1) have "time_range t" by (simp add: dates_ok_def)
    from payload [OF this, of n] Some show ?thesis
      by (auto simp: native_event_def Let_def remember_event_def split: prod.split sum.split)
  qed
  show "native_event rt disk n now prime p st = Some (st, Inl ValueError)"
    if "timestamp_ms rt (py_get n ''ts'' PyNone) \<noteq> None" "\<not> encodable rt n"
  proof -
    from that(1) obtain t where t: "timestamp_ms rt (py_get n ''ts'' PyNone) = Some t" by auto
    with assms(1) have "time_range t" by (simp add: dates_ok_def)
    from payload [OF this, of n] t that(2) show ?thesis by (auto simp: native_event_def Let_def)
  qed
qed

lemma native_loop_raises:
  assumes "dates_ok rt ns" and "clock_ok now" and "\<And>b. hex64 (sha256_hex rt b)"
    and "\<exists>n \<in> set ns. timestamp_ms rt (py_get n ''ts'' PyNone) \<noteq> None \<and> \<not> encodable rt n"
  shows "\<exists>st1 e. native_loop rt disks now prime ns p st = Some (st1, Inl e)"
  using assms(1,4)
proof (induction ns arbitrary: disks p st)
  case (Cons n ns)
  from Cons.prems(1) have dates: "dates_ok rt [n]" "dates_ok rt ns" by (simp_all add: dates_ok_def)
  note outcome = native_event_outcome [OF dates(1) assms(2,3)]
  show ?case
  proof (cases "timestamp_ms rt (py_get n ''ts'' PyNone) \<noteq> None \<and> \<not> encodable rt n")
    case True
    with outcome(2) show ?thesis by simp
  next
    case False
    with Cons.prems(2) have rest: "\<exists>n \<in> set ns. timestamp_ms rt (py_get n ''ts'' PyNone) \<noteq> None \<and> \<not> encodable rt n"
      by auto
    from outcome(1) obtain st1 r where first: "native_event rt (disks 0) n now prime p st = Some (st1, r)" by blast
    show ?thesis
    proof (cases r)
      case (Inl e)
      with first show ?thesis by simp
    next
      case (Inr pe)
      obtain p1 e where pe: "pe = (p1, e)" by (cases pe)
      from Cons.IH [OF dates(2) rest, of "\<lambda>i. disks (Suc i)" p1 st1] obtain st2 e2
        where "native_loop rt (\<lambda>i. disks (Suc i)) now prime ns p1 st1 = Some (st2, Inl e2)" by blast
      with first Inr pe show ?thesis by simp
    qed
  qed
qed simp

text \<open>C20: One native notification with a timestamp and a lone surrogate in its text disables push for
  good: the observation takes the service down and nothing is queued any more.\<close>

theorem unencodable_notification_disables_push:
  assumes "available s" and "dates_ok rt ns" and "clock_ok now" and "\<And>b. hex64 (sha256_hex rt b)"
    and "n \<in> set (take 100 ns)" and "timestamp_ms rt (py_get n ''ts'' PyNone) \<noteq> None" and "\<not> encodable rt n"
  shows "\<exists>s1. observe_native rt disks disks2 ns now prime s = Some (s1, []) \<and> \<not> available s1
    \<and> (\<forall>rt' disk event later. queue rt' disk event later s1 = (s1, Inr False))"
proof -
  have "dates_ok rt (take 100 ns)"
    using assms(2) by (auto simp: dates_ok_def dest: in_set_takeD)
  note raises = native_loop_raises [OF this assms(3,4)]
  let ?p = "proc s\<lparr>unknown_primed := filter (\<lambda>(k, v). k \<in> notification_id rt ` set (take 100 ns))
    (unknown_primed (proc s))\<rparr>"
  from raises assms(5-7) obtain st1 e where
    "native_loop rt disks now (prime \<or> \<not> native_primed (proc s)) (take 100 ns) ?p (db s) = Some (st1, Inl e)"
    by blast
  then have "native rt disks ns now prime (proc s) (db s) = Some (st1, Inl e)"
    by (simp add: native_def Let_def)
  with assms(1) show ?thesis by (simp add: observe_native_def queue_def fail_def)
qed

definition lone_surrogate :: pyval where
  "lone_surrogate = PyDict [(py ''id'', pylit ''n''), (py ''title'', PyStr [0xD800]),
     (py ''ts'', pylit ''2023-11-14T22:13:20Z'')]"

lemma unencodable_notification_disables_push_witness:
  "\<exists>s1. observe_native demo_runtime (\<lambda>_. True) (\<lambda>_. True) [lone_surrogate] 1700000001 False
      \<lparr>available = True, db = no_rows, proc = demo_processor, connection = Some (py ''igw'', 0), test_times = []\<rparr>
     = Some (s1, []) \<and> \<not> available s1"
proof -
  have "timestamp_ms demo_runtime (py_get lone_surrogate ''ts'' PyNone) = Some 1700000000000"
    by (simp add: lone_surrogate_def py_get_def timestamp_ms_def demo_runtime_def py_int_def)
  moreover have "\<not> encodable demo_runtime lone_surrogate"
    by (simp add: encodable_def message_ok_def lone_surrogate_def occurrence_def py_get_def py_str_def scalar_def)
  ultimately show ?thesis
    using unencodable_notification_disables_push [of "\<lparr>available = True, db = no_rows, proc = demo_processor,
        connection = Some (py ''igw'', 0), test_times = []\<rparr>" demo_runtime "[lone_surrogate]" 1700000001
        lone_surrogate "\<lambda>_. True" "\<lambda>_. True" False, OF _ _ _ demo_digest]
    by (simp add: dates_ok_def clock_ok_def time_range_def MAX_SAFE_INTEGER_def take_Cons') blast
qed

end
