(* ===== verification/PushStart.thy ===== *)
theory PushStart
  imports PushEvents
begin

text \<open>
  The start of the push service (\<open>PushStore._validate_existing_rows\<close> and the loops of
  \<open>PushService.__init__\<close>): every row found is checked before the workers start, and a row that
  fails disables push. The property closes the circle: what is accepted at one start and then used
  through the store's operations is accepted at the next. \<open>check\<close> is \<open>validate_subscription\<close>,
  which decodes keys with a library: it answers the subscription as the store keeps it.
\<close>

definition foreign_keys_ok :: "push_store \<Rightarrow> bool" where
  "foreign_keys_ok st \<longleftrightarrow>
     list_all (\<lambda>d. d_subscription d \<in> s_id ` set (subscribers st)) (deliveries st)"

definition validate_existing_rows :: "push_store \<Rightarrow> unit outcome" where
  "validate_existing_rows st =
     (if \<not> foreign_keys_ok st then Inl ValueError
      else if length (subscribers st) > MAX_SUBSCRIPTIONS \<or> length (remembered st) > MAX_REMEMBERED
              \<or> length (deliveries st) > MAX_DELIVERIES then Inl ValueError
      else if list_ex (\<lambda>d. \<not> is_dict (d_payload d) \<or> d_attempts d \<notin> {0, 1, 2}) (deliveries st)
        then Inl ValueError
      else Inr ())"

definition check_subscriber ::
  "runtime \<Rightarrow> (subscription \<Rightarrow> subscription outcome) \<Rightarrow> subscriber \<Rightarrow> unit outcome" where
  "check_subscriber rt check s =
     (case check (s_subscription s) of
        Inl e \<Rightarrow> Inl e
      | Inr validated \<Rightarrow>
          (case encode (endpoint validated) of
             Inl e \<Rightarrow> Inl e
           | Inr b \<Rightarrow>
               if validated \<noteq> s_subscription s \<or> sha256_hex rt b \<noteq> s_id s then Inl ValueError
               else (case preferences (s_preferences s) of Inl e \<Rightarrow> Inl e | Inr _ \<Rightarrow> Inr ())))"

definition check_delivery :: "runtime \<Rightarrow> delivery \<Rightarrow> unit outcome" where
  "check_delivery rt d =
     (case validate_persisted_payload rt (d_payload d) of
        Inl e \<Rightarrow> Inl e
      | Inr _ \<Rightarrow> if py_item (d_payload d) ''eventKey'' \<noteq> PyStr (d_event d) then Inl ValueError else Inr ())"

text \<open>A loop whose body raises or goes on.\<close>

fun for_each :: "('a \<Rightarrow> unit outcome) \<Rightarrow> 'a list \<Rightarrow> unit outcome" where
  "for_each f [] = Inr ()"
| "for_each f (x # xs) = (case f x of Inl e \<Rightarrow> Inl e | Inr _ \<Rightarrow> for_each f xs)"

definition startup ::
  "runtime \<Rightarrow> (subscription \<Rightarrow> subscription outcome) \<Rightarrow> push_store \<Rightarrow> unit outcome" where
  "startup rt check st =
     (case validate_existing_rows st of
        Inl e \<Rightarrow> Inl e
      | Inr _ \<Rightarrow>
          (case for_each (check_subscriber rt check) (subscriptions st) of
             Inl e \<Rightarrow> Inl e
           | Inr _ \<Rightarrow> for_each (check_delivery rt) (deliveries st)))"

text \<open>The primary keys, which the database itself keeps unique.\<close>

definition keys_ok :: "push_store \<Rightarrow> bool" where
  "keys_ok st \<longleftrightarrow> distinct (map s_id (subscribers st)) \<and> distinct (map r_id (remembered st))
     \<and> distinct (map row_key (deliveries st))"

text \<open>What the service passes to the store: registrations after \<open>validate_subscription\<close> and
  \<open>preferences\<close>, and events that \<open>event_payload\<close> built (\<open>built_payload_validates\<close>).\<close>

fun served_call ::
  "runtime \<Rightarrow> (subscription \<Rightarrow> subscription outcome) \<Rightarrow> push_store \<Rightarrow> store_call \<Rightarrow> bool" where
  "served_call rt check st (Register disk sub prefs now) =
     (check sub = Inr sub \<and> preferences prefs = Inr prefs)"
| "served_call rt check st (Enqueue disk ev payload ts now ep) =
     (validate_persisted_payload rt payload = Inr () \<and> py_item payload ''eventKey'' = PyStr ev)"
| "served_call rt check st c = call_allowed st c"

inductive served :: "runtime \<Rightarrow> (subscription \<Rightarrow> subscription outcome) \<Rightarrow> push_store \<Rightarrow> push_store \<Rightarrow> bool"
  for rt check where
  opened: "served rt check st st"
| called: "served rt check st st1 \<Longrightarrow> served_call rt check st1 c \<Longrightarrow> served rt check st (store_step rt c st1)"

section \<open>Lemmas\<close>

lemma for_each_Inr: "for_each f xs = Inr u \<longleftrightarrow> (\<forall>x \<in> set xs. f x = Inr ())"
  by (induction xs) (auto split: sum.splits)

definition rows_ok :: "runtime \<Rightarrow> (subscription \<Rightarrow> subscription outcome) \<Rightarrow> push_store \<Rightarrow> bool" where
  "rows_ok rt check st \<longleftrightarrow>
     (\<forall>s \<in> set (subscribers st). check_subscriber rt check s = Inr ())
     \<and> (\<forall>d \<in> set (deliveries st). check_delivery rt d = Inr ())"

lemma check_delivery_dict: "check_delivery rt d = Inr () \<Longrightarrow> is_dict (d_payload d)"
  by (auto simp: check_delivery_def validate_persisted_payload_def split: pyval.splits sum.splits)

lemma below_3: "n \<in> {0, 1, 2} \<longleftrightarrow> n < (3 :: nat)"
  by auto

lemma startup_iff: "keys_ok st \<Longrightarrow> startup rt check st = Inr () \<longleftrightarrow> db_ok st \<and> rows_ok rt check st"
proof -
  assume keys: "keys_ok st"
  have "set (subscriptions st) = set (subscribers st)" by (simp add: subscriptions_def)
  moreover have "validate_existing_rows st = Inr () \<longleftrightarrow> db_ok st \<and> (\<forall>d \<in> set (deliveries st). is_dict (d_payload d))"
    using keys unfolding validate_existing_rows_def below_3
    by (auto simp: foreign_keys_ok_def db_ok_def keys_ok_def list_all_iff list_ex_iff)
  moreover have "startup rt check st = Inr () \<longleftrightarrow> validate_existing_rows st = Inr ()
      \<and> for_each (check_subscriber rt check) (subscriptions st) = Inr ()
      \<and> for_each (check_delivery rt) (deliveries st) = Inr ()"
    by (simp add: startup_def split: sum.splits)
  ultimately show ?thesis
    by (auto simp: for_each_Inr rows_ok_def dest: check_delivery_dict)
qed

lemma db_ok_keys: "db_ok st \<Longrightarrow> keys_ok st"
  by (simp add: db_ok_def keys_ok_def)

lemma check_delivery_cong:
  "d_payload d = d_payload x \<Longrightarrow> d_event d = d_event x \<Longrightarrow> check_delivery rt d = check_delivery rt x"
  by (simp add: check_delivery_def)

lemma check_subscriber_cong:
  "s_id s = s_id x \<Longrightarrow> s_subscription s = s_subscription x \<Longrightarrow> s_preferences s = s_preferences x \<Longrightarrow>
     check_subscriber rt check s = check_subscriber rt check x"
  by (simp add: check_subscriber_def cong: sum.case_cong if_cong)

text \<open>Every row after a call comes from one before it, but for what \<open>register\<close> and
  \<open>enqueue\<close> put.\<close>

definition from_before :: "push_store \<Rightarrow> push_store \<Rightarrow> bool" where
  "from_before st st1 \<longleftrightarrow>
     (\<forall>s \<in> set (subscribers st1). \<exists>x \<in> set (subscribers st). s_id s = s_id x
        \<and> s_subscription s = s_subscription x \<and> s_preferences s = s_preferences x)
     \<and> (\<forall>d \<in> set (deliveries st1). \<exists>x \<in> set (deliveries st). d_payload d = d_payload x \<and> d_event d = d_event x)"

lemma from_before_rows_ok:
  assumes "from_before st st1" and "rows_ok rt check st"
  shows "rows_ok rt check st1"
  unfolding rows_ok_def
proof (intro conjI ballI)
  fix s
  assume "s \<in> set (subscribers st1)"
  with assms(1) obtain x where "x \<in> set (subscribers st)" "s_id s = s_id x"
    "s_subscription s = s_subscription x" "s_preferences s = s_preferences x"
    unfolding from_before_def by blast
  with assms(2) show "check_subscriber rt check s = Inr ()"
    by (simp add: rows_ok_def check_subscriber_cong [of s x])
next
  fix d
  assume "d \<in> set (deliveries st1)"
  with assms(1) obtain x where "x \<in> set (deliveries st)" "d_payload d = d_payload x" "d_event d = d_event x"
    unfolding from_before_def by blast
  with assms(2) show "check_delivery rt d = Inr ()"
    by (simp add: rows_ok_def check_delivery_cong [of d x])
qed

lemma from_before_refl: "from_before st st"
  by (auto simp: from_before_def)

lemma from_before_sub:
  "subscribers st1 = subscribers st \<Longrightarrow> set (deliveries st1) \<subseteq> set (deliveries st) \<Longrightarrow> from_before st st1"
  by (fastforce simp: from_before_def)

lemma with_db_before:
  assumes "\<And>st1 a. block st = (st1, Inr a) \<Longrightarrow> from_before st st1"
  shows "from_before st (fst (with_db disk block st))"
  using assms by (cases rule: with_db_cases [of disk block st]) (auto simp: from_before_refl)

lemma from_before_trans: "from_before st st1 \<Longrightarrow> from_before st1 st2 \<Longrightarrow> from_before st st2"
  unfolding from_before_def by metis

lemma update_row_before:
  "(\<And>d. d_payload (f d) = d_payload d \<and> d_event (f d) = d_event d) \<Longrightarrow> from_before st (update_row k f st)"
  by (fastforce simp: from_before_def update_row_def split: if_splits)

lemma expire_before: "from_before st (expire now st)"
  by (rule from_before_sub) (auto simp: expire_def)

lemma next_delivery_before: "from_before st (fst (next_delivery disk disk2 claim now st))"
proof -
  have first: "from_before st (fst (with_db disk (\<lambda>st. (expire now st, Inr ())) st))"
    by (rule with_db_before) (auto intro: expire_before)
  have second: "from_before st1 (fst (with_db disk2
      (\<lambda>st. (update_row k (\<lambda>d. d\<lparr>d_next_at := now + 30\<rparr>) st, Inr (Some row :: delivery option))) st1))" for k row st1
    by (rule with_db_before) (auto intro: update_row_before)
  show ?thesis
    using first from_before_trans [OF _ second]
    by (auto simp: next_delivery_def split: prod.splits sum.splits option.splits)
qed

lemma finish_before: "from_before st (fst (finish disk delivery retry_at st))"
  unfolding finish_def
  by (rule with_db_before) (auto intro: update_row_before from_before_sub split: option.splits if_splits)

lemma has_delivery_capacity_before: "from_before st (fst (has_delivery_capacity disk now st))"
proof -
  have "from_before st (fst (with_db disk (\<lambda>st. (expire now st, Inr ())) st))"
    by (rule with_db_before) (auto intro: expire_before)
  then show ?thesis by (auto simp: has_delivery_capacity_def split: prod.splits sum.splits)
qed

lemma allow_test_before: "from_before st (fst (allow_test disk i now st))"
  unfolding allow_test_def
  by (rule with_db_before) (fastforce simp: from_before_def split: if_splits)

lemma delete_before: "from_before st (fst (delete disk i st))"
  unfolding delete_def by (rule with_db_before) (auto simp: from_before_def)

lemma retire_before: "from_before st (fst (retire_epochs disk ep st))"
  unfolding retire_epochs_def by (rule with_db_before) (auto intro: from_before_sub)

lemma remember_before: "from_before st (fst (remember disk i now st))"
  unfolding remember_def
  by (rule with_db_before) (auto intro: from_before_sub simp: remember_row_def Let_def)

lemma upsert_cases:
  assumes "s \<in> set (upsert i sub prefs now ss)"
  shows "s_id s = i \<and> s_subscription s = sub \<and> s_preferences s = prefs \<or> s \<in> set ss"
  using assms by (auto simp: upsert_def split: if_splits)

lemma register_rows_ok:
  assumes "rows_ok rt check st" and "check sub = Inr sub" and "preferences prefs = Inr prefs"
  shows "rows_ok rt check (fst (register rt disk sub prefs now st))"
proof (cases "encode (endpoint sub)")
  case (Inr b)
  have new: "check_subscriber rt check s = Inr ()"
    if "s_id s = sha256_hex rt b" "s_subscription s = sub" "s_preferences s = prefs" for s
    using that assms(2,3) Inr by (simp add: check_subscriber_def)
  from assms(1) show ?thesis
    unfolding register_def Inr sum.case Let_def
    by (rule with_db_keeps) (auto simp: rows_ok_def dest!: upsert_cases intro: new split: if_splits)
qed (simp add: register_def assms)

lemma enqueue_rows_ok:
  assumes "rows_ok rt check st" and "validate_persisted_payload rt payload = Inr ()"
    and "py_item payload ''eventKey'' = PyStr ev"
  shows "rows_ok rt check (fst (enqueue rt disk ev payload ts now ep st))"
proof (cases rule: enqueue_cases [of rt disk ev payload ts now ep st])
  case (1 e)
  with assms(1) show ?thesis by simp
next
  case (2 st1)
  have "from_before st st1"
    using remember_row_frame(1,2) [OF 2(1)] by (intro from_before_sub) (auto simp: expire_def)
  with from_before_rows_ok [OF _ assms(1)] 2(2) show ?thesis by simp
next
  case (3 st1 st2)
  have "from_before st st1"
    using remember_row_frame(1,2) [OF 3(1)] by (intro from_before_sub) (auto simp: expire_def)
  from from_before_rows_ok [OF this assms(1)] have ok: "rows_ok rt check st1" .
  note frame = insert_deliveries_frame [OF 3(2)]
  have "check_delivery rt d = Inr ()" if "d \<in> set (deliveries st2)" for d
  proof (cases "d \<in> set (deliveries st1)")
    case True
    with ok show ?thesis by (simp add: rows_ok_def)
  next
    case False
    with frame that have "d_payload d = payload" "d_event d = ev" by auto
    with assms(2,3) show ?thesis by (simp add: check_delivery_def)
  qed
  with ok frame 3(5) show ?thesis by (simp add: rows_ok_def)
qed

lemma served_step:
  assumes "served_call rt check st c" and "db_ok st" and "rows_ok rt check st"
  shows "db_ok (store_step rt c st) \<and> rows_ok rt check (store_step rt c st)"
proof (intro conjI)
  have "call_allowed st c" using assms(1) by (cases c) simp_all
  with assms(2) show "db_ok (store_step rt c st)" by (rule store_step_ok)
  have before: "rows_ok rt check st1" if "from_before st st1" for st1
    using from_before_rows_ok [OF that assms(3)] .
  show "rows_ok rt check (store_step rt c st)"
    using assms(1,3)
    by (cases c) (auto intro: before next_delivery_before finish_before has_delivery_capacity_before
        allow_test_before delete_before retire_before remember_before register_rows_ok enqueue_rows_ok)
qed

lemma served_ok: "served rt check st st1 \<Longrightarrow> db_ok st \<Longrightarrow> rows_ok rt check st \<Longrightarrow> db_ok st1 \<and> rows_ok rt check st1"
  by (induction rule: served.induct) (auto dest: served_step)

section \<open>Properties\<close>

definition empty_store :: push_store where
  "empty_store = \<lparr>remembered = [], subscribers = [], deliveries = []\<rparr>"

text \<open>C13: A store that passes the checks at one start passes them at the next, whatever the service
  did with it in between, and stays within its limits.\<close>

theorem store_is_accepted_again:
  assumes "keys_ok st" and "startup rt check st = Inr ()" and "served rt check st st1"
  shows "startup rt check st1 = Inr () \<and> keys_ok st1
    \<and> length (subscribers st1) \<le> MAX_SUBSCRIPTIONS \<and> length (remembered st1) \<le> MAX_REMEMBERED
    \<and> length (deliveries st1) \<le> MAX_DELIVERIES"
proof -
  from assms(1,2) have "db_ok st \<and> rows_ok rt check st" by (simp add: startup_iff)
  with served_ok [OF assms(3)] have ok: "db_ok st1" "rows_ok rt check st1" by simp_all
  with db_ok_keys [OF ok(1)] show ?thesis by (simp add: startup_iff db_ok_def)
qed

definition demo_subscription :: subscription where
  "demo_subscription = \<lparr>endpoint = py ''https://updates.push.services.mozilla.com/x'',
     p256dh = py ''p'', auth = py ''a''\<rparr>"

definition demo_preferences :: pyval where
  "demo_preferences = PyDict [(py ''native'', PyBool True), (py ''ev'', PyBool False),
     (py ''water'', PyBool True), (py ''lowBattery'', PyBool True)]"

definition test_event :: pyval where
  "test_event = payload_fields (replicate 64 0x61) (py ''test'') (py ''system'') 1700000000000 1700000000000
     (py ''t'') []"

definition demo_store :: push_store where
  "demo_store =
     store_step demo_runtime (Enqueue True (replicate 64 0x61) test_event [replicate 64 0x61] 1700000000 (py ''test''))
       (store_step demo_runtime (Register True demo_subscription demo_preferences 1700000000) empty_store)"

lemma test_event_valid: "validate_persisted_payload demo_runtime test_event = Inr ()"
  unfolding validate_Inr_iff test_event_def
  by (rule built_valid [OF _ _ _ demo_digest,
      of "''test''" "''system''" 1700000000000 1700000000 "py ''x''" "py ''t''" "[]"])
     (simp_all add: demo_payload server_source_def time_range_def MAX_SAFE_INTEGER_def py_int_def
       take_Cons' scalar_of_char)

lemma test_event_items [simp]:
  "py_item test_event ''eventKey'' = PyStr (replicate 64 0x61)"
  "py_item test_event ''sourceTimestampMs'' = PyInt 1700000000000"
  by (simp_all add: test_event_def py_item_def payload_fields_def)

lemma test_event_fits: "enqueue demo_runtime True ev test_event ts now ep st =
   with_db True (\<lambda>st.
      case remember_row ev now (expire now st) of
        (st1, False) \<Rightarrow> (st1, Inr False)
      | (st1, True) \<Rightarrow>
          (case insert_deliveries ev test_event now ep (take (MAX_DELIVERIES - length (deliveries st1)) ts) st1 of
             Inl e \<Rightarrow> (st1, Inl e)
           | Inr st2 \<Rightarrow> (st2, Inr True))) st"
proof -
  from test_event_valid obtain "list_all scalar (json demo_runtime test_event)"
    "json_bytes demo_runtime test_event \<le> MAX_PAYLOAD"
    unfolding validate_Inr_iff valid_payload_def by blast
  then show ?thesis
    by (simp add: enqueue_def encode_payload json_bytes_def utf8_length_def)
qed

lemma demo_row: "deliveries demo_store =
  [\<lparr>d_event = replicate 64 0x61, d_subscription = replicate 64 0x61, d_payload = test_event,
    d_expires_at = 1700000300, d_next_at = 1700000000, d_attempts = 0, d_epoch = py ''test''\<rparr>]"
  by (simp add: demo_store_def test_event_fits register_def demo_subscription_def encode_def empty_store_def
      get_def upsert_def with_db_def MAX_SUBSCRIPTIONS_def remember_row_def expire_def surplus_def
      MAX_REMEMBERED_def MAX_DELIVERIES_def expiry_def Let_def)

lemma store_is_accepted_again_witness:
  "startup demo_runtime Inr demo_store = Inr () \<and> length (deliveries demo_store) = 1"
proof -
  have "served demo_runtime Inr empty_store demo_store"
    unfolding demo_store_def
    by (intro served.called served.opened)
       (simp_all add: test_event_valid preferences_def demo_preferences_def default_preferences_def)
  moreover have "keys_ok empty_store" "startup demo_runtime Inr empty_store = Inr ()"
    by (simp_all add: keys_ok_def empty_store_def startup_def validate_existing_rows_def foreign_keys_ok_def
        subscriptions_def)
  ultimately show ?thesis
    using store_is_accepted_again [of empty_store demo_runtime Inr demo_store] by (simp add: demo_row)
qed

end
