(* ===== verification/PushDelivery.thy ===== *)
theory PushDelivery
  imports PushService PushStart
begin

text \<open>
  What the push service does to the outbox: its two workers claim, send and complete deliveries
  while observations, registrations, tests and reconnections are handled between their awaits and
  commits fail. The lemmas say what each stretch between two awaits may do to the outbox;
  \<open>PushSystem\<close> composes them.
\<close>

section \<open>What a request may do to the outbox\<close>

definition epochs_ok :: "service \<Rightarrow> bool" where
  "epochs_ok s \<longleftrightarrow> (\<forall>d \<in> set (deliveries (db s)). d_epoch d \<in> {py ''test'', epoch (proc s)})"

definition effect :: "service \<Rightarrow> service \<Rightarrow> pystring list \<Rightarrow> bool" where
  "effect s s1 qs \<longleftrightarrow>
     (db_ok (db s) \<longrightarrow> db_ok (db s1)) \<and> (available s1 \<longrightarrow> available s
       \<and> (epochs_ok s \<longrightarrow> epochs_ok s1)
       \<and> (\<forall>d \<in> set (deliveries (db s1)). d \<in> set (deliveries (db s)) \<or> d_event d \<in> set qs \<and> d_attempts d = 0))"

lemma effect_refl: "effect s s []"
  by (simp add: effect_def)

lemma effect_trans: "effect s s1 qs \<Longrightarrow> effect s1 s2 qs1 \<Longrightarrow> effect s s2 (qs @ qs1)"
  unfolding effect_def by auto

lemma fail_simps [simp]: "\<not> available (fail s)" "db (fail s) = db s" "proc (fail s) = proc s"
  by (simp_all add: fail_def)

lemma effect_failed: "(db_ok (db s) \<Longrightarrow> db_ok (db s1)) \<Longrightarrow> effect s (fail s1) qs"
  by (simp add: effect_def)

lemma effect_fail: "effect s s1 qs \<Longrightarrow> effect s (fail s1) qs"
  by (auto intro: effect_failed simp: effect_def)

text \<open>A change of the store that only drops rows.\<close>

lemma effect_store:
  assumes "db_ok (db s) \<Longrightarrow> db_ok st" and "set (deliveries st) \<subseteq> set (deliveries (db s))"
  shows "effect s (s\<lparr>db := st\<rparr>) []"
  using assms by (auto simp: effect_def epochs_ok_def)

lemma with_db_drops:
  assumes "\<And>st1 a. block st = (st1, Inr a) \<Longrightarrow> set (deliveries st1) \<subseteq> set (deliveries st)"
  shows "set (deliveries (fst (with_db disk block st))) \<subseteq> set (deliveries st)"
  using assms by (cases rule: with_db_cases [of disk block st]) auto

lemma register_drops: "set (deliveries (fst (register rt disk sub prefs now st))) \<subseteq> set (deliveries st)"
proof (cases "encode (endpoint sub)")
  case (Inr b)
  show ?thesis
    unfolding register_def Inr sum.case Let_def by (rule with_db_drops) (auto split: if_splits)
qed (simp add: register_def)

lemma delete_drops: "set (deliveries (fst (delete disk i st))) \<subseteq> set (deliveries st)"
  unfolding delete_def by (rule with_db_drops) auto

lemma allow_test_drops: "set (deliveries (fst (allow_test disk i now st))) \<subseteq> set (deliveries st)"
  unfolding allow_test_def by (rule with_db_drops) auto

lemma remember_drops: "set (deliveries (fst (remember disk i now st))) \<subseteq> set (deliveries st)"
  unfolding remember_def
  by (rule with_db_drops) (auto simp: remember_row_def Let_def)

lemma has_delivery_capacity_drops:
  "set (deliveries (fst (has_delivery_capacity disk now st))) \<subseteq> set (deliveries st)"
proof -
  have "set (deliveries (fst (with_db disk (\<lambda>st. (expire now st, Inr ())) st))) \<subseteq> set (deliveries st)"
    by (rule with_db_drops) (auto simp: expire_def)
  then show ?thesis by (auto simp: has_delivery_capacity_def split: prod.splits sum.splits)
qed

lemma enqueue_effect:
  assumes "enqueue rt disk ev payload ts now ep (db s) = (st, r)"
    and "ep \<in> {py ''test'', epoch (proc s)}"
  shows "effect s (s\<lparr>db := st\<rparr>) (if r = Inr True then [ev] else [])"
proof -
  have ok: "db_ok (db s) \<longrightarrow> db_ok st"
    using enqueue_ok [of "db s" rt disk ev payload ts now ep] assms(1) by simp
  have old: "set (deliveries st1) \<subseteq> set (deliveries (db s))"
    if "remember_row ev now (expire now (db s)) = (st1, new)" for st1 new
    using remember_row_frame(1) [OF that] by (auto simp: expire_def)
  show ?thesis
  proof (cases rule: enqueue_cases [of rt disk ev payload ts now ep "db s"])
    case (1 e)
    with assms ok show ?thesis by (auto intro: effect_store)
  next
    case (2 st1)
    with assms ok old [OF 2(1)] show ?thesis by (auto intro: effect_store)
  next
    case (3 st1 st2)
    with assms have "st = st2" "r = Inr True" by simp_all
    with ok old [OF 3(1)] insert_deliveries_frame [OF 3(2)] assms(2) show ?thesis
      unfolding effect_def epochs_ok_def by auto
  qed
qed

lemma queue_effect:
  assumes "queue rt disk event now s = (s1, r)"
  shows "effect s s1 (if r = Inr True then [payload_text (the event) ''eventKey''] else [])"
proof (cases "\<not> available s \<or> event = None \<or> connection s = None")
  case True
  with assms show ?thesis by (auto simp: queue_def effect_refl)
next
  case False
  obtain st r1 where enqueue: "enqueue rt disk (payload_text (the event) ''eventKey'') (the event)
      (targets (the event) (db s)) now (epoch (proc s)) (db s) = (st, r1)" by (rule prod.exhaust)
  have "s1 = s\<lparr>db := st\<rparr>" "r = r1"
    using assms unfolding queue_def if_not_P [OF False] enqueue prod.case by simp_all
  with enqueue_effect [OF enqueue] show ?thesis by simp
qed

lemma queue_all_effect: "queue_all rt disks vs now s = (s1, qs, r) \<Longrightarrow> effect s s1 qs"
proof (induction vs arbitrary: disks s s1 qs r)
  case Nil
  then show ?case by (simp add: effect_refl)
next
  case (Cons v vs)
  obtain s2 r2 where first: "queue rt (disks 0) (Some v) now s = (s2, r2)" by (rule prod.exhaust)
  have effect: "effect s s2 (if r2 = Inr True then [payload_text v ''eventKey''] else [])"
    using queue_effect [OF first] unfolding option.sel .
  show ?case
  proof (cases r2)
    case (Inl e)
    with Cons.prems first effect show ?thesis by simp
  next
    case (Inr new)
    obtain s3 qs3 r3 where rest: "queue_all rt (\<lambda>i. disks (Suc i)) vs now s2 = (s3, qs3, r3)"
      by (rule prod_cases3)
    from effect_trans [OF effect Cons.IH [OF rest]] Cons.prems first rest Inr show ?thesis by auto
  qed
qed

lemma native_event_frame:
  assumes "native_event rt disk n now prime p st = Some (st1, r)"
  shows "(db_ok st \<longrightarrow> db_ok st1) \<and> set (deliveries st1) \<subseteq> set (deliveries st)
    \<and> (\<forall>p1 e. r = Inr (p1, e) \<longrightarrow> epoch p1 = epoch p)"
proof -
  have "(db_ok st \<longrightarrow> db_ok st1) \<and> set (deliveries st1) \<subseteq> set (deliveries st)
      \<and> (\<forall>p2 e. r = Inr (p2, e) \<longrightarrow> p2 = p1)"
    if "remember_event disk event now p1 st = (st1, r)" for event p1
    using that remember_ok [of st disk "payload_text event ''eventKey''" now]
      remember_drops [of disk "payload_text event ''eventKey''" now st]
    by (auto simp: remember_event_def split: prod.splits sum.splits)
  note remembered = this
  show ?thesis
    using assms
    by (auto simp: native_event_def Let_def split: option.splits sum.splits if_splits dest!: remembered)
qed

lemma native_loop_frame:
  "native_loop rt disks now prime ns p st = Some (st1, r) \<Longrightarrow>
     (db_ok st \<longrightarrow> db_ok st1) \<and> set (deliveries st1) \<subseteq> set (deliveries st)
     \<and> (\<forall>p1 out. r = Inr (p1, out) \<longrightarrow> epoch p1 = epoch p)"
proof (induction ns arbitrary: disks p st r st1)
  case (Cons n ns)
  from Cons.prems obtain st2 r2 where first: "native_event rt (disks 0) n now prime p st = Some (st2, r2)"
    by (auto split: option.splits)
  note frame = native_event_frame [OF first]
  show ?case
  proof (cases r2)
    case (Inl e)
    with Cons.prems first frame show ?thesis by auto
  next
    case (Inr pe)
    obtain p2 e where pe: "pe = (p2, e)" by (cases pe)
    show ?thesis
    proof (cases "native_loop rt (\<lambda>i. disks (Suc i)) now prime ns p2 st2")
      case None
      with Cons.prems first Inr pe show ?thesis by simp
    next
      case (Some rest)
      obtain st3 r3 where rest: "rest = (st3, r3)" by (cases rest)
      note IH = Cons.IH [OF Some [unfolded rest]]
      have st1: "st1 = st3" and r: "\<And>p1 out. r = Inr (p1, out) \<Longrightarrow> \<exists>out1. r3 = Inr (p1, out1)"
      proof -
        have "(case (st3, r3) of (st3, Inl x) \<Rightarrow> Some (st3, Inl x)
            | (st3, Inr (p3, out)) \<Rightarrow> Some (st3, Inr (p3, case e of None \<Rightarrow> out | Some v \<Rightarrow> v # out)))
            = Some (st1, r)"
          using Cons.prems unfolding native_loop.simps first Inr pe option.case prod.case sum.case Some rest
          by simp
        then show "st1 = st3" "\<And>p1 out. r = Inr (p1, out) \<Longrightarrow> \<exists>out1. r3 = Inr (p1, out1)"
          by (cases r3; auto)+
      qed
      have "epoch p1 = epoch p" if "r = Inr (p1, out)" for p1 out
      proof -
        from r [OF that] obtain out1 where "r3 = Inr (p1, out1)" ..
        with IH have "epoch p1 = epoch p2" by blast
        also have "epoch p2 = epoch p" using frame Inr pe by blast
        finally show ?thesis .
      qed
      moreover have "db_ok st \<longrightarrow> db_ok st1" using IH frame st1 by blast
      moreover have "set (deliveries st1) \<subseteq> set (deliveries st)" using IH frame st1 by blast
      ultimately show ?thesis by blast
    qed
  qed
qed simp

lemma native_frame:
  assumes "native rt disks ns now prime p st = Some (st1, r)"
  shows "(db_ok st \<longrightarrow> db_ok st1) \<and> set (deliveries st1) \<subseteq> set (deliveries st)
    \<and> (\<forall>p1 out. r = Inr (p1, out) \<longrightarrow> epoch p1 = epoch p)"
  using assms
  by (auto simp: native_def Let_def split: option.splits sum.splits prod.splits dest!: native_loop_frame)

lemma sample_epoch: "sample rt kind ident v now prime p = Some (p1, r) \<Longrightarrow> epoch p1 = epoch p"
  by (auto simp: sample_def Let_def split: if_splits option.splits sum.splits prod.splits)

lemma effect_proc:
  assumes "epoch p = epoch (proc s)" and "effect (s\<lparr>proc := p\<rparr>) s1 qs"
  shows "effect s s1 qs"
  using assms by (simp add: effect_def epochs_ok_def)

lemma observe_native_effect:
  assumes "observe_native rt disks disks2 ns now prime s = Some (s1, qs)"
  shows "effect s s1 qs"
proof (cases "available s")
  case False
  with assms show ?thesis by (simp add: observe_native_def effect_refl)
next
  case True
  with assms obtain st r where native: "native rt disks ns now prime (proc s) (db s) = Some (st, r)"
    by (auto simp: observe_native_def split: option.splits)
  note frame = native_frame [OF native]
  show ?thesis
  proof (cases r)
    case (Inl e)
    with assms True native have "s1 = fail (s\<lparr>db := st\<rparr>)" by (simp add: observe_native_def)
    with frame show ?thesis by (simp add: effect_failed)
  next
    case (Inr po)
    obtain p out where po: "po = (p, out)" by (cases po)
    let ?s = "s\<lparr>db := st, proc := p\<rparr>"
    obtain s2 qs2 r2 where queued: "queue_all rt disks2 out now ?s = (s2, qs2, r2)" by (rule prod_cases3)
    have "effect s ?s []"
      using frame Inr po by (auto simp: effect_def epochs_ok_def)
    from effect_trans [OF this queue_all_effect [OF queued]] have "effect s s2 qs2" by simp
    moreover have "qs = qs2 \<and> (s1 = s2 \<or> s1 = fail s2)"
      using assms True native Inr po queued by (auto simp: observe_native_def split: sum.splits)
    ultimately show ?thesis by (auto intro: effect_fail)
  qed
qed

lemma observe_sample_effect:
  assumes "observe_sample rt disk kind ident v now prime s = Some (s1, qs)"
  shows "effect s s1 qs"
proof (cases "available s")
  case False
  with assms show ?thesis by (simp add: observe_sample_def effect_refl)
next
  case True
  with assms obtain p r where sample: "sample rt kind ident v now prime (proc s) = Some (p, r)"
    by (auto simp: observe_sample_def split: option.splits)
  show ?thesis
  proof (cases r)
    case (Inl e)
    with assms True sample have "s1 = fail (s\<lparr>proc := p\<rparr>)" by (simp add: observe_sample_def)
    then show ?thesis by (simp add: effect_failed)
  next
    case (Inr event)
    obtain s2 r2 where queued: "queue rt disk event now (s\<lparr>proc := p\<rparr>) = (s2, r2)" by (rule prod.exhaust)
    from effect_proc [OF sample_epoch [OF sample] queue_effect [OF queued]]
    have "effect s s2 (if r2 = Inr True then [payload_text (the event) ''eventKey''] else [])" .
    moreover have "s1 = fail s2 \<or> s1 = s2 \<and> qs = (if r2 = Inr True then [payload_text (the event) ''eventKey''] else [])"
      using assms True sample Inr queued by (auto simp: observe_sample_def split: sum.splits)
    moreover have "effect s (fail s2) qs"
      by (rule effect_failed) (use calculation(1) in \<open>simp add: effect_def\<close>)
    ultimately show ?thesis by auto
  qed
qed

lemma store_effect:
  assumes "res = (st, r)" and "db_ok (db s) \<Longrightarrow> db_ok (fst res)"
    and "set (deliveries (fst res)) \<subseteq> set (deliveries (db s))"
  shows "effect s (s\<lparr>db := st\<rparr>) []"
  using assms by (intro effect_store) simp_all

lemma register_effect:
  assumes "register_request rt disk sub sel now s = (s1, r)"
  shows "effect s s1 []"
proof (cases "preferences sel")
  case (Inl e)
  with assms show ?thesis by (simp add: register_request_def effect_refl)
next
  case (Inr prefs)
  obtain st r1 where op: "register rt disk sub prefs now (db s) = (st, r1)" by (rule prod.exhaust)
  have "s1 = s\<lparr>db := st\<rparr>"
    using assms by (auto simp: register_request_def Inr op split: sum.splits py_error.splits)
  with store_effect [OF op register_ok register_drops] show ?thesis by simp
qed

lemma delete_effect: "delete_request rt disk url s = (s1, r) \<Longrightarrow> effect s s1 []"
proof (cases "endpoint_id rt url")
  case (Inr i)
  assume "delete_request rt disk url s = (s1, r)"
  moreover obtain st r1 where op: "delete disk i (db s) = (st, r1)" by (rule prod.exhaust)
  ultimately show ?thesis
    using store_effect [OF op delete_ok delete_drops] Inr by (simp add: delete_request_def)
qed (simp add: delete_request_def effect_refl)

lemma effect_times [simp]:
  "effect s (s1\<lparr>test_times := ts\<rparr>) qs \<longleftrightarrow> effect s s1 qs"
  "effect s (s1\<lparr>db := st, test_times := ts\<rparr>) qs \<longleftrightarrow> effect s (s1\<lparr>db := st\<rparr>) qs"
  "effect s (s1\<lparr>test_times := ts, db := st\<rparr>) qs \<longleftrightarrow> effect s (s1\<lparr>db := st\<rparr>) qs"
  by (simp_all add: effect_def epochs_ok_def)

lemma effect_store_trans:
  assumes "effect s (s\<lparr>db := st\<rparr>) []" and "effect (s\<lparr>db := st\<rparr>) (s\<lparr>db := st1\<rparr>) qs"
  shows "effect s (s\<lparr>db := st1\<rparr>) qs"
  using effect_trans [OF assms] by simp

lemma test_effect:
  assumes "test rt disks url uuid now s = Some (s1, qs, r)"
  shows "effect s s1 qs"
proof (cases "endpoint_id rt url")
  case (Inl e)
  with assms show ?thesis by (simp add: test_def effect_refl)
next
  case (Inr i)
  show ?thesis
  proof (cases "get (db s) i")
    case None
    with assms Inr show ?thesis by (simp add: test_def effect_refl)
  next
    case (Some subscriber)
    obtain st cap where capacity: "has_delivery_capacity (disks 0) now (db s) = (st, cap)" by (rule prod.exhaust)
    obtain st2 allowed where allow: "allow_test (disks 1) i now st = (st2, allowed)" by (rule prod.exhaust)
    have e1: "effect s (s\<lparr>db := st\<rparr>) []"
      by (rule store_effect [OF capacity has_delivery_capacity_ok has_delivery_capacity_drops])
    have "effect (s\<lparr>db := st\<rparr>) (s\<lparr>db := st\<rparr>\<lparr>db := st2\<rparr>) []"
      by (rule store_effect [OF allow]) (simp_all add: allow_test_ok allow_test_drops)
    with e1 have e2: "effect s (s\<lparr>db := st2\<rparr>) []" by (intro effect_store_trans [OF e1]) simp
    have e3: "effect s (s\<lparr>db := st3\<rparr>) (if new = Inr True then [k] else [])"
      if "enqueue rt (disks 2) k event [i] now (py ''test'') st2 = (st3, new)" for k event st3 new
    proof -
      have "effect (s\<lparr>db := st2\<rparr>) (s\<lparr>db := st3\<rparr>) (if new = Inr True then [k] else [])"
        using enqueue_effect [of rt "disks 2" k event "[i]" now "py ''test''" "s\<lparr>db := st2\<rparr>" st3 new] that
        by simp
      then show ?thesis by (rule effect_store_trans [OF e2])
    qed
    show ?thesis
      using assms Inr Some capacity allow e1 e2
      by (auto simp: test_def Let_def split: sum.splits if_splits bool.splits option.splits prod.splits
          dest!: e3)
  qed
qed

lemma retire_effect: "effect s (retire disk uuid now s) []"
proof -
  obtain st r where retired: "retire_epochs disk uuid (db s) = (st, r)" by (rule prod.exhaust)
  have ok: "db_ok (db s) \<longrightarrow> db_ok st" using retire_ok [of "db s" disk uuid] retired by simp
  show ?thesis
  proof (cases r)
    case (Inl e)
    with retired ok show ?thesis by (simp add: retire_def reset_def effect_failed)
  next
    case (Inr u)
    with retired have "deliveries st = filter (\<lambda>d. d_epoch d \<in> {uuid, py ''test''}) (deliveries (db s))"
      by (auto simp: retire_epochs_def with_db_def split: if_splits)
    with Inr retired ok show ?thesis
      by (auto simp: retire_def reset_def effect_def epochs_ok_def)
  qed
qed

lemma effect_primed [simp]:
  "effect s (s1\<lparr>connection := c\<rparr>) qs \<longleftrightarrow> effect s s1 qs"
  "effect (s\<lparr>connection := c\<rparr>) s1 qs \<longleftrightarrow> effect s s1 qs"
  "effect s (s1\<lparr>proc := (proc s1)\<lparr>unknown_primed := u, native_primed := b\<rparr>\<rparr>) qs \<longleftrightarrow> effect s s1 qs"
  "effect s (s1\<lparr>connection := c, proc := (proc s1)\<lparr>unknown_primed := u, native_primed := b\<rparr>\<rparr>) qs \<longleftrightarrow> effect s s1 qs"
  by (simp_all add: effect_def epochs_ok_def)

lemma connect_effect: "effect s (fst (connect rt disk source owner force uuid now s)) []"
  using retire_effect [of s disk uuid now] by (simp add: connect_def effect_refl Let_def)

lemma disconnect_effect: "effect s (disconnect disk source uuid now s) []"
  using retire_effect [of "s\<lparr>connection := None\<rparr>" disk uuid now]
  by (simp add: disconnect_def effect_refl)

section \<open>Requests between the awaits\<close>

datatype request =
    ObserveNative "nat \<Rightarrow> bool" "nat \<Rightarrow> bool" "pyval list" bool
  | ObserveSample bool string pystring pyval bool
  | RegisterRequest bool subscription pyval
  | DeleteRequest bool pystring
  | TestRequest "nat \<Rightarrow> bool" pystring pystring
  | Connect bool pystring nat bool pystring
  | Disconnect bool "(pystring \<times> nat) option" pystring

text \<open>The service after a request, and the identities of the events it queued.\<close>

fun handle :: "runtime \<Rightarrow> request \<Rightarrow> rat \<Rightarrow> service \<Rightarrow> (service \<times> pystring list) option" where
  "handle rt (ObserveNative disks disks2 ns prime) now s = observe_native rt disks disks2 ns now prime s"
| "handle rt (ObserveSample disk kind ident v prime) now s = observe_sample rt disk kind ident v now prime s"
| "handle rt (RegisterRequest disk sub selected) now s =
     Some (fst (register_request rt disk sub selected now s), [])"
| "handle rt (DeleteRequest disk url) now s = Some (fst (delete_request rt disk url s), [])"
| "handle rt (TestRequest disks url uuid) now s =
     map_option (\<lambda>(s1, qs, r). (s1, qs)) (test rt disks url uuid now s)"
| "handle rt (Connect disk source owner force uuid) now s =
     Some (fst (connect rt disk source owner force uuid now s), [])"
| "handle rt (Disconnect disk source uuid) now s = Some (disconnect disk source uuid now s, [])"

lemma handle_effect: "handle rt r now s = Some (s1, qs) \<Longrightarrow> effect s s1 qs"
  by (cases r)
     (auto simp: observe_native_effect observe_sample_effect connect_effect disconnect_effect
       intro: test_effect register_effect [OF surjective_pairing] delete_effect [OF surjective_pairing])

section \<open>A worker's turn\<close>

lemma first_due_Some: "first_due now ds = Some d \<Longrightarrow> d \<in> set ds \<and> d_next_at d \<le> now"
proof -
  assume "first_due now ds = Some d"
  then obtain rest where "sort_key d_next_at (filter (\<lambda>d. d_next_at d \<le> now) ds) = d # rest"
    by (auto simp: first_due_def split: list.splits)
  from arg_cong [OF this, of set] show ?thesis by auto
qed

definition lease :: "rat \<Rightarrow> delivery \<Rightarrow> delivery" where
  "lease now d = d\<lparr>d_next_at := now + 30\<rparr>"

lemma lease_simps [simp]: "d_event (lease now d) = d_event d" "d_subscription (lease now d) = d_subscription d"
    "d_attempts (lease now d) = d_attempts d" "d_epoch (lease now d) = d_epoch d"
    "d_expires_at (lease now d) = d_expires_at d" "d_next_at (lease now d) = now + 30"
    "d_payload (lease now d) = d_payload d"
  by (simp_all add: lease_def)

lemma next_delivery_cases:
  obtains (failed) st1 e where "next_delivery disk disk2 True now st = (st1, Inl e)"
  | (none) "next_delivery disk disk2 True now st = (expire now st, Inr None)"
  | (claimed) d where "next_delivery disk disk2 True now st
        = (update_row (row_key d) (lease now) (expire now st), Inr (Some d))"
      "d \<in> set (deliveries st)" "d_next_at d \<le> now" "now < d_expires_at d"
proof (cases disk)
  case False
  then show thesis using failed by (simp add: next_delivery_def with_db_def)
next
  case True
  show thesis
  proof (cases "first_due now (deliveries (expire now st))")
    case None
    with True show thesis using none by (simp add: next_delivery_def with_db_def)
  next
    case (Some d)
    from first_due_Some [OF this] have d: "d \<in> set (deliveries st)" "d_next_at d \<le> now" "now < d_expires_at d"
      by (auto simp: expire_def)
    show thesis
    proof (cases disk2)
      case False
      with True Some show thesis using failed by (simp add: next_delivery_def with_db_def)
    next
      case True
      with \<open>disk\<close> Some have "next_delivery disk disk2 True now st
          = (update_row (row_key d) (lease now) (expire now st), Inr (Some d))"
        by (simp add: next_delivery_def with_db_def lease_def [abs_def])
      then show thesis using claimed d by simp
    qed
  qed
qed

lemma set_leased:
  "set (deliveries (update_row k (lease now) (expire now st)))
     = {if row_key d = k then lease now d else d | d. d \<in> set (deliveries st) \<and> now < d_expires_at d}"
  by (auto simp: update_row_def expire_def image_iff not_le)

lemma leased_ok: "db_ok st \<Longrightarrow> db_ok (update_row k (lease now) (expire now st))"
  using expire_ok [of st now] by (intro update_row_ok) (auto simp: db_ok_def)

lemma claim_sends:
  assumes "worker_claim disk disk2 disk3 now s = (s1, Some d)"
  shows "available s" "s1 = s\<lparr>db := update_row (row_key d) (lease now) (expire now (db s))\<rparr>"
    "d \<in> set (deliveries (db s))" "d_next_at d \<le> now" "now < d_expires_at d"
    "d_epoch d \<in> {py ''test'', epoch (proc s)}"
    "\<exists>sub. get (db s) (d_subscription d) = Some sub
       \<and> (payload_text (d_payload d) ''kind'' = py ''test''
          \<or> py_truthy (preference (s_preferences sub) (payload_text (d_payload d) ''kind'')))"
proof -
  show avail: "available s" using assms by (auto simp: worker_claim_def split: if_splits)
  have "s1 = s\<lparr>db := update_row (row_key d) (lease now) (expire now (db s))\<rparr>
    \<and> d \<in> set (deliveries (db s)) \<and> d_next_at d \<le> now \<and> now < d_expires_at d
    \<and> d_epoch d \<in> {py ''test'', epoch (proc s)}
    \<and> (\<exists>sub. get (db s) (d_subscription d) = Some sub
       \<and> (payload_text (d_payload d) ''kind'' = py ''test''
          \<or> py_truthy (preference (s_preferences sub) (payload_text (d_payload d) ''kind''))))"
  proof (cases rule: next_delivery_cases [of disk disk2 now "db s"])
    case (claimed d1)
    let ?s = "s\<lparr>db := update_row (row_key d1) (lease now) (expire now (db s))\<rparr>"
    have "deliver_start disk3 d1 ?s = (s1, Inr (Some (the (get (db s1) (d_subscription d1))))) \<and> d = d1
        \<and> get (db ?s) (d_subscription d1) \<noteq> None \<and> s1 = ?s
        \<and> d_epoch d1 \<in> {py ''test'', epoch (proc s)}
        \<and> (payload_text (d_payload d1) ''kind'' = py ''test''
          \<or> py_truthy (preference (s_preferences (the (get (db ?s) (d_subscription d1))))
              (payload_text (d_payload d1) ''kind'')))"
      using assms avail claimed(1)
      by (auto simp: worker_claim_def deliver_start_def Let_def split: if_splits sum.splits option.splits prod.splits)
    moreover have "get (db ?s) i = get (db s) i" for i
      by (simp add: get_def update_row_def expire_def)
    ultimately show ?thesis using claimed by auto
  qed (use assms avail in \<open>auto simp: worker_claim_def\<close>)
  then show "s1 = s\<lparr>db := update_row (row_key d) (lease now) (expire now (db s))\<rparr>"
    "d \<in> set (deliveries (db s))" "d_next_at d \<le> now" "now < d_expires_at d"
    "d_epoch d \<in> {py ''test'', epoch (proc s)}"
    "\<exists>sub. get (db s) (d_subscription d) = Some sub
       \<and> (payload_text (d_payload d) ''kind'' = py ''test''
          \<or> py_truthy (preference (s_preferences sub) (payload_text (d_payload d) ''kind'')))"
    by simp_all
qed

lemma finish_cases:
  obtains (failed) e where "finish disk d retry_at st = (st, Inl e)"
  | (removed) "finish disk d retry_at st
      = (st\<lparr>deliveries := filter (\<lambda>x. row_key x \<noteq> row_key d) (deliveries st)\<rparr>, Inr ())"
  | (again) t where "retry_at = Some t" "d_attempts d < 2" "finish disk d retry_at st
      = (update_row (row_key d) (\<lambda>x. x\<lparr>d_attempts := Suc (d_attempts x), d_next_at := t\<rparr>) st, Inr ())"
  by (cases disk; cases retry_at; cases "d_attempts d \<ge> 2")
     (auto simp: finish_def with_db_def not_le)

lemma claim_idles:
  assumes "worker_claim disk disk2 disk3 now s = (s1, None)"
  shows "effect s s1 []"
proof (cases "available s")
  case False
  with assms show ?thesis by (simp add: worker_claim_def effect_refl)
next
  case True
  obtain st r where next_: "next_delivery disk disk2 True now (db s) = (st, r)" by (rule prod.exhaust)
  have ok: "db_ok (db s) \<longrightarrow> db_ok st" using next_delivery_ok [of "db s" disk disk2 True now] next_ by simp
  show ?thesis
  proof (cases rule: next_delivery_cases [of disk disk2 now "db s"])
    case (failed st1 e)
    with assms True next_ have "s1 = fail (s\<lparr>db := st\<rparr>)" by (auto simp: worker_claim_def)
    with ok show ?thesis by (simp add: effect_failed)
  next
    case none
    with assms True next_ have "s1 = s\<lparr>db := st\<rparr>" "st = expire now (db s)"
      by (auto simp: worker_claim_def)
    with ok show ?thesis by (auto simp: expire_def intro!: effect_store)
  next
    case (claimed d)
    let ?st = "update_row (row_key d) (lease now) (expire now (db s))"
    have st: "st = ?st" using claimed(1) next_ by simp
    show ?thesis
    proof (cases rule: finish_cases [of disk3 d None ?st])
      case (failed e)
      with assms True claimed(1) have "s1 = fail (s\<lparr>db := ?st\<rparr>)"
        by (auto simp: worker_claim_def deliver_start_def Let_def split: if_splits)
      with ok st show ?thesis by (simp add: effect_failed)
    next
      case removed
      let ?st1 = "?st\<lparr>deliveries := filter (\<lambda>x. row_key x \<noteq> row_key d) (deliveries ?st)\<rparr>"
      have "s1 = s\<lparr>db := ?st1\<rparr>"
        using assms True claimed(1) removed
        by (auto simp: worker_claim_def deliver_start_def Let_def split: if_splits)
      moreover have "db_ok (db s) \<Longrightarrow> db_ok ?st1"
        using ok st by (intro filter_deliveries_ok) simp
      moreover have "set (deliveries ?st1) \<subseteq> set (deliveries (db s))"
        using set_leased [of "row_key d" now "db s"] by auto
      ultimately show ?thesis by (simp add: effect_store)
    qed simp
  qed
qed

text \<open>What the completion of a delivery does to the outbox.\<close>

definition ended :: "delivery \<Rightarrow> service \<Rightarrow> service \<Rightarrow> bool" where
  "ended d s s1 \<longleftrightarrow>
     set (deliveries (db s1)) \<subseteq> set (deliveries (db s)) \<and> row_key d \<notin> row_key ` set (deliveries (db s1))
     \<or> d_attempts d < 2
       \<and> (\<exists>t. deliveries (db s1) = map (\<lambda>x. if row_key x = row_key d
              then x\<lparr>d_attempts := Suc (d_attempts x), d_next_at := t\<rparr> else x) (deliveries (db s)))"

lemma still_owns_row:
  assumes "db_ok (db s)" and "still_owns d now s"
  shows "\<forall>x \<in> set (deliveries (db s)). row_key x = row_key d \<longrightarrow> d_attempts x = d_attempts d"
proof (intro ballI impI)
  fix x
  assume x: "x \<in> set (deliveries (db s))" "row_key x = row_key d"
  from assms obtain row where row: "row \<in> set (deliveries (db s))" "row_key row = row_key d"
      "d_attempts row = d_attempts d"
    unfolding still_owns_def owns_delivery_iff [OF assms(1)] by blast
  then have "x = row" using x by (intro row_unique [OF assms(1)]) simp_all
  with row show "d_attempts x = d_attempts d" by simp
qed

lemma complete_ok:
  assumes "complete disk d retry_at now s = (s1, r)" and "db_ok (db s)"
  shows "db_ok (db s1)" "available s1 = available s" "proc s1 = proc s"
    "r = Inr u \<Longrightarrow> \<not> still_owns d now s \<and> s1 = s \<or> still_owns d now s \<and> ended d s s1"
proof -
  have ok: "db_ok (fst (finish disk d retry_at (db s)))" if "still_owns d now s"
    using finish_ok [OF assms(2), of retry_at d disk] still_owns_row [OF assms(2) that] by blast
  show "db_ok (db s1)" "available s1 = available s" "proc s1 = proc s"
    using assms ok by (auto simp: complete_def split: if_splits prod.splits)
  show "\<not> still_owns d now s \<and> s1 = s \<or> still_owns d now s \<and> ended d s s1" if "r = Inr u"
  proof (cases "still_owns d now s")
    case False
    with assms(1) show ?thesis by (simp add: complete_def)
  next
    case True
    then show ?thesis
    proof (cases rule: finish_cases [of disk d retry_at "db s"])
      case (failed e)
      with True assms(1) that show ?thesis by (simp add: complete_def)
    next
      case removed
      with True assms(1) have "deliveries (db s1) = filter (\<lambda>x. row_key x \<noteq> row_key d) (deliveries (db s))"
        by (auto simp: complete_def)
      then show ?thesis using True by (auto simp: ended_def)
    next
      case (again t)
      with True assms(1) have "deliveries (db s1) = map (\<lambda>x. if row_key x = row_key d
          then x\<lparr>d_attempts := Suc (d_attempts x), d_next_at := t\<rparr> else x) (deliveries (db s))"
        by (auto simp: complete_def update_row_def)
      with again(2) True show ?thesis unfolding ended_def by blast
    qed
  qed
qed

lemma deliver_end_ok:
  assumes "deliver_end disk disk2 d result now s = (s1, r)" and "db_ok (db s)"
  shows "db_ok (db s1) \<and> available s1 = available s \<and> proc s1 = proc s
    \<and> (r = Inr u \<longrightarrow> \<not> still_owns d now s \<and> s1 = s \<or> still_owns d now s \<and> ended d s s1)"
proof -
  have plain: ?thesis if "complete disk2 d retry_at now s = (s1, r)" for retry_at
    using complete_ok [OF that assms(2)] by blast
  show ?thesis
  proof (cases "\<exists>status. result = Status status \<and> still_owns d now s \<and> (status = 404 \<or> status = 410)")
    case False
    then consider (left) "\<not> still_owns d now s" "s1 = s" "r = Inr ()"
      | (completed) retry_at where "complete disk2 d retry_at now s = (s1, r)"
      using assms(1) by (fastforce simp: deliver_end_def split: send_result.splits if_splits)
    then show ?thesis
    proof cases
      case left
      with assms(2) show ?thesis by simp
    next
      case completed
      then show ?thesis by (rule plain)
    qed
  next
    case True
    obtain st r1 where gone: "delete disk (d_subscription d) (db s) = (st, r1)" by (rule prod.exhaust)
    show ?thesis
    proof (cases r1)
      case (Inl e)
      with gone have "st = db s" by (auto simp: delete_def with_db_def split: if_splits)
      with True Inl gone assms(1) have "complete disk2 d (Some (now + backoff d)) now s = (s1, r)"
        by (auto simp: deliver_end_def)
      then show ?thesis by (rule plain)
    next
      case (Inr u1)
      with gone have st: "deliveries st = filter (\<lambda>x. d_subscription x \<noteq> d_subscription d) (deliveries (db s))"
        by (auto simp: delete_def with_db_def split: if_splits)
      have ok: "db_ok st" using delete_ok [OF assms(2), of disk "d_subscription d"] gone by simp
      have "\<not> owns_delivery st d now"
        unfolding owns_delivery_iff [OF ok] st by auto
      then have "\<not> still_owns d now (s\<lparr>db := st\<rparr>)" by (simp add: still_owns_def)
      with True Inr gone assms(1) have "s1 = s\<lparr>db := st\<rparr>"
        by (auto simp: deliver_end_def complete_def)
      moreover have "ended d s (s\<lparr>db := st\<rparr>)" by (auto simp: ended_def st)
      ultimately show ?thesis using True ok by auto
    qed
  qed
qed

lemma worker_end_ok:
  assumes "db_ok (db s)"
  shows "db_ok (db (worker_end disk disk2 d result now s))"
    "available (worker_end disk disk2 d result now s) \<Longrightarrow>
       available s \<and> proc (worker_end disk disk2 d result now s) = proc s
       \<and> (\<not> still_owns d now s \<and> worker_end disk disk2 d result now s = s
          \<or> still_owns d now s \<and> ended d s (worker_end disk disk2 d result now s))"
proof -
  obtain s1 r where end_: "deliver_end disk disk2 d result now s = (s1, r)" by (rule prod.exhaust)
  note ok = deliver_end_ok [OF end_ assms]
  show "db_ok (db (worker_end disk disk2 d result now s))"
    using ok by (cases r) (simp_all add: worker_end_def end_)
  show "available s \<and> proc (worker_end disk disk2 d result now s) = proc s
       \<and> (\<not> still_owns d now s \<and> worker_end disk disk2 d result now s = s
          \<or> still_owns d now s \<and> ended d s (worker_end disk disk2 d result now s))"
    if "available (worker_end disk disk2 d result now s)"
    using ok that by (cases r) (simp_all add: worker_end_def end_)
qed

section \<open>Properties\<close>

definition demo_service :: service where
  "demo_service = \<lparr>available = True, db = demo_store,
     proc = \<lparr>epoch = py ''e'', started_at = 0, native_primed = False, unknown_primed = [], samples = []\<rparr>,
     connection = None, test_times = []\<rparr>"

definition demo_delivery :: delivery where
  "demo_delivery = \<lparr>d_event = replicate 64 0x61, d_subscription = replicate 64 0x61, d_payload = test_event,
    d_expires_at = 1700000300, d_next_at = 1700000000, d_attempts = 0, d_epoch = py ''test''\<rparr>"

lemma demo_store_ok: "db_ok demo_store"
  unfolding demo_store_def
  by (intro store_step_ok) (simp_all add: db_ok_def empty_store_def)

lemma demo_subscribers: "get demo_store (replicate 64 0x61) \<noteq> None"
  using demo_store_ok by (simp add: get_None_iff db_ok_def demo_row)

lemma demo_claim:
  "worker_claim True True True 1700000001 demo_service
     = (demo_service\<lparr>db := update_row (row_key demo_delivery) (lease 1700000001) (expire 1700000001 demo_store)\<rparr>,
        Some demo_delivery)"
proof -
  let ?st = "update_row (row_key demo_delivery) (lease 1700000001) (expire 1700000001 demo_store)"
  have row: "deliveries demo_store = [demo_delivery]" by (simp add: demo_row demo_delivery_def)
  have due: "first_due 1700000001 (deliveries (expire 1700000001 demo_store)) = Some demo_delivery"
    by (simp add: expire_def row first_due_def demo_delivery_def)
  have next_: "next_delivery True True True 1700000001 demo_store = (?st, Inr (Some demo_delivery))"
    using due by (simp add: next_delivery_def with_db_def lease_def [abs_def])
  obtain sub where sub: "get ?st (replicate 64 0x61) = Some sub"
    using demo_subscribers by (auto simp: get_def update_row_def expire_def)
  have "payload_text (d_payload demo_delivery) ''kind'' = py ''test''"
    by (simp add: demo_delivery_def payload_text_def test_event_def payload_fields_def py_item_def)
  with sub have "deliver_start True demo_delivery (demo_service\<lparr>db := ?st\<rparr>)
      = (demo_service\<lparr>db := ?st\<rparr>, Inr (Some sub))"
    by (simp add: deliver_start_def demo_delivery_def Let_def)
  with next_ show ?thesis
    by (simp add: worker_claim_def demo_service_def)
qed

text \<open>What the running service does to its store: requests, claims, and ends of sends, of whatever delivery
  a worker may still hold.\<close>

inductive service_reach :: "runtime \<Rightarrow> service \<Rightarrow> service \<Rightarrow> bool" for rt where
  unused: "service_reach rt s s"
| requested: "service_reach rt s s1 \<Longrightarrow> handle rt r now s1 = Some (s2, qs) \<Longrightarrow> service_reach rt s s2"
| turned: "service_reach rt s s1 \<Longrightarrow> worker_claim disk disk2 disk3 now s1 = (s2, d) \<Longrightarrow> service_reach rt s s2"
| sent_back: "service_reach rt s s1 \<Longrightarrow> service_reach rt s (worker_end disk disk2 d result now s1)"

lemma claim_ok:
  assumes "worker_claim disk disk2 disk3 now s = (s1, d)" and "db_ok (db s)"
  shows "db_ok (db s1)"
proof (cases d)
  case None
  with assms show ?thesis by (auto simp: effect_def dest: claim_idles)
next
  case (Some x)
  from claim_sends(2) [OF assms(1) [unfolded Some]] assms(2) leased_ok show ?thesis by simp
qed

text \<open>C22: Whatever requests, claims and ends of sends the running service handles, in whatever order,
  whichever commits fail and however stale the delivery is that a worker still holds: the store keeps
  unique keys, foreign keys, the table limits and at most two counted attempts per delivery.\<close>

theorem service_keeps_store_well_formed:
  assumes "service_reach rt s s1" and "db_ok (db s)"
  shows "db_ok (db s1)"
  using assms
proof induction
  case (requested s s1 r now s2 qs)
  then show ?case using handle_effect by (auto simp: effect_def)
next
  case (turned s s1 disk disk2 disk3 now s2 d)
  then show ?case using claim_ok by blast
next
  case (sent_back s s1 disk disk2 d result now)
  then show ?case using worker_end_ok(1) by blast
qed

text \<open>A delivery is claimed, and its send ends with an answer that is tried again.\<close>

lemma service_keeps_store_well_formed_witness:
  "\<exists>s1. worker_claim True True True 1700000001 demo_service = (s1, Some demo_delivery)
    \<and> db_ok (db (worker_end True True demo_delivery (Status 503) 1700000002 s1))"
proof -
  obtain s1 where claim: "worker_claim True True True 1700000001 demo_service = (s1, Some demo_delivery)"
    using demo_claim by blast
  have "service_reach demo_runtime demo_service (worker_end True True demo_delivery (Status 503) 1700000002 s1)"
    by (rule service_reach.sent_back [OF service_reach.turned [OF service_reach.unused claim]])
  from service_keeps_store_well_formed [OF this] demo_store_ok claim show ?thesis by (simp add: demo_service_def)
qed

text \<open>A delivery goes to the transport only if its subscription exists and wants its kind, its
  epoch is current and it has not expired, and no other claim gets its row for 30 s.\<close>

theorem claimed_delivery_is_wanted:
  assumes "worker_claim disk disk2 disk3 now s = (s1, Some d)" and "db_ok (db s)"
  shows "available s \<and> d \<in> set (deliveries (db s)) \<and> now < d_expires_at d
    \<and> d_epoch d \<in> {py ''test'', epoch (proc s)}
    \<and> (\<exists>sub. get (db s) (d_subscription d) = Some sub
        \<and> (payload_text (d_payload d) ''kind'' = py ''test''
           \<or> py_truthy (preference (s_preferences sub) (payload_text (d_payload d) ''kind''))))
    \<and> (\<forall>later e st. later < now + 30 \<longrightarrow>
        next_delivery disk4 disk5 True later (db s1) = (st, Inr (Some e)) \<longrightarrow> row_key e \<noteq> row_key d)"
proof -
  note c = claim_sends [OF assms(1)]
  have "row_key e \<noteq> row_key d"
    if "later < now + 30" "next_delivery disk4 disk5 True later (db s1) = (st, Inr (Some e))" for later e st
  proof (cases rule: next_delivery_cases [of disk4 disk5 later "db s1"])
    case (claimed x)
    with that(2) have e: "e \<in> set (deliveries (db s1))" "d_next_at e \<le> later" by auto
    then obtain y where y: "e = (if row_key y = row_key d then lease now y else y)"
      using set_leased [of "row_key d" now "db s"] c(2) by auto
    show ?thesis
    proof
      assume "row_key e = row_key d"
      with y have "e = lease now y" by (auto split: if_splits)
      then have "d_next_at e = now + 30" by simp
      with e(2) that(1) show False by simp
    qed
  qed (use that(2) in auto)
  with c show ?thesis by blast
qed

lemma claimed_delivery_is_wanted_witness:
  "demo_delivery \<in> set (deliveries demo_store) \<and> (1700000001 :: rat) < d_expires_at demo_delivery
    \<and> d_epoch demo_delivery \<in> {py ''test'', py ''e''}"
  using claimed_delivery_is_wanted [OF demo_claim] demo_store_ok by (simp add: demo_service_def)

end
