(* ===== verification/PushSystem.thy ===== *)
theory PushSystem
  imports PushDelivery
begin

text \<open>
  The push service under all interleavings of its workers with requests: a \<open>system\<close> is the
  service, the send each worker awaits with the time of its claim, and the history of sends and of
  queued events. The invariant follows one outbox row through its life: its sends are the attempts
  counted so far and the one in flight, because a claim leases the row for 30 s and no send takes
  that long (\<open>ClientTimeout(total=10)\<close>, \<open>push_transport.py\<close>, line 214).
\<close>

record system =
  svc :: service
  flights :: "nat \<Rightarrow> (delivery \<times> rat) option"
  sent :: "(pystring \<times> pystring) list"
  queued :: "pystring list"
  clock :: rat

definition prompt :: "rat \<Rightarrow> system \<Rightarrow> bool" where
  "prompt now S \<longleftrightarrow> (\<forall>w d t. flights S w = Some (d, t) \<longrightarrow> now < t + 30)"

inductive service_step :: "runtime \<Rightarrow> system \<Rightarrow> system \<Rightarrow> bool" for rt where
  claim: "flights S w = None \<Longrightarrow> clock S \<le> now \<Longrightarrow> prompt now S \<Longrightarrow>
    worker_claim disk disk2 disk3 now (svc S) = (s1, Some d) \<Longrightarrow>
    service_step rt S (S\<lparr>svc := s1, flights := (flights S)(w := Some (d, now)),
      sent := sent S @ [row_key d], clock := now\<rparr>)"
| idle: "flights S w = None \<Longrightarrow> clock S \<le> now \<Longrightarrow> prompt now S \<Longrightarrow>
    worker_claim disk disk2 disk3 now (svc S) = (s1, None) \<Longrightarrow>
    service_step rt S (S\<lparr>svc := s1, clock := now\<rparr>)"
| finished: "flights S w = Some (d, t) \<Longrightarrow> clock S \<le> now \<Longrightarrow> prompt now S \<Longrightarrow>
    service_step rt S (S\<lparr>svc := worker_end disk disk2 d result now (svc S),
      flights := (flights S)(w := None), clock := now\<rparr>)"
| stopped: "flights S w = Some (d, t) \<Longrightarrow> \<not> available (svc S) \<Longrightarrow>
    service_step rt S (S\<lparr>flights := (flights S)(w := None)\<rparr>)"
| request: "clock S \<le> now \<Longrightarrow> prompt now S \<Longrightarrow> handle rt r now (svc S) = Some (s1, qs) \<Longrightarrow>
    service_step rt S (S\<lparr>svc := s1, queued := queued S @ qs, clock := now\<rparr>)"

inductive service_run :: "runtime \<Rightarrow> system \<Rightarrow> system \<Rightarrow> bool" for rt where
  start: "service_run rt S S"
| step: "service_run rt S S1 \<Longrightarrow> service_step rt S1 S2 \<Longrightarrow> service_run rt S S2"

text \<open>The system when the workers start: the events of the rows found count as queued.\<close>

definition initial :: "system \<Rightarrow> bool" where
  "initial S \<longleftrightarrow> db_ok (db (svc S)) \<and> epochs_ok (svc S) \<and> flights S = (\<lambda>_. None) \<and> sent S = []
     \<and> (\<forall>d \<in> set (deliveries (db (svc S))). d_event d \<in> set (queued S))"

section \<open>The life of a row\<close>

definition flies :: "system \<Rightarrow> pystring \<times> pystring \<Rightarrow> nat \<Rightarrow> bool" where
  "flies S k w \<longleftrightarrow> (\<exists>d t. flights S w = Some (d, t) \<and> row_key d = k)"

definition sends :: "system \<Rightarrow> pystring \<times> pystring \<Rightarrow> nat" where
  "sends S k = length (filter (\<lambda>x. x = k) (sent S))"

definition times_queued :: "system \<Rightarrow> pystring \<Rightarrow> nat" where
  "times_queued S ev = length (filter (\<lambda>x. x = ev) (queued S))"

text \<open>Of a live row, the sends are accounted for: nothing is in flight for it, or exactly the send
  of its present attempt is.\<close>

definition accounted :: "system \<Rightarrow> delivery \<Rightarrow> bool" where
  "accounted S row \<longleftrightarrow>
     (\<forall>w. \<not> flies S (row_key row) w) \<and> sends S (row_key row) \<le> d_attempts row
     \<or> (\<exists>w d t. flights S w = Some (d, t) \<and> row_key d = row_key row \<and> (\<forall>v. flies S (row_key row) v \<longrightarrow> v = w)
         \<and> d_attempts d = d_attempts row \<and> d_epoch d = d_epoch row \<and> t + 30 \<le> d_next_at row
         \<and> sends S (row_key row) \<le> Suc (d_attempts row))"

definition life :: "pystring \<times> pystring \<Rightarrow> system \<Rightarrow> bool" where
  "life k S \<longleftrightarrow>
     (times_queued S (fst k) = 0 \<longrightarrow> sends S k = 0 \<and> (\<forall>w. \<not> flies S k w)
        \<and> (available (svc S) \<longrightarrow> (\<forall>d \<in> set (deliveries (db (svc S))). d_event d \<noteq> fst k)))
     \<and> (times_queued S (fst k) \<le> 1 \<longrightarrow> sends S k \<le> 3
        \<and> (available (svc S) \<longrightarrow> (\<forall>row \<in> set (deliveries (db (svc S))).
             row_key row = k \<and> clock S < d_expires_at row \<longrightarrow> accounted S row)))"

definition good :: "system \<Rightarrow> bool" where
  "good S \<longleftrightarrow> db_ok (db (svc S)) \<and> (available (svc S) \<longrightarrow> epochs_ok (svc S))"

lemma effect_good:
  "effect (svc S) s1 qs \<Longrightarrow> good S \<Longrightarrow> good (S\<lparr>svc := s1, flights := fl, sent := se, queued := qu, clock := cl\<rparr>)"
  by (auto simp: good_def effect_def)

lemma accounted_cong:
  assumes "flights S1 = flights S" and "sent S1 = sent S"
  shows "accounted S1 row \<longleftrightarrow> accounted S row"
  using assms by (simp add: accounted_def flies_def sends_def)

text \<open>Steps that only drop and queue rows.\<close>

lemma effect_life:
  assumes "effect (svc S) s1 qs" and "life k S" and "clock S \<le> now"
  shows "life k (S\<lparr>svc := s1, queued := queued S @ qs, clock := now\<rparr>)"
proof -
  let ?S = "S\<lparr>svc := s1, queued := queued S @ qs, clock := now\<rparr>"
  have n: "times_queued ?S (fst k) = times_queued S (fst k) + length (filter (\<lambda>x. x = fst k) qs)"
    by (simp add: times_queued_def)
  have same: "sends ?S k = sends S k" "flies ?S k = flies S k" "accounted ?S row = accounted S row" for row
    by (simp_all add: sends_def flies_def fun_eq_iff accounted_cong)
  have row: "accounted S row"
    if "times_queued ?S (fst k) \<le> 1" "available s1" "row \<in> set (deliveries (db s1))" "row_key row = k"
      "now < d_expires_at row" for row
  proof (cases "row \<in> set (deliveries (db (svc S)))")
    case True
    with that n assms show ?thesis by (auto simp: life_def effect_def)
  next
    case False
    with that assms(1) have new: "d_event row \<in> set qs" "d_attempts row = 0"
      by (auto simp: effect_def)
    with that(4) have "fst k \<in> set qs" by auto
    then have "filter (\<lambda>x. x = fst k) qs \<noteq> []" by (auto simp: filter_empty_conv)
    then have "1 \<le> length (filter (\<lambda>x. x = fst k) qs)" by (cases "filter (\<lambda>x. x = fst k) qs") simp_all
    with that(1) n have "times_queued S (fst k) = 0" by simp
    with assms(2) have "sends S k = 0" "\<forall>w. \<not> flies S k w" by (simp_all add: life_def)
    with that(4) new show ?thesis by (auto simp: accounted_def)
  qed
  have none: "d_event d \<noteq> fst k"
    if "times_queued ?S (fst k) = 0" "available s1" "d \<in> set (deliveries (db s1))" for d
  proof -
    from that(1) n have "fst k \<notin> set qs" "times_queued S (fst k) = 0" by (auto simp: filter_empty_conv)
    with that assms(1,2) show ?thesis by (auto simp: effect_def life_def)
  qed
  show ?thesis
    using assms(2) n row none by (auto simp: life_def same)
qed

text \<open>A claim of the row itself, and of another one.\<close>

lemma flies_update:
  "flies (S\<lparr>svc := s1, flights := (flights S)(w := f), sent := se, clock := cl\<rparr>) k v
     \<longleftrightarrow> (if v = w then (\<exists>d t. f = Some (d, t) \<and> row_key d = k) else flies S k v)"
  by (simp add: flies_def)

lemma accounted_other_worker:
  assumes "accounted S row" and "\<not> flies S (row_key row) w" and "sends S1 (row_key row) = sends S (row_key row)"
    and "flights S1 = (flights S)(w := f)" and "\<not> flies S1 (row_key row) w"
  shows "accounted S1 row"
proof -
  have flies: "flies S1 (row_key row) v \<longleftrightarrow> flies S (row_key row) v" for v
    using assms(2,4,5) by (cases "v = w") (auto simp: flies_def)
  show ?thesis
    using assms(1) unfolding accounted_def
  proof (elim disjE exE conjE)
    fix v d t
    assume v: "flights S v = Some (d, t)" "row_key d = row_key row"
    then have "flies S (row_key row) v" by (auto simp: flies_def)
    with assms(2) have "v \<noteq> w" by auto
    with v(1) assms(4) have "flights S1 v = Some (d, t)" by simp
    moreover assume "\<forall>u. flies S (row_key row) u \<longrightarrow> u = v" "d_attempts d = d_attempts row"
      "d_epoch d = d_epoch row" "t + 30 \<le> d_next_at row" "sends S (row_key row) \<le> Suc (d_attempts row)"
    ultimately have "flights S1 v = Some (d, t) \<and> row_key d = row_key row
        \<and> (\<forall>u. flies S1 (row_key row) u \<longrightarrow> u = v) \<and> d_attempts d = d_attempts row
        \<and> d_epoch d = d_epoch row \<and> t + 30 \<le> d_next_at row \<and> sends S1 (row_key row) \<le> Suc (d_attempts row)"
      using v(2) assms(3) flies by simp
    then show "(\<forall>w. \<not> flies S1 (row_key row) w) \<and> sends S1 (row_key row) \<le> d_attempts row
       \<or> (\<exists>w d t. flights S1 w = Some (d, t) \<and> row_key d = row_key row \<and> (\<forall>v. flies S1 (row_key row) v \<longrightarrow> v = w)
         \<and> d_attempts d = d_attempts row \<and> d_epoch d = d_epoch row \<and> t + 30 \<le> d_next_at row
         \<and> sends S1 (row_key row) \<le> Suc (d_attempts row))" by blast
  qed (use assms(3) flies in simp)
qed

lemma claim_life:
  assumes "flights S w = None" and "clock S \<le> now" and "prompt now S"
    and claim: "worker_claim disk disk2 disk3 now (svc S) = (s1, Some d)"
    and "good S" and "life k S"
  shows "life k (S\<lparr>svc := s1, flights := (flights S)(w := Some (d, now)),
      sent := sent S @ [row_key d], clock := now\<rparr>)" (is "life k ?S")
proof -
  note c = claim_sends [OF claim]
  from assms(5) have ok: "db_ok (db (svc S))" by (simp add: good_def)
  have rows: "\<exists>x. row = (if row_key x = row_key d then lease now x else x) \<and> x \<in> set (deliveries (db (svc S)))
      \<and> now < d_expires_at x" if "row \<in> set (deliveries (db s1))" for row
    using that set_leased [of "row_key d" now "db (svc S)"] c(2) by auto
  have no_event: "d_event x \<noteq> fst k" if "times_queued S (fst k) = 0" "x \<in> set (deliveries (db (svc S)))" for x
    using assms(6) that c(1) by (simp add: life_def)
  have before: "accounted S x" if "times_queued S (fst k) \<le> 1" "x \<in> set (deliveries (db (svc S)))"
      "row_key x = k" "now < d_expires_at x" for x
    using assms(2,6) that c(1) by (auto simp: life_def)
  have free: "\<not> flies S k' w" for k' using assms(1) by (simp add: flies_def)
  have queued: "times_queued ?S (fst k) = times_queued S (fst k)" by (simp add: times_queued_def)
  show ?thesis
  proof (cases "row_key d = k")
    case False
    then have sends: "sends ?S k = sends S k" by (simp add: sends_def)
    have flies: "flies ?S k v \<longleftrightarrow> flies S k v" for v
      using False free [of k] by (simp add: flies_update)
    have "accounted ?S row" if row: "times_queued S (fst k) \<le> 1" "row \<in> set (deliveries (db s1))"
        "row_key row = k" for row
    proof -
      from rows [OF row(2)] row(3) False have "row \<in> set (deliveries (db (svc S)))" "now < d_expires_at row"
        by (auto split: if_splits)
      from before [OF row(1) this(1) row(3) this(2)] show ?thesis
        by (rule accounted_other_worker [where w = w]) (use row(3) free sends flies in \<open>simp_all add: fun_upd_def\<close>)
    qed
    moreover have "d_event row \<noteq> fst k" if "times_queued S (fst k) = 0" "row \<in> set (deliveries (db s1))" for row
      using rows [OF that(2)] no_event [OF that(1)] by (auto split: if_splits)
    ultimately show ?thesis
      using assms(6) by (auto simp: life_def queued sends flies)
  next
    case True
    then have "d_event d = fst k" by auto
    then have "times_queued S (fst k) \<noteq> 0" using no_event [OF _ c(3)] by blast
    moreover have "sends ?S k \<le> 3 \<and> (\<forall>row \<in> set (deliveries (db s1)). row_key row = k \<longrightarrow> accounted ?S row)"
      if once: "times_queued S (fst k) \<le> 1"
    proof -
      have not_flying: "\<forall>v. \<not> flies S k v" and n: "sends S k \<le> d_attempts d"
        using before [OF once c(3) True c(5)] assms(3) c(4) True
        by (fastforce simp: accounted_def prompt_def)+
      have "d_attempts d < 3" using ok c(3) by (simp add: db_ok_def)
      moreover have sends: "sends ?S k = Suc (sends S k)" using True by (simp add: sends_def)
      moreover have "accounted ?S row" if row: "row \<in> set (deliveries (db s1))" "row_key row = k" for row
      proof -
        from rows [OF row(1)] row(2) True obtain x where x: "row = lease now x" "x \<in> set (deliveries (db (svc S)))"
          "row_key x = k" by (auto split: if_splits)
        have "x = d" by (rule row_unique [OF ok x(2) c(3)]) (simp only: x(3) True)
        have only: "flies ?S k v \<longrightarrow> v = w" for v using not_flying by (simp add: flies_update)
        show ?thesis
          unfolding accounted_def row(2) x(1) \<open>x = d\<close>
          using n sends only True by (intro disjI2 exI [of _ w] exI [of _ d] exI [of _ now]) simp
      qed
      ultimately show ?thesis using n by auto
    qed
    ultimately show ?thesis by (auto simp: life_def queued)
  qed
qed

text \<open>The end of a send.\<close>

lemma ended_row:
  assumes "ended d s s1" and "row \<in> set (deliveries (db s1))"
  obtains x where "x \<in> set (deliveries (db s))" "row_key x = row_key row" "d_expires_at x = d_expires_at row"
    "d_epoch x = d_epoch row" "row = x \<or> row_key d = row_key x \<and> d_attempts row = Suc (d_attempts x)"
proof (cases "set (deliveries (db s1)) \<subseteq> set (deliveries (db s))")
  case True
  with assms(2) show thesis by (intro that [of row]) auto
next
  case False
  with assms(1) obtain t where "deliveries (db s1) = map (\<lambda>x. if row_key x = row_key d
      then x\<lparr>d_attempts := Suc (d_attempts x), d_next_at := t\<rparr> else x) (deliveries (db s))"
    unfolding ended_def by blast
  with assms(2) have "row \<in> (\<lambda>x. if row_key x = row_key d
      then x\<lparr>d_attempts := Suc (d_attempts x), d_next_at := t\<rparr> else x) ` set (deliveries (db s))"
    by (simp only: set_map)
  then obtain x where "x \<in> set (deliveries (db s))" "row = (if row_key x = row_key d
      then x\<lparr>d_attempts := Suc (d_attempts x), d_next_at := t\<rparr> else x)" by (rule imageE)
  then show thesis by (intro that [of x]) (auto split: if_splits)
qed

lemma ended_retried:
  assumes "ended d s s1" and "row \<in> set (deliveries (db s1))" and "row_key row = row_key d"
  obtains y where "y \<in> set (deliveries (db s))" "row_key y = row_key d" "d_attempts row = Suc (d_attempts y)"
proof -
  have "row_key d \<in> row_key ` set (deliveries (db s1))"
    by (rule image_eqI [where f = row_key and x = row, OF assms(3) [symmetric] assms(2)])
  with assms(1) obtain t where "deliveries (db s1) = map (\<lambda>x. if row_key x = row_key d
      then x\<lparr>d_attempts := Suc (d_attempts x), d_next_at := t\<rparr> else x) (deliveries (db s))"
    unfolding ended_def by blast
  with assms(2) have "row \<in> (\<lambda>x. if row_key x = row_key d
      then x\<lparr>d_attempts := Suc (d_attempts x), d_next_at := t\<rparr> else x) ` set (deliveries (db s))"
    by (simp only: set_map)
  then obtain x where "x \<in> set (deliveries (db s))" "row = (if row_key x = row_key d
      then x\<lparr>d_attempts := Suc (d_attempts x), d_next_at := t\<rparr> else x)" by (rule imageE)
  with assms(3) show thesis by (intro that [of x]) (auto split: if_splits)
qed

lemma finished_life:
  assumes flight: "flights S w = Some (d, t)" and "clock S \<le> now" and "good S" and "life k S"
  shows "life k (S\<lparr>svc := worker_end disk disk2 d result now (svc S),
      flights := (flights S)(w := None), clock := now\<rparr>)" (is "life k ?S")
proof -
  let ?s = "worker_end disk disk2 d result now (svc S)"
  from assms(3) have ok: "db_ok (db (svc S))" by (simp add: good_def)
  note e = worker_end_ok(2) [OF ok, of disk disk2 d result now]
  have same: "times_queued ?S (fst k) = times_queued S (fst k)" "sends ?S k' = sends S k'" for k'
    by (simp_all add: times_queued_def sends_def)
  have gone: "\<not> flies ?S k' w" for k' by (simp add: flies_def)
  have fewer: "flies ?S k' v \<Longrightarrow> flies S k' v" for k' v by (cases "v = w") (simp_all add: flies_def)
  have old: "\<exists>x \<in> set (deliveries (db (svc S))). row_key x = row_key row \<and> d_expires_at x = d_expires_at row
      \<and> (row = x \<or> row_key d = row_key x \<and> d_attempts row = Suc (d_attempts x))"
    if "available ?s" "row \<in> set (deliveries (db ?s))" for row
  proof -
    from e [OF that(1)] consider "?s = svc S" | "ended d (svc S) ?s" by blast
    then show ?thesis
    proof cases
      case 1
      with that(2) show ?thesis by auto
    next
      case 2
      then show ?thesis by (rule ended_row [OF _ that(2)]) blast
    qed
  qed
  have "accounted ?S row" if once: "times_queued S (fst k) \<le> 1" and avail: "available ?s"
      and row: "row \<in> set (deliveries (db ?s))" "row_key row = k" "now < d_expires_at row" for row
  proof -
    from old [OF avail row(1)] row obtain x where x: "x \<in> set (deliveries (db (svc S)))" "row_key x = k"
      "now < d_expires_at x" "row = x \<or> row_key d = row_key x \<and> d_attempts row = Suc (d_attempts x)" by auto
    from e [OF avail] have avail0: "available (svc S)" by simp
    with assms(2,4) once x have acc: "accounted S x" by (auto simp: life_def)
    show ?thesis
    proof (cases "row_key d = k")
      case False
      then have "row = x" "\<not> flies S k w" using x(2,4) flight by (auto simp: flies_def)
      then have "accounted S row" using acc by (simp only:)
      moreover have "\<not> flies S (row_key row) w" unfolding row(2) by fact
      ultimately show ?thesis
        by (rule accounted_other_worker [OF _ _ same(2) _ gone]) simp
    next
      case True
      then have "flies S k w" using flight by (auto simp: flies_def)
      with acc x(2) obtain v d1 t1 where v: "flights S v = Some (d1, t1)" "\<forall>u. flies S k u \<longrightarrow> u = v"
          "d_attempts d1 = d_attempts x" "d_epoch d1 = d_epoch x" "sends S k \<le> Suc (d_attempts x)"
        unfolding accounted_def by auto
      with \<open>flies S k w\<close> flight have "d1 = d" by auto
      have "still_owns d now (svc S)"
        unfolding still_owns_def owns_delivery_iff [OF ok]
        using x v avail0 assms(3) True \<open>d1 = d\<close> by (auto simp: good_def epochs_ok_def intro!: bexI [of _ x])
      with e [OF avail] have "ended d (svc S) ?s" by blast
      moreover have "row_key row = row_key d" by (simp only: row(2) True)
      ultimately obtain y where y: "y \<in> set (deliveries (db (svc S)))" "row_key y = row_key d"
        "d_attempts row = Suc (d_attempts y)" by (rule ended_retried [OF _ row(1)])
      have "y = x" by (rule row_unique [OF ok y(1) x(1)]) (simp only: y(2) True x(2))
      have "\<not> flies ?S k u" for u using fewer [of k u] v(2) \<open>flies S k w\<close> gone [of k] by metis
      with v(5) y(3) row(2) \<open>y = x\<close> show ?thesis by (simp add: accounted_def same)
    qed
  qed
  moreover have "d_event row \<noteq> fst k"
    if "times_queued S (fst k) = 0" "available ?s" "row \<in> set (deliveries (db ?s))" for row
  proof -
    from e [OF that(2)] have "available (svc S)" by simp
    with assms(4) that(1) have "\<forall>x \<in> set (deliveries (db (svc S))). d_event x \<noteq> fst k" by (simp add: life_def)
    with old [OF that(2,3)] show ?thesis by auto
  qed
  ultimately show ?thesis
    using assms(4) fewer [of k] by (auto simp: life_def same)
qed

lemma stopped_life:
  assumes "\<not> available (svc S)" and "life k S"
  shows "life k (S\<lparr>flights := (flights S)(w := None)\<rparr>)"
proof -
  have "flies (S\<lparr>flights := (flights S)(w := None)\<rparr>) k v \<Longrightarrow> flies S k v" for v
    by (cases "v = w") (simp_all add: flies_def)
  with assms show ?thesis by (auto simp: life_def times_queued_def sends_def)
qed

section \<open>All runs\<close>

lemma step_good_life:
  "service_step rt S S1 \<Longrightarrow> good S \<Longrightarrow> life k S \<Longrightarrow> good S1 \<and> life k S1"
proof (induction rule: service_step.induct)
  case (claim S w now disk disk2 disk3 s1 d)
  have "good (S\<lparr>svc := s1, flights := (flights S)(w := Some (d, now)), sent := sent S @ [row_key d],
      clock := now\<rparr>)"
    using claim(5) claim_sends(2) [OF claim(4)] leased_ok [of "db (svc S)" "row_key d" now]
      set_leased [of "row_key d" now "db (svc S)"]
    by (auto simp: good_def epochs_ok_def)
  with claim_life [OF claim] show ?case by blast
next
  case (idle S w now disk disk2 disk3 s1)
  note effect = claim_idles [OF idle(4)]
  from effect_good [OF effect idle(5), where fl = "flights S" and se = "sent S" and qu = "queued S" and cl = now]
    effect_life [OF effect idle(6,2)] show ?case by simp
next
  case (finished S w d t now disk disk2 result)
  have ok: "db_ok (db (svc S))" using finished(4) by (simp add: good_def)
  note e = worker_end_ok [OF ok, of disk disk2 d result now]
  have "epochs_ok (worker_end disk disk2 d result now (svc S))"
    if avail: "available (worker_end disk disk2 d result now (svc S))"
  proof -
    from e(2) [OF avail] have same: "available (svc S)" "proc (worker_end disk disk2 d result now (svc S)) = proc (svc S)"
      by simp_all
    with finished(4) have epochs: "epochs_ok (svc S)" by (simp add: good_def)
    show ?thesis
      unfolding epochs_ok_def same(2)
    proof
      fix row
      assume row: "row \<in> set (deliveries (db (worker_end disk disk2 d result now (svc S))))"
      from e(2) [OF avail] consider "worker_end disk disk2 d result now (svc S) = svc S"
        | "ended d (svc S) (worker_end disk disk2 d result now (svc S))" by blast
      then show "d_epoch row \<in> {py ''test'', epoch (proc (svc S))}"
      proof cases
        case 1
        with row epochs show ?thesis by (simp add: epochs_ok_def)
      next
        case 2
        then show ?thesis
          by (rule ended_row [OF _ row]) (use epochs in \<open>auto simp: epochs_ok_def\<close>)
      qed
    qed
  qed
  with e(1) finished_life [OF finished(1,2,4,5)] show ?case by (simp add: good_def)
next
  case (stopped S w d t)
  with stopped_life [OF stopped(2,4)] show ?case by (simp add: good_def)
next
  case (request S now r s1 qs)
  note effect = handle_effect [OF request(3)]
  from effect_good [OF effect request(4), where fl = "flights S" and se = "sent S" and qu = "queued S @ qs" and cl = now]
    effect_life [OF effect request(5,1)] show ?case by simp
qed

lemma run_good_life: "service_run rt S S1 \<Longrightarrow> good S \<Longrightarrow> life k S \<Longrightarrow> good S1 \<and> life k S1"
  by (induction rule: service_run.induct) (auto dest: step_good_life)

lemma initial_good_life: "initial S \<Longrightarrow> good S \<and> life k S"
proof -
  assume init: "initial S"
  then have none: "\<not> flies S k v" for v by (simp add: initial_def flies_def)
  have "d_event d \<noteq> fst k" if "times_queued S (fst k) = 0" "d \<in> set (deliveries (db (svc S)))" for d
    using init that by (auto simp: initial_def times_queued_def filter_empty_conv)
  moreover have "sends S k = 0" using init by (simp add: initial_def sends_def)
  ultimately show ?thesis
    using init none by (auto simp: good_def life_def accounted_def initial_def)
qed

section \<open>Properties\<close>

text \<open>C7: Over every interleaving of the two workers with observations, registrations, tests,
  reconnections and failing commits, an event that was queued once is sent to one subscription at
  most three times, given that no send outlasts its 30 s lease.\<close>

theorem sent_at_most_three_times:
  assumes "initial S" and "service_run rt S S1" and "times_queued S1 ev \<le> 1"
  shows "sends S1 (ev, i) \<le> 3"
proof -
  from initial_good_life [OF assms(1)] have "good S" "life (ev, i) S" by blast+
  with run_good_life [OF assms(2)] have "life (ev, i) S1" by blast
  with assms(3) show ?thesis by (simp add: life_def)
qed

definition demo_system :: system where
  "demo_system = \<lparr>svc = demo_service, flights = (\<lambda>_. None), sent = [], queued = [replicate 64 0x61],
     clock = 1700000000\<rparr>"

lemma sent_at_most_three_times_witness:
  "\<exists>S1. service_run demo_runtime demo_system S1
     \<and> 1 \<le> sends S1 (row_key demo_delivery) \<and> sends S1 (row_key demo_delivery) \<le> 3"
proof -
  let ?S = "demo_system\<lparr>svc := demo_service\<lparr>db := update_row (row_key demo_delivery) (lease 1700000001)
      (expire 1700000001 demo_store)\<rparr>, flights := (flights demo_system)(0 := Some (demo_delivery, 1700000001)),
      sent := sent demo_system @ [row_key demo_delivery], clock := 1700000001\<rparr>"
  have init: "initial demo_system"
    using demo_store_ok
    by (simp add: initial_def demo_system_def demo_service_def epochs_ok_def demo_row)
  have "worker_claim True True True 1700000001 (svc demo_system)
      = (demo_service\<lparr>db := update_row (row_key demo_delivery) (lease 1700000001) (expire 1700000001 demo_store)\<rparr>,
         Some demo_delivery)"
    using demo_claim by (simp add: demo_system_def)
  then have "service_step demo_runtime demo_system ?S"
    by (intro service_step.claim) (simp_all add: demo_system_def prompt_def)
  then have run: "service_run demo_runtime demo_system ?S" by (rule service_run.step [OF service_run.start])
  have "times_queued ?S (d_event demo_delivery) \<le> 1"
    by (simp add: times_queued_def demo_system_def demo_delivery_def)
  from sent_at_most_three_times [OF init run this, of "d_subscription demo_delivery"]
  have "sends ?S (row_key demo_delivery) \<le> 3" .
  moreover have "1 \<le> sends ?S (row_key demo_delivery)" by (simp add: sends_def)
  ultimately show ?thesis using run by blast
qed

end
