(* ===== verification/PythonUrl.thy ===== *)
theory PythonUrl
  imports PythonValues
begin

text \<open>
  \<open>urllib.parse.urlsplit\<close> and the authority attributes of its result (\<open>hostname\<close>, \<open>port\<close>,
  \<open>username\<close>), as far as the server uses them: on texts of visible ASCII characters, which every
  caller checks first, so that stripping white space and the NFKC check of the authority do
  nothing. \<open>ip6 h\<close> says that \<open>ipaddress.ip_address(h)\<close> gives an IPv6 address.
\<close>

definition visible :: "nat \<Rightarrow> bool" where
  "visible c \<longleftrightarrow> \<not> (c \<le> 32 \<or> c \<ge> 127)"

section \<open>String methods\<close>

text \<open>\<open>s.partition(c)\<close> and \<open>s.rpartition(c)\<close>, for a separator of one character.\<close>

definition cut :: "nat \<Rightarrow> pystring \<Rightarrow> pystring \<times> bool \<times> pystring" where
  "cut c s = (takeWhile (\<lambda>x. x \<noteq> c) s, c \<in> set s, drop 1 (dropWhile (\<lambda>x. x \<noteq> c) s))"

definition rcut :: "nat \<Rightarrow> pystring \<Rightarrow> pystring \<times> bool \<times> pystring" where
  "rcut c s =
     (if c \<in> set s
      then (rev (drop 1 (dropWhile (\<lambda>x. x \<noteq> c) (rev s))), True, rev (takeWhile (\<lambda>x. x \<noteq> c) (rev s)))
      else ([], False, s))"

fun split_on :: "nat \<Rightarrow> pystring \<Rightarrow> pystring list" where
  "split_on c [] = [[]]"
| "split_on c (x # s) =
     (if x = c then [] # split_on c s
      else case split_on c s of [] \<Rightarrow> [[x]] | p # ps \<Rightarrow> (x # p) # ps)"

definition ends_with :: "pystring \<Rightarrow> pystring \<Rightarrow> bool" where
  "ends_with s t \<longleftrightarrow> length t \<le> length s \<and> drop (length s - length t) s = t"

definition lower_char :: "nat \<Rightarrow> nat" where
  "lower_char c = (if 0x41 \<le> c \<and> c \<le> 0x5A then c + 0x20 else c)"

definition lower :: "pystring \<Rightarrow> pystring" where
  "lower s = map lower_char s"

text \<open>\<open>str.strip\<close>: the white space of Unicode.\<close>

definition is_space :: "nat \<Rightarrow> bool" where
  "is_space c \<longleftrightarrow> 0x09 \<le> c \<and> c \<le> 0x0D \<or> 0x1C \<le> c \<and> c \<le> 0x20 \<or> c \<in> {0x85, 0xA0, 0x1680}
     \<or> 0x2000 \<le> c \<and> c \<le> 0x200A \<or> c \<in> {0x2028, 0x2029, 0x202F, 0x205F, 0x3000}"

definition strip :: "pystring \<Rightarrow> pystring" where
  "strip s = rev (dropWhile is_space (rev (dropWhile is_space s)))"

definition is_alpha :: "nat \<Rightarrow> bool" where
  "is_alpha c \<longleftrightarrow> 0x41 \<le> c \<and> c \<le> 0x5A \<or> 0x61 \<le> c \<and> c \<le> 0x7A"

definition is_num :: "nat \<Rightarrow> bool" where
  "is_num c \<longleftrightarrow> 0x30 \<le> c \<and> c \<le> 0x39"

definition is_hex :: "nat \<Rightarrow> bool" where
  "is_hex c \<longleftrightarrow> is_num c \<or> 0x41 \<le> c \<and> c \<le> 0x46 \<or> 0x61 \<le> c \<and> c \<le> 0x66"

text \<open>\<open>int(s)\<close> of a text of digits.\<close>

definition decimal :: "pystring \<Rightarrow> nat" where
  "decimal s = fold (\<lambda>c n. 10 * n + (c - 0x30)) s 0"

section \<open>\<open>urlsplit\<close>\<close>

record url_parts =
  u_scheme :: pystring
  u_netloc :: pystring
  u_path :: pystring
  u_query :: pystring
  u_fragment :: pystring

definition scheme_char :: "nat \<Rightarrow> bool" where
  "scheme_char c \<longleftrightarrow> is_alpha c \<or> is_num c \<or> c \<in> {0x2B, 0x2D, 0x2E}"

definition split_scheme :: "pystring \<Rightarrow> pystring \<times> pystring" where
  "split_scheme url =
     (case cut 0x3A url of
        (scheme, found, rest) \<Rightarrow>
          if found \<and> scheme \<noteq> [] \<and> is_alpha (hd scheme) \<and> list_all scheme_char scheme
          then (lower scheme, rest) else ([], url))"

definition split_netloc :: "pystring \<Rightarrow> pystring \<times> pystring" where
  "split_netloc url =
     (if take 2 url = py ''//''
      then (takeWhile (\<lambda>c. c \<notin> {0x2F, 0x3F, 0x23}) (drop 2 url),
            dropWhile (\<lambda>c. c \<notin> {0x2F, 0x3F, 0x23}) (drop 2 url))
      else ([], url))"

text \<open>\<open>_check_bracketed_netloc\<close> and \<open>_check_bracketed_host\<close>. The pattern of the future addresses
  is \<open>v[a-fA-F0-9]+\..+\<close>.\<close>

definition future_address :: "pystring \<Rightarrow> bool" where
  "future_address h \<longleftrightarrow>
     (case cut 0x2E (drop 1 h) of
        (version, found, rest) \<Rightarrow> found \<and> version \<noteq> [] \<and> list_all is_hex version \<and> rest \<noteq> [])"

definition bracketed_host_ok :: "(pystring \<Rightarrow> bool) \<Rightarrow> pystring \<Rightarrow> bool" where
  "bracketed_host_ok ip6 h = (if take 1 h = py ''v'' then future_address h else ip6 h)"

definition bracketed_netloc_ok :: "(pystring \<Rightarrow> bool) \<Rightarrow> pystring \<Rightarrow> bool" where
  "bracketed_netloc_ok ip6 netloc =
     (case cut 0x5B (snd (snd (rcut 0x40 netloc))) of
        (before, True, bracketed) \<Rightarrow>
          (case cut 0x5D bracketed of
             (h, _, port) \<Rightarrow> before = [] \<and> (port = [] \<or> take 1 port = py '':'') \<and> bracketed_host_ok ip6 h)
      | (before, False, _) \<Rightarrow> bracketed_host_ok ip6 (fst (cut 0x3A before)))"

definition urlsplit :: "(pystring \<Rightarrow> bool) \<Rightarrow> pystring \<Rightarrow> url_parts outcome" where
  "urlsplit ip6 url =
     (let (scheme, rest) = split_scheme url;
          (netloc, rest) = split_netloc rest
      in if (0x5B \<in> set netloc) \<noteq> (0x5D \<in> set netloc) then Inl ValueError
         else if 0x5B \<in> set netloc \<and> \<not> bracketed_netloc_ok ip6 netloc then Inl ValueError
         else
           let (rest, _, fragment) = cut 0x23 rest;
               (path, _, query) = cut 0x3F rest
           in Inr \<lparr>u_scheme = scheme, u_netloc = netloc, u_path = path, u_query = query,
                    u_fragment = fragment\<rparr>)"

section \<open>The authority\<close>

definition has_userinfo :: "url_parts \<Rightarrow> bool" where
  "has_userinfo u \<longleftrightarrow> fst (snd (rcut 0x40 (u_netloc u)))"

definition hostinfo :: "url_parts \<Rightarrow> pystring \<times> pystring" where
  "hostinfo u =
     (let info = snd (snd (rcut 0x40 (u_netloc u))) in
      case cut 0x5B info of
        (_, True, bracketed) \<Rightarrow>
          (case cut 0x5D bracketed of (h, _, rest) \<Rightarrow> (h, snd (snd (cut 0x3A rest))))
      | (_, False, _) \<Rightarrow> (case cut 0x3A info of (h, _, port) \<Rightarrow> (h, port)))"

text \<open>\<open>hostname\<close> is \<open>None\<close> for an empty host; the zone of a scoped address keeps its case.\<close>

definition hostname :: "url_parts \<Rightarrow> pystring option" where
  "hostname u =
     (let h = fst (hostinfo u) in
      if h = [] then None
      else case cut 0x25 h of
          (name, percent, zone) \<Rightarrow> Some (lower name @ (if percent then [0x25] else []) @ zone))"

definition port_of :: "url_parts \<Rightarrow> nat option outcome" where
  "port_of u =
     (let p = snd (hostinfo u) in
      if p = [] then Inr None
      else if \<not> list_all is_num p then Inl ValueError
      else if decimal p > 65535 then Inl ValueError
      else Inr (Some (decimal p)))"

section \<open>Lemmas\<close>

named_theorems url_defs "the steps of urlsplit and of the authority attributes"
declare split_scheme_def [url_defs] split_netloc_def [url_defs] hostinfo_def [url_defs]

lemma cut_append: "cut c s = (a, f, b) \<Longrightarrow> s = a @ (if f then c # b else []) \<and> c \<notin> set a \<and> (f \<or> b = [])"
proof (induction s arbitrary: a)
  case Nil
  then show ?case by (simp add: cut_def)
next
  case (Cons x s)
  then show ?case by (cases "x = c") (auto simp: cut_def)
qed

lemma rcut_append:
  assumes "rcut c s = (a, f, b)"
  shows "s = a @ (if f then c # b else b) \<and> c \<notin> set b \<and> (f \<or> a = [])"
proof (cases "c \<in> set s")
  case True
  obtain a' b' where cut: "cut c (rev s) = (a', True, b')"
    using True by (simp add: cut_def)
  then have "rev s = a' @ c # b' \<and> c \<notin> set a'"
    using cut_append [OF cut] by simp
  moreover have "a = rev b'" "b = rev a'" "f"
    using assms True cut by (auto simp: rcut_def cut_def)
  ultimately show ?thesis
    by (metis (full_types) append_Cons append_Nil append_assoc rev_append rev_rev_ident rev.simps(2) set_rev)
qed (use assms in \<open>auto simp: rcut_def\<close>)

lemma cut_found: "cut c s = (a, f, b) \<Longrightarrow> f \<longleftrightarrow> c \<in> set s"
  by (auto simp: cut_def)

lemma cut_none: "c \<notin> set s \<Longrightarrow> cut c s = (s, False, [])"
proof -
  assume "c \<notin> set s"
  then have "takeWhile (\<lambda>x. x \<noteq> c) s = s" "dropWhile (\<lambda>x. x \<noteq> c) s = []" by auto
  with \<open>c \<notin> set s\<close> show ?thesis by (simp only: cut_def drop_Nil simp_thms)
qed

lemma rcut_none: "c \<notin> set s \<Longrightarrow> rcut c s = ([], False, s)"
  by (simp add: rcut_def)

lemma length_lower [simp]: "length (lower s) = length s"
  by (simp add: lower_def)

lemma lower_simps [simp]: "lower [] = []" "lower (c # s) = lower_char c # lower s" "lower (s @ t) = lower s @ lower t"
  by (simp_all add: lower_def)

lemma ends_with_iff: "ends_with s t \<longleftrightarrow> (\<exists>p. s = p @ t)"
proof
  assume "ends_with s t"
  then have "s = take (length s - length t) s @ t"
    unfolding ends_with_def by (metis append_take_drop_id)
  then show "\<exists>p. s = p @ t" ..
qed (auto simp: ends_with_def)

end
