(* ===== verification/PushTransport.thy ===== *)
theory PushTransport
  imports PushStart PushSystem PythonUrl
begin

text \<open>
  The transport of the push service (\<open>push_transport.py\<close>): which endpoints it accepts, how it
  checks the keys of a subscription, which addresses its resolver hands to the connector, and what
  \<open>send\<close> checks and posts. The encryption, the signature and the answer of the provider are
  arguments; so are \<open>on_curve\<close>, whether a byte string is a point of P-256, and \<open>is_global\<close>,
  the registry of public addresses of \<open>ipaddress\<close>.
\<close>

section \<open>Endpoints\<close>

definition exact_push_hosts :: "pystring set" where
  "exact_push_hosts = {py ''fcm.googleapis.com'', py ''updates.push.services.mozilla.com''}"

definition push_suffixes :: "pystring list" where
  "push_suffixes = [py ''.push.apple.com'', py ''.notify.windows.com'']"

text \<open>The pattern \<open>[a-z0-9-]+(?:\.[a-z0-9-]+)*\<close>.\<close>

definition label_char :: "nat \<Rightarrow> bool" where
  "label_char c \<longleftrightarrow> 0x61 \<le> c \<and> c \<le> 0x7A \<or> is_num c \<or> c = 0x2D"

definition dotted_labels :: "pystring \<Rightarrow> bool" where
  "dotted_labels s \<longleftrightarrow> list_all (\<lambda>l. l \<noteq> [] \<and> list_all label_char l) (split_on 0x2E s)"

definition push_host :: "pystring \<Rightarrow> bool" where
  "push_host h \<longleftrightarrow> h \<in> exact_push_hosts
     \<or> list_ex (\<lambda>suffix. ends_with h suffix \<and> dotted_labels (take (length h - length suffix) h)) push_suffixes"

definition endpoint_text_ok :: "pystring \<Rightarrow> bool" where
  "endpoint_text_ok e \<longleftrightarrow> \<not> (length e > 2048 \<or> \<not> list_all visible e \<or> 0x5C \<in> set e)"

definition endpoint_host :: "(pystring \<Rightarrow> bool) \<Rightarrow> pyval \<Rightarrow> pystring outcome" where
  "endpoint_host ip6 v =
     (case as_str v of
        None \<Rightarrow> Inl ValueError
      | Some e \<Rightarrow>
          if \<not> endpoint_text_ok e then Inl ValueError
          else case urlsplit ip6 e of
              Inl _ \<Rightarrow> Inl ValueError
            | Inr u \<Rightarrow>
                (case port_of u of
                   Inl _ \<Rightarrow> Inl ValueError
                 | Inr port \<Rightarrow>
                     if has_userinfo u then Inl ValueError
                     else case hostname u of
                         None \<Rightarrow> Inl ValueError
                       | Some h \<Rightarrow>
                           if u_scheme u \<noteq> py ''https'' \<or> port \<notin> {None, Some 443} \<or> take 1 (u_path u) \<noteq> py ''/''
                              \<or> u_fragment u \<noteq> [] \<or> ends_with h (py ''.'') then Inl ValueError
                           else if push_host h then Inr h else Inl ValueError))"

section \<open>Keys\<close>

text \<open>The URL-safe alphabet, and \<open>base64.b64decode\<close> in strict mode: the padding must complete the
  last group of four and nothing may follow it.\<close>

definition key_char :: "nat \<Rightarrow> bool" where
  "key_char c \<longleftrightarrow> is_alpha c \<or> is_num c \<or> c \<in> {0x2D, 0x5F}"

definition sextet :: "nat \<Rightarrow> nat" where
  "sextet c =
     (if 0x41 \<le> c \<and> c \<le> 0x5A then c - 0x41
      else if 0x61 \<le> c \<and> c \<le> 0x7A then c - 0x61 + 26
      else if is_num c then c - 0x30 + 52
      else if c = 0x2D then 62 else 63)"

fun b64_bytes :: "nat list \<Rightarrow> 8 word list" where
  "b64_bytes (a # b # c # d # r) =
     of_nat (a * 4 + b div 16) # of_nat (b mod 16 * 16 + c div 4) # of_nat (c mod 4 * 64 + d) # b64_bytes r"
| "b64_bytes [a, b, c] = [of_nat (a * 4 + b div 16), of_nat (b mod 16 * 16 + c div 4)]"
| "b64_bytes [a, b] = [of_nat (a * 4 + b div 16)]"
| "b64_bytes _ = []"

definition b64decode :: "pystring \<Rightarrow> 8 word list outcome" where
  "b64decode s =
     (let characters = takeWhile (\<lambda>c. c \<noteq> 0x3D) s;
          padding = length s - length characters
      in if length characters mod 4 = 1 \<or> padding \<noteq> (4 - length characters mod 4) mod 4 then Inl ValueError
         else Inr (b64_bytes (map sextet characters)))"

definition rstrip_pad :: "pystring \<Rightarrow> pystring" where
  "rstrip_pad s = rev (dropWhile (\<lambda>c. c = 0x3D) (rev s))"

text \<open>The pattern \<open>[A-Za-z0-9_-]+={0,2}\<close>.\<close>

definition key_text_ok :: "pystring \<Rightarrow> bool" where
  "key_text_ok s \<longleftrightarrow>
     (let characters = takeWhile key_char s; rest = dropWhile key_char s
      in characters \<noteq> [] \<and> rest \<in> {[], py ''='', py ''==''})"

definition decode_key :: "pyval \<Rightarrow> nat \<Rightarrow> 8 word list outcome" where
  "decode_key v bytes =
     (case as_str v of
        None \<Rightarrow> Inl ValueError
      | Some s \<Rightarrow>
          if \<not> key_text_ok s then Inl ValueError
          else case b64decode (s @ replicate ((4 - length s mod 4) mod 4) 0x3D) of
              Inl e \<Rightarrow> Inl e
            | Inr decoded \<Rightarrow> if length decoded \<noteq> bytes then Inl ValueError else Inr decoded)"

definition validate_subscription ::
  "(pystring \<Rightarrow> bool) \<Rightarrow> (8 word list \<Rightarrow> bool) \<Rightarrow> pyval \<Rightarrow> subscription outcome" where
  "validate_subscription ip6 on_curve v =
     (if \<not> is_dict v then Inl PyTypeError
      else case endpoint_host ip6 (py_get v ''endpoint'' PyNone) of
          Inl e \<Rightarrow> Inl e
        | Inr _ \<Rightarrow>
            let keys = py_get v ''keys'' PyNone in
            if \<not> is_dict keys then Inl PyTypeError
            else case decode_key (py_get keys ''p256dh'' PyNone) 65 of
                Inl e \<Rightarrow> Inl e
              | Inr public \<Rightarrow>
                  (case decode_key (py_get keys ''auth'' PyNone) 16 of
                     Inl e \<Rightarrow> Inl e
                   | Inr _ \<Rightarrow>
                       if \<not> on_curve public then Inl ValueError
                       else Inr \<lparr>endpoint = py_chars (py_get v ''endpoint'' PyNone),
                                 p256dh = rstrip_pad (py_chars (py_get keys ''p256dh'' PyNone)),
                                 auth = rstrip_pad (py_chars (py_get keys ''auth'' PyNone))\<rparr>))"

text \<open>The JSON document that the store keeps of a validated subscription.\<close>

definition subscription_value :: "subscription \<Rightarrow> pyval" where
  "subscription_value sub =
     PyDict [(py ''endpoint'', PyStr (endpoint sub)),
       (py ''keys'', PyDict [(py ''p256dh'', PyStr (p256dh sub)), (py ''auth'', PyStr (auth sub))])]"

section \<open>Addresses\<close>

datatype ip_address = Ip4 "32 word" | Ip6 "128 word"

definition ip6_network :: "nat \<Rightarrow> 128 word \<Rightarrow> 128 word \<Rightarrow> bool" where
  "ip6_network prefix base a \<longleftrightarrow> drop_bit (128 - prefix) a = drop_bit (128 - prefix) base"

fun is_multicast :: "ip_address \<Rightarrow> bool" where
  "is_multicast (Ip4 a) \<longleftrightarrow> drop_bit 28 a = 0xE"
| "is_multicast (Ip6 a) \<longleftrightarrow> drop_bit 120 a = 0xFF"

fun is_unspecified :: "ip_address \<Rightarrow> bool" where
  "is_unspecified (Ip4 a) \<longleftrightarrow> a = 0"
| "is_unspecified (Ip6 a) \<longleftrightarrow> a = 0"

fun unicast_ok :: "ip_address \<Rightarrow> bool" where
  "unicast_ok (Ip4 a) = True"
| "unicast_ok (Ip6 a) \<longleftrightarrow> \<not> (\<not> ip6_network 3 (push_bit 112 0x2000) a
     \<or> ip6_network 23 (push_bit 112 0x2001) a \<or> ip6_network 16 (push_bit 112 0x2002) a
     \<or> ip6_network 20 (push_bit 112 0x3FFF) a)"

text \<open>\<open>resolve\<close>: the answers of \<open>getaddrinfo\<close> are an argument, an exception if it fails or takes
  more than three seconds.\<close>

definition resolve ::
  "(pystring \<Rightarrow> bool) \<Rightarrow> (ip_address \<Rightarrow> bool) \<Rightarrow> (pystring \<Rightarrow> ip_address list outcome) \<Rightarrow> pystring \<Rightarrow> nat
    \<Rightarrow> ip_address list outcome" where
  "resolve ip6 is_global dns host port =
     (case endpoint_host ip6 (PyStr (py ''https://'' @ host @ py ''/push'')) of
        Inl e \<Rightarrow> Inl e
      | Inr _ \<Rightarrow>
          if port \<noteq> 443 then Inl ValueError
          else case dns host of
              Inl e \<Rightarrow> Inl e
            | Inr answers \<Rightarrow>
                if answers = [] \<or> length answers > 32 then Inl ValueError
                else if list_ex (\<lambda>ip. \<not> is_global ip \<or> is_multicast ip \<or> is_unspecified ip \<or> \<not> unicast_ok ip) answers
                then Inl ValueError
                else Inr answers)"

section \<open>Sending\<close>

text \<open>What the library makes of a message: the encrypted body, and the signed token for the audience,
  the contact and the expiry. Either may raise, which the caller reads as a \<open>send_result\<close>.\<close>

record push_request =
  q_url :: pystring
  q_body :: "8 word list"
  q_token :: pystring
  q_ttl :: int

record provider =
  seal :: "subscription \<Rightarrow> 8 word list \<Rightarrow> send_result + 8 word list"
  sign :: "pystring \<Rightarrow> int \<Rightarrow> send_result + pystring"
  post :: "push_request \<Rightarrow> send_result"

definition source_time_ok :: "pyval \<Rightarrow> rat \<Rightarrow> int option" where
  "source_time_ok payload now =
     (let v = py_get payload ''sourceTimestampMs'' PyNone in
      case as_int v of
        None \<Rightarrow> None
      | Some source_ms \<Rightarrow>
          if is_bool v \<or> source_ms \<le> 0 \<or> of_int source_ms / 1000 - now > 30 then None else Some source_ms)"

definition ttl :: "int \<Rightarrow> rat \<Rightarrow> int" where
  "ttl source_ms now = min 300 \<lfloor>of_int source_ms / 1000 + 300 - now\<rfloor>"

text \<open>The outcome as \<open>_deliver\<close> reads it (\<open>ValueError\<close> and \<open>TypeError\<close> are \<open>Invalid\<close>), with the
  request that was posted.\<close>

definition send ::
  "runtime \<Rightarrow> (pystring \<Rightarrow> bool) \<Rightarrow> (8 word list \<Rightarrow> bool) \<Rightarrow> provider \<Rightarrow> pyval \<Rightarrow> pyval \<Rightarrow> rat
    \<Rightarrow> send_result \<times> push_request option" where
  "send rt ip6 on_curve prov subscription payload now =
     (case validate_subscription ip6 on_curve subscription of
        Inl _ \<Rightarrow> (Invalid, None)
      | Inr sub \<Rightarrow>
          (case endpoint_host ip6 (PyStr (endpoint sub)) of
             Inl _ \<Rightarrow> (Invalid, None)
           | Inr host \<Rightarrow>
               (case encode (json rt payload) of
                  Inl _ \<Rightarrow> (Invalid, None)
                | Inr data \<Rightarrow>
                    if length data > MAX_PAYLOAD then (Invalid, None)
                    else case source_time_ok payload now of
                        None \<Rightarrow> (Invalid, None)
                      | Some source_ms \<Rightarrow>
                          if ttl source_ms now \<le> 0 then (Invalid, None)
                          else case seal prov sub data of
                              Inl r \<Rightarrow> (r, None)
                            | Inr body \<Rightarrow>
                                (case sign prov (py ''https://'' @ host) (py_int now + 3600) of
                                   Inl r \<Rightarrow> (r, None)
                                 | Inr token \<Rightarrow>
                                     let request = \<lparr>q_url = endpoint sub, q_body = body, q_token = token,
                                                    q_ttl = ttl source_ms now\<rparr>
                                     in (post prov request, Some request)))))"

section \<open>What an accepted endpoint names\<close>

text \<open>The URL \<open>e\<close> names the host \<open>h\<close> on the HTTPS port: nothing stands before the host, the port is
  443 or absent, and the path follows.\<close>

definition port_443 :: "pystring \<Rightarrow> bool" where
  "port_443 p \<longleftrightarrow> p = [] \<or> p = py '':'' \<or> (\<exists>ds. p = 0x3A # ds \<and> list_all is_num ds \<and> decimal ds = 443)"

definition names_host :: "pystring \<Rightarrow> pystring \<Rightarrow> bool" where
  "names_host e h \<longleftrightarrow> (\<exists>scheme host port tail. e = scheme @ py ''://'' @ host @ port @ 0x2F # tail
     \<and> lower scheme = py ''https'' \<and> (lower host = h \<or> lower host = 0x5B # h @ [0x5D]) \<and> port_443 port)"

lemma set_split_on: "c \<in> set s \<longleftrightarrow> c \<in> \<Union> (set ` set (split_on x s)) \<or> c = x \<and> x \<in> set s"
  by (induction s) (auto split: list.splits)

lemma dotted_labels_chars: "dotted_labels s \<Longrightarrow> c \<in> set s \<Longrightarrow> label_char c \<or> c = 0x2E"
  using set_split_on [of c s "0x2E"] by (fastforce simp: dotted_labels_def list_all_iff)

lemma push_host_chars:
  assumes "push_host h" and "c \<in> set h"
  shows "label_char c \<or> c = 0x2E"
proof (cases "h \<in> exact_push_hosts")
  case True
  then have "list_all (\<lambda>c. label_char c \<or> c = 0x2E) h"
    by (auto simp: exact_push_hosts_def py_def label_char_def is_num_def)
  with assms(2) show ?thesis by (auto simp: list_all_iff)
next
  case False
  with assms(1) obtain suffix where s: "suffix \<in> set push_suffixes" "ends_with h suffix"
    "dotted_labels (take (length h - length suffix) h)"
    by (auto simp: push_host_def list_ex_iff)
  from s(2) obtain p where p: "h = p @ suffix" unfolding ends_with_iff ..
  with s(3) have "dotted_labels p" by simp
  moreover have "list_all (\<lambda>c. label_char c \<or> c = 0x2E) suffix"
    using s(1) by (auto simp: push_suffixes_def py_def label_char_def is_num_def)
  ultimately show ?thesis
    using assms(2) p by (auto simp: list_all_iff dest: dotted_labels_chars)
qed

lemma endpoint_host_Inr:
  assumes "endpoint_host ip6 v = Inr h"
  obtains e u port where "v = PyStr e" "endpoint_text_ok e" "urlsplit ip6 e = Inr u" "port_of u = Inr port"
    "\<not> has_userinfo u" "hostname u = Some h" "u_scheme u = py ''https''" "port \<in> {None, Some 443}"
    "take 1 (u_path u) = py ''/''" "push_host h"
  using assms
  by (cases v) (auto simp: endpoint_host_def split: if_splits sum.splits option.splits)

lemma hostname_plain:
  assumes "hostname u = Some h" and "0x25 \<notin> set h"
  shows "lower (fst (hostinfo u)) = h"
proof -
  obtain name percent zone where cut: "cut 0x25 (fst (hostinfo u)) = (name, percent, zone)"
    by (metis prod_cases3)
  with assms cut_append [OF cut] show ?thesis
    by (auto simp: hostname_def Let_def split: if_splits)
qed

lemma port_of_443:
  assumes "port_of u = Inr port" and "port \<in> {None, Some 443}"
  shows "snd (hostinfo u) = [] \<or> list_all is_num (snd (hostinfo u)) \<and> decimal (snd (hostinfo u)) = 443"
  using assms by (auto simp: port_of_def Let_def split: if_splits)

text \<open>The three shapes of an authority without user information.\<close>

lemma netloc_shape:
  assumes plain: "0x40 \<notin> set netloc" and "u_netloc u = netloc" and "hostinfo u = (h, port)"
    and "(0x5B \<in> set netloc) = (0x5D \<in> set netloc)" and "0x5B \<in> set netloc \<longrightarrow> bracketed_netloc_ok ip6 netloc"
  shows "\<exists>host p. netloc = host @ p \<and> (host = h \<or> host = 0x5B # h @ [0x5D])
    \<and> (p = 0x3A # port \<or> p = [] \<and> port = [])"
proof -
  obtain before open_br bracketed where b: "cut 0x5B netloc = (before, open_br, bracketed)"
    by (metis prod_cases3)
  show ?thesis
  proof (cases open_br)
    case True
    obtain inner close rest where i: "cut 0x5D bracketed = (inner, close, rest)"
      by (metis prod_cases3)
    from True b have "0x5B \<in> set netloc" by (simp add: cut_found [OF b])
    with assms(4,5) plain b i True have "before = []" "rest = [] \<or> take 1 rest = py '':''" "0x5D \<in> set netloc"
      by (auto simp: bracketed_netloc_ok_def rcut_none)
    moreover from this b True have "netloc = 0x5B # bracketed" using cut_append [OF b] by simp
    ultimately have "close" using cut_found [OF i] by auto
    have "h = inner" "port = snd (snd (cut 0x3A rest))"
      using assms(2,3) plain b i True by (auto simp: hostinfo_def rcut_none)
    moreover have "rest = [] \<or> (\<exists>r. rest = 0x3A # r)"
      using \<open>rest = [] \<or> take 1 rest = py '':''\<close> by (cases rest) (auto simp: py_def)
    ultimately have "rest = 0x3A # port \<or> rest = [] \<and> port = []"
      by (auto simp: cut_def)
    moreover have "netloc = (0x5B # h @ [0x5D]) @ rest"
      using \<open>netloc = 0x5B # bracketed\<close> cut_append [OF i] \<open>close\<close> \<open>h = inner\<close> by simp
    ultimately show ?thesis by blast
  next
    case False
    obtain name colon p where c: "cut 0x3A netloc = (name, colon, p)"
      by (metis prod_cases3)
    from False b c assms(2,3) plain have "h = name" "port = p"
      by (auto simp: hostinfo_def rcut_none)
    with cut_append [OF c] show ?thesis by (cases colon) auto
  qed
qed

lemma urlsplit_https:
  assumes "urlsplit ip6 e = Inr u" and "u_scheme u = py ''https''"
  obtains scheme rest where "e = scheme @ 0x3A # rest" "lower scheme = py ''https''"
    "u_netloc u = fst (split_netloc rest)" "u_path u = fst (cut 0x3F (fst (cut 0x23 (snd (split_netloc rest)))))"
    "(0x5B \<in> set (u_netloc u)) = (0x5D \<in> set (u_netloc u))"
    "0x5B \<in> set (u_netloc u) \<longrightarrow> bracketed_netloc_ok ip6 (u_netloc u)"
proof -
  obtain scheme found rest where c: "cut 0x3A e = (scheme, found, rest)" by (metis prod_cases3)
  obtain scheme1 rest1 where sp: "split_scheme e = (scheme1, rest1)" by fastforce
  obtain netloc tail where nl: "split_netloc rest1 = (netloc, tail)" by fastforce
  obtain before x fragment where f: "cut 0x23 tail = (before, x, fragment)" by (metis prod_cases3)
  obtain path y query where q: "cut 0x3F before = (path, y, query)" by (metis prod_cases3)
  have u: "u = \<lparr>u_scheme = scheme1, u_netloc = netloc, u_path = path, u_query = query, u_fragment = fragment\<rparr>"
    and br: "(0x5B \<in> set netloc) = (0x5D \<in> set netloc)" "0x5B \<in> set netloc \<longrightarrow> bracketed_netloc_ok ip6 netloc"
    using assms(1) by (auto simp: urlsplit_def sp nl f q Let_def split: if_splits)
  from assms(2) u sp c have "found" "scheme1 = lower scheme" "rest1 = rest"
    by (auto simp: split_scheme_def split: if_splits)
  with cut_append [OF c] u br assms(2) nl f q show thesis
    by (intro that [of scheme rest]) simp_all
qed

lemma split_netloc_append: "fst (split_netloc rest) \<noteq> [] \<Longrightarrow> rest = py ''//'' @ fst (split_netloc rest) @ snd (split_netloc rest)"
  by (auto simp: split_netloc_def split: if_splits) (metis append_take_drop_id)

lemma fst_cut_prefix: "fst (cut c s) = x # xs \<Longrightarrow> \<exists>t. s = x # t"
  by (cases s) (auto simp: cut_def split: if_splits)

lemma endpoint_names_host:
  assumes "endpoint_host ip6 v = Inr h"
  obtains e where "v = PyStr e" "length e \<le> 2048" "names_host e h" "push_host h"
proof -
  from assms obtain e u port where e: "v = PyStr e" "endpoint_text_ok e"
    and u: "urlsplit ip6 e = Inr u" "port_of u = Inr port" "\<not> has_userinfo u" "hostname u = Some h"
      "u_scheme u = py ''https''" "port \<in> {None, Some 443}" "take 1 (u_path u) = py ''/''" and h: "push_host h"
    by (rule endpoint_host_Inr)
  from u(1,5) obtain scheme rest where split: "e = scheme @ 0x3A # rest" "lower scheme = py ''https''"
    "u_netloc u = fst (split_netloc rest)" "u_path u = fst (cut 0x3F (fst (cut 0x23 (snd (split_netloc rest)))))"
    and br: "(0x5B \<in> set (u_netloc u)) = (0x5D \<in> set (u_netloc u))"
      "0x5B \<in> set (u_netloc u) \<longrightarrow> bracketed_netloc_ok ip6 (u_netloc u)"
    by (rule urlsplit_https)
  have "0x40 \<notin> set (u_netloc u)" using u(3) by (auto simp: has_userinfo_def rcut_def split: if_splits)
  from netloc_shape [OF this refl prod.collapse [symmetric] br] obtain host p where shape: "u_netloc u = host @ p"
    "host = fst (hostinfo u) \<or> host = 0x5B # fst (hostinfo u) @ [0x5D]"
    "p = 0x3A # snd (hostinfo u) \<or> p = [] \<and> snd (hostinfo u) = []" by blast
  have "lower (fst (hostinfo u)) = h"
    by (rule hostname_plain [OF u(4)]) (use push_host_chars [OF h, of "0x25"] in \<open>auto simp: label_char_def is_num_def\<close>)
  with shape(2) have name: "lower host = h \<or> lower host = 0x5B # h @ [0x5D]"
    by (auto simp: lower_char_def)
  from port_of_443 [OF u(2,6)] shape(3) have port: "port_443 p" by (auto simp: port_443_def py_def)
  from u(4) shape have "u_netloc u \<noteq> []" by (auto simp: hostname_def Let_def split: if_splits)
  with split_netloc_append split(3) have rest: "rest = py ''//'' @ u_netloc u @ snd (split_netloc rest)" by metis
  from u(7) obtain xs where "u_path u = 0x2F # xs" by (cases "u_path u") (auto simp: py_def)
  with split(4) obtain tail where "snd (split_netloc rest) = 0x2F # tail" by (metis fst_cut_prefix)
  with rest split(1) shape(1) have "e = scheme @ py ''://'' @ host @ p @ 0x2F # tail"
    by (simp add: py_def)
  with name port split(2) have "names_host e h" unfolding names_host_def by blast
  with e h show thesis by (intro that) (simp_all add: endpoint_text_ok_def)
qed

text \<open>For a plain name, with no slash, colon or bracket in it, the host of \<open>https://name/push\<close> is the name.\<close>

lemma takeWhile_until: "c \<notin> set s \<Longrightarrow> takeWhile (\<lambda>x. x \<noteq> c) (s @ c # t) = s"
  by (induction s) auto

lemma lower_punctuation: "c < 0x41 \<or> 0x5A < c \<and> c < 0x61 \<Longrightarrow> c \<in> set s \<longleftrightarrow> c \<in> set (lower s)"
  by (induction s) (auto simp: lower_def lower_char_def)

lemma port_443_chars: "port_443 p \<Longrightarrow> c \<in> set p \<Longrightarrow> c = 0x3A \<or> is_num c"
  by (auto simp: port_443_def py_def list_all_iff)

lemma port_443_first: "port_443 p \<Longrightarrow> 0x3A \<notin> set p \<Longrightarrow> p = []"
  by (auto simp: port_443_def py_def)

lemma names_plain_host:
  assumes "names_host (py ''https://'' @ host @ py ''/push'') h" and "push_host h"
    and plain: "0x2F \<notin> set host" "0x3A \<notin> set host" "0x5B \<notin> set host"
  shows "lower host = h"
proof -
  from assms(1) obtain scheme name port tail where
    e: "py ''https'' @ py ''://'' @ host @ 0x2F # py ''push'' = scheme @ py ''://'' @ name @ port @ 0x2F # tail"
    and scheme: "lower scheme = py ''https''" and name: "lower name = h \<or> lower name = 0x5B # h @ [0x5D]"
    and port: "port_443 port"
    by (auto simp: names_host_def py_def)
  have "length scheme = length (py ''https'')" using scheme by (metis length_map lower_def)
  with e have split: "host @ 0x2F # py ''push'' = (name @ port) @ 0x2F # tail"
    by (simp add: append_eq_append_conv)
  have "0x2F \<notin> set h" using push_host_chars [OF assms(2), of "0x2F"] by (auto simp: label_char_def is_num_def)
  with name have "0x2F \<notin> set name" by (auto simp: lower_punctuation [of "0x2F" name])
  moreover have "0x2F \<notin> set port" using port_443_chars [OF port, of "0x2F"] by (auto simp: is_num_def)
  ultimately have host: "host = name @ port"
    using takeWhile_until [OF plain(1), of "py ''push''"] takeWhile_until [of "0x2F" "name @ port" tail] split by simp
  with plain(2) port_443_first [OF port] have "host = name" by simp
  moreover have "lower name \<noteq> 0x5B # h @ [0x5D]"
    using plain(3) lower_punctuation [of "0x5B" name] \<open>host = name\<close> by auto
  ultimately show ?thesis using name by simp
qed

section \<open>Keys without padding\<close>

lemma key_char_no_pad: "key_char c \<Longrightarrow> c \<noteq> 0x3D"
  by (auto simp: key_char_def is_alpha_def is_num_def)

lemma key_text_split:
  assumes "key_text_ok s"
  obtains characters p where "s = characters @ replicate p 0x3D" "characters \<noteq> []" "list_all key_char characters"
    "p \<le> 2" "rstrip_pad s = characters"
proof -
  let ?c = "takeWhile key_char s" and ?r = "dropWhile key_char s"
  from assms obtain p where p: "?r = replicate p 0x3D" "p \<le> 2" and ne: "?c \<noteq> []"
    unfolding key_text_ok_def Let_def py_def
    by (auto intro: that [of 0] that [of 1] that [of 2] simp: numeral_2_eq_2)
  have s: "s = ?c @ replicate p 0x3D" by (metis p(1) takeWhile_dropWhile_id)
  have all: "list_all key_char ?c" by (auto simp: list_all_iff dest: set_takeWhileD)
  with ne have "last ?c \<noteq> 0x3D" by (metis key_char_no_pad last_in_set list_all_iff)
  then have "dropWhile (\<lambda>c. c = 0x3D) (rev ?c) = rev ?c"
    using ne by (cases "rev ?c") (auto simp: last_rev [of "rev ?c", symmetric] hd_rev [symmetric])
  then have "rstrip_pad s = ?c"
    by (subst s) (simp add: rstrip_pad_def dropWhile_append)
  with s ne all p(2) show thesis by (intro that)
qed

lemma takeWhile_characters:
  "list_all key_char cs \<Longrightarrow> takeWhile (\<lambda>c. c \<noteq> 0x3D) (cs @ replicate p 0x3D) = cs"
proof (induction cs)
  case Nil
  show ?case by (cases p) simp_all
qed (auto dest: key_char_no_pad)

lemma key_text_ok_characters: "list_all key_char cs \<Longrightarrow> cs \<noteq> [] \<Longrightarrow> key_text_ok cs"
proof -
  assume "list_all key_char cs" "cs \<noteq> []"
  then have "takeWhile key_char cs = cs" "dropWhile key_char cs = []" by (auto simp: list_all_iff)
  with \<open>cs \<noteq> []\<close> show ?thesis by (simp only: key_text_ok_def Let_def) simp
qed

lemma b64decode_characters:
  "list_all key_char cs \<Longrightarrow> b64decode (cs @ replicate p 0x3D) =
     (if length cs mod 4 = 1 \<or> p \<noteq> (4 - length cs mod 4) mod 4 then Inl ValueError
      else Inr (b64_bytes (map sextet cs)))"
  by (simp add: b64decode_def takeWhile_characters Let_def)

lemma decode_key_rstrip:
  assumes "decode_key (PyStr s) n = Inr b"
  shows "decode_key (PyStr (rstrip_pad s)) n = Inr b" and "rstrip_pad (rstrip_pad s) = rstrip_pad s"
proof -
  from assms have "key_text_ok s" by (simp add: decode_key_def split: if_splits)
  then obtain cs p where s: "s = cs @ replicate p 0x3D" "cs \<noteq> []" "list_all key_char cs" "rstrip_pad s = cs"
    by (rule key_text_split)
  let ?k = "(4 - length s mod 4) mod 4"
  have "s @ replicate ?k 0x3D = cs @ replicate (p + ?k) 0x3D"
    by (subst s(1)) (simp add: replicate_add)
  with assms s(3) have b: "b = b64_bytes (map sextet cs)" "length cs mod 4 \<noteq> 1" "length b = n"
    by (auto simp: decode_key_def b64decode_characters split: if_splits)
  with b64decode_characters [OF s(3), of "(4 - length cs mod 4) mod 4"] key_text_ok_characters [OF s(3,2)]
  show "decode_key (PyStr (rstrip_pad s)) n = Inr b"
    by (simp add: decode_key_def s(4))
  show "rstrip_pad (rstrip_pad s) = rstrip_pad s"
    by (simp add: rstrip_pad_def dropWhile_idem)
qed

lemma decode_key_str: "decode_key v n = Inr b \<Longrightarrow> v = PyStr (py_chars v)"
  by (cases v) (auto simp: decode_key_def)

lemma endpoint_host_str: "endpoint_host ip6 v = Inr h \<Longrightarrow> v = PyStr (py_chars v)"
  by (cases v) (auto simp: endpoint_host_def)

lemma validate_subscription_iff:
  "validate_subscription ip6 on_curve v = Inr sub \<longleftrightarrow>
     is_dict v \<and> is_dict (py_get v ''keys'' PyNone)
     \<and> (\<exists>h. endpoint_host ip6 (py_get v ''endpoint'' PyNone) = Inr h)
     \<and> (\<exists>public. decode_key (py_get (py_get v ''keys'' PyNone) ''p256dh'' PyNone) 65 = Inr public \<and> on_curve public)
     \<and> (\<exists>secret. decode_key (py_get (py_get v ''keys'' PyNone) ''auth'' PyNone) 16 = Inr secret)
     \<and> sub = \<lparr>endpoint = py_chars (py_get v ''endpoint'' PyNone),
          p256dh = rstrip_pad (py_chars (py_get (py_get v ''keys'' PyNone) ''p256dh'' PyNone)),
          auth = rstrip_pad (py_chars (py_get (py_get v ''keys'' PyNone) ''auth'' PyNone))\<rparr>"
  unfolding validate_subscription_def Let_def by (auto split: sum.splits if_splits)

lemma subscription_value_items [simp]:
  "is_dict (subscription_value sub)"
  "py_get (subscription_value sub) ''endpoint'' PyNone = PyStr (endpoint sub)"
  "is_dict (py_get (subscription_value sub) ''keys'' PyNone)"
  "py_get (py_get (subscription_value sub) ''keys'' PyNone) ''p256dh'' PyNone = PyStr (p256dh sub)"
  "py_get (py_get (subscription_value sub) ''keys'' PyNone) ''auth'' PyNone = PyStr (auth sub)"
  by (simp_all add: subscription_value_def py_get_def)

lemma validated_endpoint:
  assumes "validate_subscription ip6 on_curve v = Inr sub"
  obtains h where "endpoint_host ip6 (PyStr (endpoint sub)) = Inr h" "push_host h" "names_host (endpoint sub) h"
proof -
  from assms obtain h where h: "endpoint_host ip6 (py_get v ''endpoint'' PyNone) = Inr h"
    and e: "endpoint sub = py_chars (py_get v ''endpoint'' PyNone)"
    by (auto simp: validate_subscription_iff)
  from h e endpoint_host_str [OF h] have h: "endpoint_host ip6 (PyStr (endpoint sub)) = Inr h" by simp
  then show thesis by (rule endpoint_names_host) (use h that in simp)
qed

section \<open>Properties\<close>

text \<open>The check of the start, on subscriptions as the store keeps them.\<close>

definition stored_check ::
  "(pystring \<Rightarrow> bool) \<Rightarrow> (8 word list \<Rightarrow> bool) \<Rightarrow> subscription \<Rightarrow> subscription outcome" where
  "stored_check ip6 on_curve sub = validate_subscription ip6 on_curve (subscription_value sub)"

text \<open>A subscription that was validated validates again, unchanged, when it is read back from the
  store, and its endpoint names a push provider on the HTTPS port.\<close>

theorem stored_subscription_validates:
  assumes "validate_subscription ip6 on_curve v = Inr sub"
  shows "stored_check ip6 on_curve sub = Inr sub \<and> (\<exists>h. push_host h \<and> names_host (endpoint sub) h)"
proof -
  let ?p = "py_get (py_get v ''keys'' PyNone) ''p256dh'' PyNone"
  let ?a = "py_get (py_get v ''keys'' PyNone) ''auth'' PyNone"
  from assms obtain public secret where keys: "decode_key ?p 65 = Inr public" "on_curve public"
    "decode_key ?a 16 = Inr secret"
    and sub: "p256dh sub = rstrip_pad (py_chars ?p)" "auth sub = rstrip_pad (py_chars ?a)"
    by (auto simp: validate_subscription_iff)
  have "decode_key (PyStr (py_chars ?p)) 65 = Inr public" "decode_key (PyStr (py_chars ?a)) 16 = Inr secret"
    using keys(1,3) decode_key_str [OF keys(1)] decode_key_str [OF keys(3)] by simp_all
  note stripped = decode_key_rstrip [OF this(1)] decode_key_rstrip [OF this(2)]
  obtain h where h: "endpoint_host ip6 (PyStr (endpoint sub)) = Inr h" "push_host h" "names_host (endpoint sub) h"
    by (rule validated_endpoint [OF assms])
  from stripped keys(2) sub h show ?thesis
    by (auto simp: stored_check_def validate_subscription_iff)
qed

lemma send_Some:
  assumes "send rt ip6 on_curve prov v payload now = (r, Some q)"
  obtains sub data t where "validate_subscription ip6 on_curve v = Inr sub" "q_url q = endpoint sub"
    "encode (json rt payload) = Inr data" "length data \<le> MAX_PAYLOAD" "seal prov sub data = Inr (q_body q)"
    "source_time_ok payload now = Some t" "q_ttl q = ttl t now" "0 < ttl t now" "r = post prov q"
  using assms
  by (auto simp: send_def Let_def split: sum.splits option.splits if_splits)

lemma validated_times:
  assumes "validate_persisted_payload rt payload = Inr ()"
  shows "py_get payload ''sourceTimestampMs'' PyNone = PyInt (payload_time payload ''sourceTimestampMs'')"
    "payload_time payload ''sourceTimestampMs'' \<le> MAX_SAFE_INTEGER" "payload_time payload ''observedAtMs'' \<le> MAX_SAFE_INTEGER"
proof -
  from assms obtain sms obs where "py_item payload ''sourceTimestampMs'' = PyInt sms" "time_range sms"
    "py_item payload ''observedAtMs'' = PyInt obs" "time_range obs"
    by (auto simp: validate_Inr_iff valid_payload_def)
  then show "py_get payload ''sourceTimestampMs'' PyNone = PyInt (payload_time payload ''sourceTimestampMs'')"
    "payload_time payload ''sourceTimestampMs'' \<le> MAX_SAFE_INTEGER" "payload_time payload ''observedAtMs'' \<le> MAX_SAFE_INTEGER"
    by (auto simp: payload_time_def py_get_def py_item_def time_range_def split: option.splits)
qed

lemma resolve_Inr:
  assumes "resolve ip6 is_global dns host port = Inr ips"
  shows "(\<exists>h. push_host h \<and> names_host (py ''https://'' @ host @ py ''/push'') h
      \<and> (0x2F \<notin> set host \<and> 0x3A \<notin> set host \<and> 0x5B \<notin> set host \<longrightarrow> lower host = h))
    \<and> port = 443 \<and> ips \<noteq> [] \<and> length ips \<le> 32
    \<and> (\<forall>ip \<in> set ips. is_global ip \<and> \<not> is_multicast ip \<and> \<not> is_unspecified ip \<and> unicast_ok ip)"
proof -
  from assms obtain h where "endpoint_host ip6 (PyStr (py ''https://'' @ host @ py ''/push'')) = Inr h"
    by (auto simp: resolve_def split: sum.splits)
  then have "push_host h" "names_host (py ''https://'' @ host @ py ''/push'') h"
    by (auto elim: endpoint_names_host)
  moreover from this names_plain_host have "0x2F \<notin> set host \<and> 0x3A \<notin> set host \<and> 0x5B \<notin> set host \<longrightarrow> lower host = h" by blast
  moreover from assms have "port = 443 \<and> ips \<noteq> [] \<and> length ips \<le> 32
      \<and> (\<forall>ip \<in> set ips. is_global ip \<and> \<not> is_multicast ip \<and> \<not> is_unspecified ip \<and> unicast_ok ip)"
    by (auto simp: resolve_def list_ex_iff split: sum.splits if_splits)
  ultimately show ?thesis by blast
qed

text \<open>C11: What \<open>send\<close> posts goes to a URL that names an allowed push provider on the HTTPS port. And
  whatever name and port the connector asks for, the resolver answers only if \<open>https://name/push\<close> names
  an allowed provider (a name without slash, colon and bracket is itself one, in any case) and the
  port is 443, and then with 1 to 32 addresses that are all public unicast ones.\<close>

theorem send_reaches_only_push_providers:
  assumes "send rt ip6 on_curve prov v payload now = (r, Some q)"
  shows "(\<exists>h. push_host h \<and> names_host (q_url q) h \<and> length (q_url q) \<le> 2048)
    \<and> (\<forall>is_global dns host port ips. resolve ip6 is_global dns host port = Inr ips \<longrightarrow>
         (\<exists>h. push_host h \<and> names_host (py ''https://'' @ host @ py ''/push'') h
            \<and> (0x2F \<notin> set host \<and> 0x3A \<notin> set host \<and> 0x5B \<notin> set host \<longrightarrow> lower host = h))
         \<and> port = 443 \<and> ips \<noteq> [] \<and> length ips \<le> 32
         \<and> (\<forall>ip \<in> set ips. is_global ip \<and> \<not> is_multicast ip \<and> \<not> is_unspecified ip \<and> unicast_ok ip))"
proof -
  from assms obtain sub where sub: "validate_subscription ip6 on_curve v = Inr sub" "q_url q = endpoint sub"
    by (rule send_Some)
  from sub(1) obtain h where h: "endpoint_host ip6 (PyStr (endpoint sub)) = Inr h" by (rule validated_endpoint)
  then have "\<exists>h. push_host h \<and> names_host (q_url q) h \<and> length (q_url q) \<le> 2048"
    using sub(2) by (metis endpoint_names_host pyval.inject(4))
  then show ?thesis using resolve_Inr by blast
qed

text \<open>C25: A posted push of a payload that validates has at most 3072 bytes before encryption and a lifetime
  of 1 to 300 s that ends no later than 300 s after its source time: whenever it arrives within it, the
  service worker finds the source time fresh. The observation time is fresh then too if it lies between
  the source time and the send; a source time ahead of the observation may outlive it.\<close>

theorem posted_push_stays_fresh:
  assumes "send rt ip6 on_curve prov v payload now = (r, Some q)" and "validate_persisted_payload rt payload = Inr ()"
    and arrival: "now * 1000 \<le> of_int t" "of_int t \<le> (now + of_int (q_ttl q)) * 1000"
  shows "0 < q_ttl q \<and> q_ttl q \<le> 300 \<and> (\<exists>data. encode (json rt payload) = Inr data \<and> length data \<le> 3072)
    \<and> fresh t (payload_time payload ''sourceTimestampMs'')
    \<and> (payload_time payload ''sourceTimestampMs'' \<le> payload_time payload ''observedAtMs''
        \<and> of_int (payload_time payload ''observedAtMs'') \<le> now * 1000 \<longrightarrow> fresh t (payload_time payload ''observedAtMs''))"
proof -
  let ?source = "payload_time payload ''sourceTimestampMs''" and ?observed = "payload_time payload ''observedAtMs''"
  from assms(1) obtain data s where q: "encode (json rt payload) = Inr data" "length data \<le> MAX_PAYLOAD"
    "source_time_ok payload now = Some s" "q_ttl q = ttl s now" "0 < ttl s now"
    by (rule send_Some)
  note times = validated_times [OF assms(2)]
  from q(3) times(1) have s: "s = ?source" "0 < ?source" "(of_int ?source :: rat) / 1000 - now \<le> 30"
    by (auto simp: source_time_ok_def Let_def split: if_splits)
  have "of_int (ttl s now) \<le> (of_int ?source / 1000 + 300 - now :: rat)"
    unfolding ttl_def s(1) by (rule order_trans [OF _ of_int_floor_le]) simp
  with arrival(2) q(4) have "(of_int t :: rat) \<le> of_int ?source + 300000" by (simp add: algebra_simps)
  then have late: "t \<le> ?source + 300000" by linarith
  from s(3) arrival(1) have "(of_int ?source :: rat) \<le> of_int t + 30000" by (simp add: algebra_simps)
  then have early: "?source \<le> t + 30000" by linarith
  have "fresh t ?source" using late early s(2) times(2) by (simp add: fresh_def MAX_EVENT_AGE_MS_def)
  moreover have "fresh t ?observed" if "?source \<le> ?observed" "of_int ?observed \<le> now * 1000"
  proof -
    from that(2) arrival(1) have "(of_int ?observed :: rat) \<le> of_int t" by linarith
    then have "?observed \<le> t" by linarith
    with that(1) late s(2) times(3) show ?thesis by (simp add: fresh_def MAX_EVENT_AGE_MS_def)
  qed
  ultimately show ?thesis using q by (simp add: MAX_PAYLOAD_def ttl_def)
qed

section \<open>Witnesses\<close>

definition demo_endpoint :: pystring where
  "demo_endpoint = py ''https://updates.push.services.mozilla.com/x''"

definition demo_value :: pyval where
  "demo_value = PyDict [(py ''endpoint'', PyStr demo_endpoint),
     (py ''keys'', PyDict [(py ''p256dh'', PyStr (replicate 87 0x41 @ py ''='')),
        (py ''auth'', PyStr (replicate 22 0x41))])]"

definition demo_validated :: subscription where
  "demo_validated = \<lparr>endpoint = demo_endpoint, p256dh = replicate 87 0x41, auth = replicate 22 0x41\<rparr>"

definition demo_provider :: provider where
  "demo_provider = \<lparr>seal = (\<lambda>_ data. Inr data), sign = (\<lambda>_ _. Inr []), post = (\<lambda>_. Status 201)\<rparr>"

lemma demo_host: "endpoint_host (\<lambda>_. False) (PyStr demo_endpoint) = Inr (py ''updates.push.services.mozilla.com'')"
  unfolding demo_endpoint_def by code_simp

lemma demo_keys:
  "decode_key (PyStr (replicate 87 0x41 @ py ''='')) 65 = Inr (replicate 65 0)"
  "decode_key (PyStr (replicate 22 0x41)) 16 = Inr (replicate 16 0)"
  "rstrip_pad (replicate 87 0x41 @ py ''='') = replicate 87 0x41" "rstrip_pad (replicate 22 0x41) = replicate 22 0x41"
  by code_simp+

lemma demo_validates: "validate_subscription (\<lambda>_. False) (\<lambda>_. True) demo_value = Inr demo_validated"
  using demo_host demo_keys
  by (auto simp: validate_subscription_iff demo_value_def demo_validated_def py_get_def)

lemma stored_subscription_validates_witness:
  "stored_check (\<lambda>_. False) (\<lambda>_. True) demo_validated = Inr demo_validated"
  using stored_subscription_validates [OF demo_validates] by simp

definition demo_request :: push_request where
  "demo_request = \<lparr>q_url = demo_endpoint, q_body = concat (map utf8_char (json demo_runtime test_event)),
     q_token = [], q_ttl = 299\<rparr>"

lemma demo_send: "send demo_runtime (\<lambda>_. False) (\<lambda>_. True) demo_provider demo_value test_event 1700000001
  = (Status 201, Some demo_request)"
proof -
  from test_event_valid have "encode (json demo_runtime test_event) = Inr (concat (map utf8_char (json demo_runtime test_event)))"
    "length (concat (map utf8_char (json demo_runtime test_event))) \<le> MAX_PAYLOAD"
    by (auto simp: validate_Inr_iff valid_payload_def encode_payload json_bytes_def utf8_length_def)
  moreover have "py_get test_event ''sourceTimestampMs'' PyNone = PyInt 1700000000000"
    by (simp add: py_get_def test_event_def payload_fields_def)
  ultimately show ?thesis
    using demo_host
    by (simp add: send_def demo_validates source_time_ok_def ttl_def demo_provider_def demo_request_def demo_validated_def)
qed

lemma send_reaches_only_push_providers_witness:
  "\<exists>h. push_host h \<and> names_host (q_url demo_request) h"
  using send_reaches_only_push_providers [OF demo_send] by blast

lemma posted_push_stays_fresh_witness:
  "q_ttl demo_request \<le> 300 \<and> fresh 1700000300000 1700000000000"
proof -
  have times: "payload_time test_event ''sourceTimestampMs'' = 1700000000000" "payload_time test_event ''observedAtMs'' = 1700000000000"
    by (simp_all add: test_event_def payload_fields_def payload_time_def py_item_def)
  show ?thesis
    using posted_push_stays_fresh [OF demo_send _ _ _, of 1700000300000] test_event_valid times
    by (simp add: demo_request_def)
qed

end
