(* ===== verification/PushApi.thy ===== *)
theory PushApi
  imports PushTransport
begin

text \<open>
  The HTTP interface of the push service (\<open>push_api.py\<close>). A mutating request runs in two stretches:
  \<open>mutation_start\<close> up to the await of its body, and \<open>api_finish\<close>, the operation on the service,
  once \<open>request_body\<close> has answered. An error is the status code of the \<open>HTTPException\<close>. The
  dashboard's own authorisation is the argument \<open>authorize\<close> (the status it refuses with), and
  \<open>loads\<close> is \<open>json.loads\<close> on bytes.
\<close>

record http_request =
  r_origin :: "pystring option"
  r_host :: "pystring option"
  r_site :: "pystring option"
  r_type :: "pystring option"
  r_length :: "pystring option"
  r_chunks :: "8 word list list"
  r_complete :: bool

type_synonym status = nat

section \<open>Origin\<close>

definition origin_authority :: "(pystring \<Rightarrow> bool) \<Rightarrow> pystring \<Rightarrow> status + pystring \<times> nat" where
  "origin_authority ip6 v =
     (if \<not> list_all visible v \<or> 0x5C \<in> set v then Inl 403
      else case urlsplit ip6 v of
          Inl _ \<Rightarrow> Inl 403
        | Inr u \<Rightarrow>
            (case hostname u of
               None \<Rightarrow> Inl 403
             | Some h \<Rightarrow>
                 if u_scheme u \<noteq> py ''https'' \<or> has_userinfo u \<or> u_path u \<noteq> [] \<or> u_query u \<noteq> []
                    \<or> u_fragment u \<noteq> [] then Inl 403
                 else case port_of u of
                     Inl _ \<Rightarrow> Inl 403
                   | Inr port \<Rightarrow> Inr (h, if port \<in> {None, Some 0} then 443 else the port)))"

definition header :: "pystring option \<Rightarrow> pystring" where
  "header h = (case h of None \<Rightarrow> [] | Some s \<Rightarrow> s)"

definition same_site :: "pystring option \<Rightarrow> bool" where
  "same_site site \<longleftrightarrow> site \<in> {None, Some (py ''same-origin''), Some (py ''none'')}"

definition verify_origin :: "(pystring \<Rightarrow> bool) \<Rightarrow> http_request \<Rightarrow> status option" where
  "verify_origin ip6 rq =
     (case origin_authority ip6 (header (r_origin rq)) of
        Inl e \<Rightarrow> Some e
      | Inr origin \<Rightarrow>
          (case origin_authority ip6 (py ''https://'' @ header (r_host rq)) of
             Inl e \<Rightarrow> Some e
           | Inr host \<Rightarrow>
               if origin \<noteq> host \<or> \<not> same_site (r_site rq) then Some 403
               else if lower (strip (fst (cut 0x3B (header (r_type rq))))) \<noteq> py ''application/json'' then Some 415
               else None))"

section \<open>Body\<close>

text \<open>\<open>int(s)\<close>: white space around, a sign, digits with single underscores between them, and at most
  4300 of them.\<close>

fun digits_value :: "pystring \<Rightarrow> bool \<Rightarrow> nat \<Rightarrow> nat option" where
  "digits_value [] after_digit n = (if after_digit then Some n else None)"
| "digits_value (c # s) after_digit n =
     (if is_num c then digits_value s True (10 * n + (c - 0x30))
      else if c = 0x5F \<and> after_digit then digits_value s False n
      else None)"

definition int_of_text :: "pystring \<Rightarrow> int option" where
  "int_of_text s =
     (let t = strip s; negative = take 1 t = py ''-'';
          digits = (if take 1 t \<in> {py ''-'', py ''+''} then drop 1 t else t)
      in if length (filter is_num digits) > 4300 then None
         else map_option (\<lambda>n. if negative then - int n else int n) (digits_value digits False 0))"

definition MAX_BODY :: nat where
  "MAX_BODY = 8192"

fun read_chunks :: "8 word list list \<Rightarrow> 8 word list \<Rightarrow> status + 8 word list" where
  "read_chunks [] data = Inr data"
| "read_chunks (c # cs) data = (if length (data @ c) > MAX_BODY then Inl 413 else read_chunks cs (data @ c))"

text \<open>Only a \<open>ValueError\<close> of the parser is caught: a \<open>RecursionError\<close> gives status 500.\<close>

definition request_body :: "(8 word list \<Rightarrow> pyval outcome) \<Rightarrow> http_request \<Rightarrow> status + pyval" where
  "request_body loads rq =
     (case (case r_length rq of
              None \<Rightarrow> None
            | Some s \<Rightarrow> (case int_of_text s of
                           None \<Rightarrow> Some 400
                         | Some n \<Rightarrow> if n < 0 \<or> n > int MAX_BODY then Some 413 else None)) of
        Some e \<Rightarrow> Inl e
      | None \<Rightarrow>
          (case read_chunks (r_chunks rq) [] of
             Inl e \<Rightarrow> Inl e
           | Inr data \<Rightarrow>
               if \<not> r_complete rq then Inl 400
               else case loads data of
                   Inl ValueError \<Rightarrow> Inl 400
                 | Inl _ \<Rightarrow> Inl 500
                 | Inr body \<Rightarrow> if is_dict body then Inr body else Inl 400))"

section \<open>The start of a mutation\<close>

text \<open>The times of the mutations let through; the service is \<open>None\<close> when push is not enabled.\<close>

definition mutation_start ::
  "(pystring \<Rightarrow> bool) \<Rightarrow> (http_request \<Rightarrow> status option) \<Rightarrow> http_request \<Rightarrow> rat \<Rightarrow> service option \<Rightarrow> rat list
    \<Rightarrow> rat list \<times> status option" where
  "mutation_start ip6 authorize rq now s stamps =
     (case authorize rq of
        Some e \<Rightarrow> (stamps, Some e)
      | None \<Rightarrow>
          (case verify_origin ip6 rq of
             Some e \<Rightarrow> (stamps, Some e)
           | None \<Rightarrow>
               let recent = dropWhile (\<lambda>t. 60 \<le> now - t) stamps in
               if length recent \<ge> 60 then (recent, Some 429)
               else (recent @ [now], if (case s of None \<Rightarrow> True | Some s \<Rightarrow> \<not> available s) then Some 503 else None)))"

section \<open>The operations\<close>

datatype api_call =
    SubscriptionStatus
  | Subscribe bool
  | Unsubscribe bool
  | TestPush "nat \<Rightarrow> bool" pystring

definition endpoint_of :: "pyval \<Rightarrow> status + pystring" where
  "endpoint_of body =
     (if set (map fst (py_items body)) \<noteq> {py ''endpoint''} then Inl 400
      else case as_str (py_item body ''endpoint'') of None \<Rightarrow> Inl 400 | Some e \<Rightarrow> Inr e)"

text \<open>\<open>guarded\<close>: the status of an exception; a database error takes the service down.\<close>

fun status_of :: "py_error \<Rightarrow> status" where
  "status_of SubscriptionConflict = 409"
| "status_of PushRateLimit = 429"
| "status_of ValueError = 400"
| "status_of PyTypeError = 400"
| "status_of SubscriptionLimit = 400"
| "status_of KeyError = 404"
| "status_of IntegrityError = 503"
| "status_of OperationalError = 503"

definition guarded :: "service \<times> 'a outcome \<Rightarrow> service \<times> (status + 'a)" where
  "guarded r =
     (case r of
        (s, Inr a) \<Rightarrow> (s, Inr a)
      | (s, Inl e) \<Rightarrow> (if status_of e = 503 then fail s else s, Inl (status_of e)))"

definition default_document :: pyval where
  "default_document = PyDict [(py ''native'', PyBool True), (py ''ev'', PyBool True),
     (py ''water'', PyBool True), (py ''lowBattery'', PyBool True)]"

text \<open>\<open>PushService.registered\<close> and the service operations with their checks of the endpoint.\<close>

definition registered :: "runtime \<Rightarrow> (pystring \<Rightarrow> bool) \<Rightarrow> pystring \<Rightarrow> service \<Rightarrow> subscriber option outcome" where
  "registered rt ip6 url s =
     (case endpoint_host ip6 (PyStr url) of
        Inl e \<Rightarrow> Inl e
      | Inr _ \<Rightarrow> (case endpoint_id rt url of Inl e \<Rightarrow> Inl e | Inr i \<Rightarrow> Inr (get (db s) i)))"

definition register_value ::
  "runtime \<Rightarrow> (pystring \<Rightarrow> bool) \<Rightarrow> (8 word list \<Rightarrow> bool) \<Rightarrow> bool \<Rightarrow> pyval \<Rightarrow> pyval \<Rightarrow> rat \<Rightarrow> service
    \<Rightarrow> service \<times> pyval outcome" where
  "register_value rt ip6 on_curve disk v selected now s =
     (case validate_subscription ip6 on_curve v of
        Inl e \<Rightarrow> (s, Inl e)
      | Inr sub \<Rightarrow> register_request rt disk sub selected now s)"

definition delete_endpoint ::
  "runtime \<Rightarrow> (pystring \<Rightarrow> bool) \<Rightarrow> bool \<Rightarrow> pystring \<Rightarrow> service \<Rightarrow> service \<times> unit outcome" where
  "delete_endpoint rt ip6 disk url s =
     (case endpoint_host ip6 (PyStr url) of Inl e \<Rightarrow> (s, Inl e) | Inr _ \<Rightarrow> delete_request rt disk url s)"

definition test_endpoint ::
  "runtime \<Rightarrow> (pystring \<Rightarrow> bool) \<Rightarrow> (nat \<Rightarrow> bool) \<Rightarrow> pystring \<Rightarrow> pystring \<Rightarrow> rat \<Rightarrow> service
    \<Rightarrow> (service \<times> unit outcome) option" where
  "test_endpoint rt ip6 disks url uuid now s =
     (case endpoint_host ip6 (PyStr url) of
        Inl e \<Rightarrow> Some (s, Inl e)
      | Inr _ \<Rightarrow> map_option (\<lambda>(s1, _, r). (s1, r)) (test rt disks url uuid now s))"

definition on_endpoint :: "pyval \<Rightarrow> (pystring \<Rightarrow> service \<times> (status + 'a)) \<Rightarrow> service \<Rightarrow> service \<times> (status + 'a)" where
  "on_endpoint body operation s = (case endpoint_of body of Inl e \<Rightarrow> (s, Inl e) | Inr url \<Rightarrow> operation url)"

text \<open>The answer is the JSON document with its status; \<open>None\<close> is a call that does not return.\<close>

definition api_finish ::
  "runtime \<Rightarrow> (pystring \<Rightarrow> bool) \<Rightarrow> (8 word list \<Rightarrow> bool) \<Rightarrow> api_call \<Rightarrow> pyval \<Rightarrow> rat \<Rightarrow> service
    \<Rightarrow> (service \<times> (status + status \<times> pyval)) option" where
  "api_finish rt ip6 on_curve call body now s =
     (case call of
        SubscriptionStatus \<Rightarrow>
          Some (on_endpoint body (\<lambda>url.
            case guarded (s, registered rt ip6 url s) of
              (s1, Inl e) \<Rightarrow> (s1, Inl e)
            | (s1, Inr row) \<Rightarrow>
                (s1, Inr (200, PyDict [(py ''registered'', PyBool (row \<noteq> None)),
                   (py ''preferences'', case row of None \<Rightarrow> default_document | Some r \<Rightarrow> s_preferences r)]))) s)
      | Subscribe disk \<Rightarrow>
          Some (if set (map fst (py_items body)) \<noteq> {py ''subscription'', py ''preferences''} then (s, Inl 400)
                else case guarded (register_value rt ip6 on_curve disk (py_item body ''subscription'')
                            (py_item body ''preferences'') now s) of
                    (s1, Inl e) \<Rightarrow> (s1, Inl e)
                  | (s1, Inr selected) \<Rightarrow>
                      (s1, Inr (200, PyDict [(py ''registered'', PyBool True), (py ''preferences'', selected)])))
      | Unsubscribe disk \<Rightarrow>
          Some (on_endpoint body (\<lambda>url.
            case guarded (delete_endpoint rt ip6 disk url s) of
              (s1, Inl e) \<Rightarrow> (s1, Inl e)
            | (s1, Inr _) \<Rightarrow> (s1, Inr (200, PyDict [(py ''registered'', PyBool False)]))) s)
      | TestPush disks uuid \<Rightarrow>
          (case endpoint_of body of
             Inl e \<Rightarrow> Some (s, Inl e)
           | Inr url \<Rightarrow>
               map_option (\<lambda>r. case guarded r of
                   (s1, Inl e) \<Rightarrow> (s1, Inl e)
                 | (s1, Inr _) \<Rightarrow> (s1, Inr (202, PyDict [(py ''queued'', PyBool True)])))
                 (test_endpoint rt ip6 disks url uuid now s)))"

section \<open>The rate limit\<close>

text \<open>A run of attempts: the stamps kept, the times of the requests let through to the service, and the
  monotonic clock.\<close>

inductive api_run ::
  "(pystring \<Rightarrow> bool) \<Rightarrow> (http_request \<Rightarrow> status option) \<Rightarrow> rat list \<Rightarrow> rat list \<Rightarrow> rat \<Rightarrow> bool"
  for ip6 authorize where
  started: "api_run ip6 authorize [] [] t"
| attempted: "api_run ip6 authorize stamps passed t \<Longrightarrow> t \<le> now \<Longrightarrow>
    mutation_start ip6 authorize rq now s stamps = (stamps1, r) \<Longrightarrow>
    api_run ip6 authorize stamps1 (if r = None then passed @ [now] else passed) now"

definition in_window :: "rat \<Rightarrow> rat list \<Rightarrow> nat" where
  "in_window t xs = length (filter (\<lambda>x. t \<le> x \<and> x < t + 60) xs)"

lemma in_window_simps [simp]:
  "in_window t [] = 0" "in_window t (xs @ ys) = in_window t xs + in_window t ys"
  "in_window t [x] = of_bool (t \<le> x \<and> x < t + 60)"
  by (simp_all add: in_window_def)

lemma in_window_le: "in_window t xs \<le> length xs"
  by (simp add: in_window_def)

lemma in_window_0: "(\<And>x. x \<in> set xs \<Longrightarrow> x < t) \<Longrightarrow> in_window t xs = 0"
  by (fastforce simp: in_window_def filter_empty_conv)

text \<open>\<open>admitted\<close>: all that passed the limiter, the requests that then found push unavailable too.\<close>

definition limited :: "rat list \<Rightarrow> rat list \<Rightarrow> rat \<Rightarrow> bool" where
  "limited stamps passed t \<longleftrightarrow> (\<exists>old. (\<forall>x \<in> set old. x + 60 \<le> t)
     \<and> (\<forall>u. in_window u (old @ stamps) \<le> 60) \<and> (\<forall>u. in_window u passed \<le> in_window u (old @ stamps)))"

lemma dropWhile_old: "\<exists>old. stamps = old @ dropWhile (\<lambda>x. 60 \<le> now - x) stamps \<and> (\<forall>x \<in> set old. x + 60 \<le> (now :: rat))"
proof (intro exI conjI)
  show "stamps = takeWhile (\<lambda>x. 60 \<le> now - x) stamps @ dropWhile (\<lambda>x. 60 \<le> now - x) stamps" by simp
  show "\<forall>x \<in> set (takeWhile (\<lambda>x. 60 \<le> now - x) stamps). x + 60 \<le> now"
    by (auto dest!: set_takeWhileD)
qed

lemma limited_pruned:
  assumes "limited stamps passed t" and "t \<le> now"
  shows "limited (dropWhile (\<lambda>x. 60 \<le> now - x) stamps) passed now"
proof -
  let ?recent = "dropWhile (\<lambda>x. 60 \<le> now - x) stamps"
  from assms(1) obtain old where old: "\<forall>x \<in> set old. x + 60 \<le> t" "\<forall>u. in_window u (old @ stamps) \<le> 60"
    "\<forall>u. in_window u passed \<le> in_window u (old @ stamps)" unfolding limited_def by blast
  obtain gone where gone: "stamps = gone @ ?recent" "\<forall>x \<in> set gone. x + 60 \<le> now"
    using dropWhile_old [of stamps now] by blast
  have "in_window u (old @ stamps) = in_window u ((old @ gone) @ ?recent)" for u
    by (subst gone(1)) simp
  with old assms(2) gone(2) show ?thesis
    unfolding limited_def by (intro exI [of _ "old @ gone"]) (fastforce simp del: in_window_simps)
qed

lemma limited_admitted:
  assumes "limited recent passed now" and "length recent < 60"
  shows "limited (recent @ [now]) (passed @ [now]) now" and "limited (recent @ [now]) passed now"
proof -
  from assms(1) obtain old where old: "\<forall>x \<in> set old. x + 60 \<le> now" "\<forall>u. in_window u (old @ recent) \<le> 60"
    "\<forall>u. in_window u passed \<le> in_window u (old @ recent)" unfolding limited_def by blast
  have bound: "in_window u (old @ recent @ [now]) \<le> 60" for u
  proof (cases "u \<le> now \<and> now < u + 60")
    case True
    with old(1) have "in_window u old = 0" by (intro in_window_0) force
    with assms(2) in_window_le [of u recent] show ?thesis by simp
  next
    case False
    with old(2) [rule_format, of u] show ?thesis by auto
  qed
  have "in_window u passed \<le> in_window u (old @ recent @ [now])"
    "in_window u (passed @ [now]) \<le> in_window u (old @ recent @ [now])" for u
    using old(3) [rule_format, of u] by simp_all
  with old(1) bound show "limited (recent @ [now]) (passed @ [now]) now" "limited (recent @ [now]) passed now"
    unfolding limited_def by blast+
qed

lemma api_run_limited: "api_run ip6 authorize stamps passed t \<Longrightarrow> limited stamps passed t"
proof (induction rule: api_run.induct)
  case (started t)
  show ?case by (auto simp: limited_def intro: exI [of _ "[]"])
next
  case (attempted stamps passed t now rq s stamps1 r)
  note pruned = limited_pruned [OF attempted.IH attempted.hyps(2)]
  have same: "limited stamps passed now"
    using attempted.IH attempted.hyps(2) unfolding limited_def by (meson order_trans)
  from attempted.hyps(3) show ?case
    using same pruned limited_admitted [OF pruned]
    by (auto simp: mutation_start_def Let_def split: option.splits if_splits)
qed

section \<open>Properties\<close>

text \<open>However requests arrive, within any 60 seconds at most 60 of them are let through to the
  push service.\<close>

theorem api_rate_is_bounded:
  assumes "api_run ip6 authorize stamps passed t"
  shows "length (filter (\<lambda>x. u \<le> x \<and> x < u + 60) passed) \<le> 60"
  using api_run_limited [OF assms] unfolding limited_def in_window_def by (meson order_trans)

text \<open>Two requests in the same second, both let through.\<close>

definition api_demo_request :: http_request where
  "api_demo_request = \<lparr>r_origin = Some (py ''https://d''), r_host = Some (py ''D:443''), r_site = None,
     r_type = Some (py ''application/json;x''), r_length = None, r_chunks = [], r_complete = True\<rparr>"

definition api_demo_service :: service where
  "api_demo_service = \<lparr>available = True, db = empty_store, proc = demo_processor, connection = None, test_times = []\<rparr>"

lemma api_demo_origin: "verify_origin (\<lambda>_. False) api_demo_request = None"
  by (simp add: api_demo_request_def verify_origin_def origin_authority_def urlsplit_def split_scheme_def
      split_netloc_def cut_def rcut_def hostname_def hostinfo_def port_of_def has_userinfo_def header_def same_site_def
      lower_def lower_char_def strip_def is_space_def is_alpha_def is_num_def scheme_char_def visible_def decimal_def py_def)

lemma api_demo_start: "mutation_start (\<lambda>_. False) (\<lambda>_. None) api_demo_request now (Some api_demo_service) stamps =
   (let recent = dropWhile (\<lambda>t. 60 \<le> now - t) stamps in
    if length recent \<ge> 60 then (recent, Some 429) else (recent @ [now], None))"
  by (simp add: mutation_start_def api_demo_origin api_demo_service_def)

lemma api_rate_is_bounded_witness:
  "api_run (\<lambda>_. False) (\<lambda>_. None) [1, 1] [1, 1] 1 \<and> length (filter (\<lambda>x. 1 \<le> x \<and> x < 1 + 60) [1, 1 :: rat]) \<le> 60"
proof -
  let ?run = "api_run (\<lambda>_. False) (\<lambda>_. None)"
  have "?run [] [] 0" by (rule api_run.started)
  from api_run.attempted [OF this, of 1 api_demo_request "Some api_demo_service" "[1]" None]
  have "?run [1] [1] 1" by (simp add: api_demo_start)
  from api_run.attempted [OF this, of 1 api_demo_request "Some api_demo_service" "[1, 1]" None]
  have "?run [1, 1] [1, 1] 1" by (simp add: api_demo_start)
  with api_rate_is_bounded [OF this, of 1] show ?thesis by blast
qed

section \<open>What requests leave behind\<close>

lemma same_db [simp]: "s\<lparr>db := db s\<rparr> = s"
  by simp































section \<open>Reading a registration back\<close>

lemma get_upsert:
  fixes st :: push_store
  shows "get (st\<lparr>subscribers := upsert i sub prefs now ss, deliveries := ds\<rparr>) i \<noteq> None
    \<and> s_preferences (the (get (st\<lparr>subscribers := upsert i sub prefs now ss, deliveries := ds\<rparr>) i)) = prefs"
proof -
  have new: "find (\<lambda>s. s_id s = i) (ss @ [s']) = Some s'" if "i \<notin> s_id ` set ss" "s_id s' = i" for s'
    using that by (induction ss) auto
  have old: "\<exists>s'. find (\<lambda>s. s_id s = i) (map (\<lambda>s. if s_id s = i
        then s\<lparr>s_subscription := sub, s_preferences := prefs, s_updated_at := now\<rparr> else s) ss) = Some s'
      \<and> s_preferences s' = prefs" if "i \<in> s_id ` set ss"
    using that by (induction ss) auto
  show ?thesis
    using new old by (auto simp: get_def upsert_def)
qed

lemma register_get:
  assumes "register rt disk sub prefs now st = (st1, Inr i)"
  obtains b row where "encode (endpoint sub) = Inr b" "i = sha256_hex rt b" "get st1 i = Some row" "s_preferences row = prefs"
proof (cases "encode (endpoint sub)")
  case (Inr b)
  let ?i = "sha256_hex rt b"
  from assms Inr have "i = ?i" "st1 = st\<lparr>subscribers := upsert ?i sub prefs now (subscribers st),
      deliveries := filter (\<lambda>d. d_subscription d \<noteq> ?i) (deliveries st)\<rparr>"
    by (auto simp: register_def Let_def with_db_def split: if_splits)
  with get_upsert [where st = st and i = ?i and sub = sub and prefs = prefs and now = now and ss = "subscribers st"
      and ds = "filter (\<lambda>d. d_subscription d \<noteq> ?i) (deliveries st)"] Inr
  show thesis by (intro that) auto
qed (use assms in \<open>simp add: register_def\<close>)

definition endpoint_body :: "pystring \<Rightarrow> pyval" where
  "endpoint_body url = PyDict [(py ''endpoint'', PyStr url)]"

definition registration :: "bool \<Rightarrow> pyval \<Rightarrow> pyval" where
  "registration present prefs = PyDict [(py ''registered'', PyBool present), (py ''preferences'', prefs)]"

lemma endpoint_of_body [simp]: "endpoint_of (endpoint_body url) = Inr url"
  by (simp add: endpoint_of_def endpoint_body_def py_item_def)

text \<open>What a subscribe request registers, a status request reads back with the same preferences, until
  an unsubscribe request for that endpoint, after which it reads as not registered.\<close>

theorem subscribed_reads_back:
  assumes "api_finish rt ip6 on_curve (Subscribe disk) body now s = Some (s1, Inr answer)"
    and "py_get (py_item body ''subscription'') ''endpoint'' PyNone = PyStr url"
  shows "answer = (200, registration True (py_item body ''preferences''))
    \<and> api_finish rt ip6 on_curve SubscriptionStatus (endpoint_body url) later s1 = Some (s1, Inr answer)
    \<and> (\<exists>s2. api_finish rt ip6 on_curve (Unsubscribe True) (endpoint_body url) later s1
          = Some (s2, Inr (200, PyDict [(py ''registered'', PyBool False)]))
        \<and> api_finish rt ip6 on_curve SubscriptionStatus (endpoint_body url) later s2
          = Some (s2, Inr (200, registration False default_document)))"
proof -
  let ?v = "py_item body ''subscription''" and ?p = "py_item body ''preferences''"
  from assms(1) obtain selected where reg: "register_value rt ip6 on_curve disk ?v ?p now s = (s1, Inr selected)"
    and answer: "answer = (200, registration True selected)"
    by (auto simp: api_finish_def registration_def guarded_def split: if_splits prod.splits sum.splits)
  then obtain sub st1 i where sub: "validate_subscription ip6 on_curve ?v = Inr sub" "preferences ?p = Inr selected"
    and st: "register rt disk sub selected now (db s) = (st1, Inr i)" "s1 = s\<lparr>db := st1\<rparr>"
    by (auto simp: register_value_def register_request_def split: sum.splits prod.splits py_error.splits)
  from sub(1) assms(2) have url: "endpoint sub = url" "\<exists>h. endpoint_host ip6 (PyStr url) = Inr h"
    by (auto simp: validate_subscription_iff)
  from sub(2) have sel: "selected = ?p" by (auto simp: preferences_def split: pyval.splits if_splits)
  obtain b row where b: "encode url = Inr b" "i = sha256_hex rt b" "get st1 i = Some row" "s_preferences row = selected"
    by (rule register_get [OF st(1)]) (use url(1) in simp)
  have "get (st1\<lparr>subscribers := filter (\<lambda>s. s_id s \<noteq> i) (subscribers st1), deliveries := ds\<rparr>) i = None" for ds
    by (auto simp: get_def find_None_iff)
  with b st(2) url(2) sel answer show ?thesis
    by (auto simp: api_finish_def on_endpoint_def registered_def endpoint_id_def guarded_def registration_def
        delete_endpoint_def delete_request_def delete_def with_db_def)
qed

definition demo_body :: pyval where
  "demo_body = PyDict [(py ''subscription'', demo_value), (py ''preferences'', demo_preferences)]"

lemma demo_subscribe:
  "\<exists>s1 answer. api_finish demo_runtime (\<lambda>_. False) (\<lambda>_. True) (Subscribe True) demo_body 1700000000 api_demo_service
     = Some (s1, Inr answer)"
proof -
  have items: "py_item demo_body ''subscription'' = demo_value" "py_item demo_body ''preferences'' = demo_preferences"
    "fst ` set (py_items demo_body) = {py ''subscription'', py ''preferences''}"
    by (simp_all add: demo_body_def py_item_def)
  have "preferences demo_preferences = Inr demo_preferences"
    by (simp add: preferences_def demo_preferences_def default_preferences_def)
  moreover have "encode demo_endpoint \<noteq> Inl e" for e
    by (simp add: encode_def demo_endpoint_def)
  then obtain b where "encode (endpoint demo_validated) = Inr b"
    by (cases "encode demo_endpoint") (auto simp: demo_validated_def)
  ultimately show ?thesis
    by (simp add: api_finish_def items register_value_def demo_validates register_request_def register_def with_db_def
        get_def api_demo_service_def empty_store_def MAX_SUBSCRIPTIONS_def guarded_def Let_def)
qed

lemma subscribed_reads_back_witness:
  "\<exists>s1. api_finish demo_runtime (\<lambda>_. False) (\<lambda>_. True) SubscriptionStatus (endpoint_body demo_endpoint) 1700000001 s1
     = Some (s1, Inr (200, registration True demo_preferences))"
proof -
  obtain s1 answer where ok: "api_finish demo_runtime (\<lambda>_. False) (\<lambda>_. True) (Subscribe True) demo_body 1700000000
      api_demo_service = Some (s1, Inr answer)"
    using demo_subscribe by blast
  have "py_get (py_item demo_body ''subscription'') ''endpoint'' PyNone = PyStr demo_endpoint"
    "py_item demo_body ''preferences'' = demo_preferences"
    by (simp_all add: demo_body_def demo_value_def py_item_def py_get_def)
  with subscribed_reads_back [OF ok, of demo_endpoint 1700000001] show ?thesis by auto
qed


end
