(* ===== verification/DeviceState.thy ===== *)
theory DeviceState
  imports PushEvents PythonUrl
begin

text \<open>
  The cache of native device values (\<open>CerboOverlayMixin\<close> of \<open>cerbo.py\<close>, lines 410-660): what an MQTT
  packet or a gateway snapshot stores, when a device disappears, which devices count as connected,
  and when a water mode report permits a command. The dashboard tiles derived from the cache and
  the receipt times of the footer are left out. \<open>mtime\<close> is \<open>time.monotonic()\<close>. The names of the
  instances sort by their ASCII digits, digits of other scripts count as text.
\<close>

type_synonym leaves = "(pystring \<times> pyval) list"
type_synonym devices = "(pystring \<times> leaves) list"

record cache =
  nodes :: "(pystring \<times> devices) list"
  mode_at :: "(pystring \<times> rat) list"

definition cache_init :: cache where
  "cache_init = \<lparr>nodes = [], mode_at = []\<rparr>"

section \<open>Values and paths\<close>

text \<open>\<open>cerbo.number\<close>: \<open>float\<close> overflows for the integers beyond the largest double.\<close>

fun number :: "pyval \<Rightarrow> rat option" where
  "number (PyInt i) = (if \<bar>i\<bar> < 2 ^ 1024 - 2 ^ 970 then Some (of_int i) else None)"
| "number (PyFloat (Num q)) = Some q"
| "number _ = None"

definition leaf_value :: "leaves \<Rightarrow> string \<Rightarrow> pyval" where
  "leaf_value ls f = (case map_of ls (py f) of None \<Rightarrow> PyNone | Some v \<Rightarrow> v)"

definition find_devices :: "(pystring \<times> devices) list \<Rightarrow> pystring \<Rightarrow> devices" where
  "find_devices ns kind = (case map_of ns kind of None \<Rightarrow> [] | Some ds \<Rightarrow> ds)"

definition find_leaves :: "devices \<Rightarrow> pystring \<Rightarrow> leaves" where
  "find_leaves ds ident = (case map_of ds ident of None \<Rightarrow> [] | Some ls \<Rightarrow> ls)"

definition cerbo_kinds :: "pystring list" where
  "cerbo_kinds = map py [''system'', ''grid'', ''battery'', ''solarcharger'', ''pvinverter'', ''vebus'', ''acload'',
     ''tank'', ''pump'', ''ev'', ''evcharger'', ''settings'']"

definition battery_paths :: "pystring set" where
  "battery_paths = py ` {''Soc'', ''Dc/0/Voltage'', ''Dc/0/Current'', ''Dc/0/Power'', ''Dc/0/Temperature'',
     ''System/MinCellVoltage'', ''System/MaxCellVoltage'', ''TimeToGo'', ''ConsumedAmphours'', ''InstalledCapacity''}"

definition ess_paths :: "pystring set" where
  "ess_paths = py ` {''Settings/CGwacs/Hub4Mode'', ''Settings/CGwacs/BatteryLife/State''}"

definition text_paths :: "pystring set" where
  "text_paths = py ` {''CustomName'', ''ProductName'', ''Serial'', ''System/MinVoltageCellId'', ''System/MaxVoltageCellId'',
     ''BatteryService'', ''ActiveBatteryService'', ''AutoSelectedBatteryService''}"

definition below :: "pystring \<Rightarrow> string \<Rightarrow> bool" where
  "below path prefix \<longleftrightarrow> take (length prefix) path = py prefix"

definition valid_path_value :: "pystring \<Rightarrow> pyval \<Rightarrow> bool" where
  "valid_path_value path v \<longleftrightarrow>
     path = py ''Connected'' \<or> v = PyNone \<or> number v \<noteq> None \<or> as_str v \<noteq> None \<and> path \<in> text_paths"

definition known_path :: "pystring \<Rightarrow> pystring \<Rightarrow> bool" where
  "known_path kind path \<longleftrightarrow>
     (if path \<in> py ` {''ProductName'', ''CustomName'', ''Serial'', ''Connected''} then True
      else if kind = py ''battery'' then
        path \<in> battery_paths \<or> path \<in> py ` {''System/MinVoltageCellId'', ''System/MaxVoltageCellId'', ''State''}
      else if kind = py ''system'' then
        below path ''Ac/'' \<or> below path ''Dc/Battery/'' \<or> below path ''Dc/Pv/''
          \<or> path \<in> py ` {''BatteryService'', ''ActiveBatteryService'', ''AutoSelectedBatteryService''}
      else if kind = py ''solarcharger'' then
        path \<in> py ` {''Yield/Power'', ''Dc/0/Power'', ''Dc/0/Voltage'', ''Dc/0/Current'', ''Pv/V''}
      else if kind \<in> py ` {''acload'', ''pvinverter'', ''grid''} then below path ''Ac/''
      else if kind = py ''vebus'' then
        below path ''Ac/'' \<or> below path ''Hub4/'' \<or> below path ''Dc/'' \<or> path \<in> py ` {''State'', ''Mode''}
      else if kind = py ''tank'' then path = py ''Level''
      else if kind = py ''pump'' then path \<in> py ` {''State'', ''Status'', ''Mode''}
      else if kind = py ''settings'' then path \<in> ess_paths
      else path \<in> py ` {''Soc'', ''Ac/Power''})"

section \<open>Connected devices\<close>

text \<open>\<open>_sort_key\<close>: numbers by value before the other names; equal keys keep their order.\<close>

definition all_digits :: "pystring \<Rightarrow> bool" where
  "all_digits s \<longleftrightarrow> s \<noteq> [] \<and> list_all is_num s"

definition sorts_before :: "pystring \<Rightarrow> pystring \<Rightarrow> bool" where
  "sorts_before s t \<longleftrightarrow>
     (if all_digits s then (if all_digits t then decimal s < decimal t else True)
      else \<not> all_digits t \<and> s < t)"

fun place :: "pystring \<times> 'a \<Rightarrow> (pystring \<times> 'a) list \<Rightarrow> (pystring \<times> 'a) list" where
  "place d [] = [d]"
| "place d (e # es) = (if sorts_before (fst e) (fst d) then e # place d es else d # e # es)"

definition connected :: "leaves \<Rightarrow> bool" where
  "connected ls \<longleftrightarrow> py ''Connected'' \<notin> set (map fst ls) \<or> number (leaf_value ls ''Connected'') = Some 1"

definition devices_in :: "(pystring \<times> devices) list \<Rightarrow> pystring \<Rightarrow> devices" where
  "devices_in ns kind = filter (\<lambda>d. connected (snd d)) (foldr place (find_devices ns kind) [])"

definition devices_of :: "cache \<Rightarrow> string \<Rightarrow> devices" where
  "devices_of c kind = devices_in (nodes c) (py kind)"

section \<open>Packets and snapshots\<close>

text \<open>The payload of a packet: empty, not JSON, or a JSON value.\<close>

datatype packet = Empty | Malformed | Parsed pyval

definition store_value :: "pystring \<Rightarrow> pystring \<Rightarrow> pystring \<Rightarrow> pyval \<Rightarrow> (pystring \<times> devices) list \<Rightarrow> (pystring \<times> devices) list" where
  "store_value kind ident path v ns =
     (let ds = find_devices ns kind
      in AList.update kind (AList.update ident (AList.update path v (find_leaves ds ident)) ds) ns)"

definition water_modes :: "rat set" where
  "water_modes = {0, 1, 2}"

definition valid_mode :: "pyval \<Rightarrow> bool" where
  "valid_mode v \<longleftrightarrow> (case number v of None \<Rightarrow> False | Some q \<Rightarrow> q \<in> water_modes)"

definition observe_water_mode :: "pystring \<Rightarrow> pystring \<Rightarrow> pystring \<Rightarrow> pyval \<Rightarrow> bool \<Rightarrow> rat \<Rightarrow> cache \<Rightarrow> cache" where
  "observe_water_mode kind ident path v retained mtime c =
     (if kind \<noteq> py ''pump'' then c
      else
        let drop = (\<lambda>c. c\<lparr>mode_at := AList.delete ident (mode_at c)\<rparr>);
            c1 = (if path = py ''Connected'' \<and> number v \<noteq> Some 1 then drop c else c)
        in if path \<noteq> py ''Mode'' then c1
           else if \<not> retained \<and> valid_mode v then c1\<lparr>mode_at := AList.update ident mtime (AList.delete ident (mode_at c1))\<rparr>
           else drop c1)"

definition remove_cerbo_device :: "pystring \<Rightarrow> pystring \<Rightarrow> cache \<Rightarrow> cache \<times> bool" where
  "remove_cerbo_device kind ident c =
     (let ds = find_devices (nodes c) kind in
      if ident \<notin> set (map fst ds) then (c, False)
      else (c\<lparr>nodes := AList.update kind (AList.delete ident ds) (nodes c),
              mode_at := (if kind = py ''pump'' then AList.delete ident (mode_at c) else mode_at c)\<rparr>, True))"

definition store_cerbo_leaf ::
  "pystring \<Rightarrow> pystring \<Rightarrow> pystring \<Rightarrow> packet \<Rightarrow> bool \<Rightarrow> rat \<Rightarrow> cache \<Rightarrow> cache \<times> bool" where
  "store_cerbo_leaf kind ident path payload retained mtime c =
     (if path = [] then (c, False)
      else case payload of
          Parsed (PyDict kvs) \<Rightarrow>
            (case map_of kvs (py ''value'') of
               None \<Rightarrow> (c, False)
             | Some v \<Rightarrow>
                 if \<not> valid_path_value path v \<or> \<not> known_path kind path then (c, False)
                 else (observe_water_mode kind ident path v retained mtime
                         (c\<lparr>nodes := store_value kind ident path v (nodes c)\<rparr>), True))
        | _ \<Rightarrow> (c, False))"

fun join_slash :: "pystring list \<Rightarrow> pystring" where
  "join_slash [] = []"
| "join_slash [s] = s"
| "join_slash (s # t # ss) = s @ 0x2F # join_slash (t # ss)"

text \<open>The kind, the instance and the path of a topic of this site.\<close>

definition device_topic :: "pystring \<Rightarrow> pystring \<Rightarrow> (pystring \<times> pystring \<times> pystring) option" where
  "device_topic portal topic =
     (case split_on 0x2F topic of
        n # p # kind # ident # rest \<Rightarrow>
          if n \<noteq> py ''N'' \<or> p = [] \<or> ident = [] \<or> portal \<noteq> [] \<and> p \<noteq> portal \<or> kind \<notin> set cerbo_kinds then None
          else Some (kind, ident, join_slash rest)
      | _ \<Rightarrow> None)"

text \<open>\<open>_handle_cerbo_device\<close> up to the refresh: whether the packet was accepted.\<close>

definition handle_cerbo_device ::
  "pystring \<Rightarrow> pystring \<Rightarrow> packet \<Rightarrow> bool \<Rightarrow> rat \<Rightarrow> cache \<Rightarrow> cache \<times> bool" where
  "handle_cerbo_device portal topic payload retained mtime c =
     (case device_topic portal topic of
        None \<Rightarrow> (c, False)
      | Some (kind, ident, path) \<Rightarrow>
          let c1 = (if kind = py ''pump'' \<and> path = py ''Mode'' then c\<lparr>mode_at := AList.delete ident (mode_at c)\<rparr> else c)
          in if payload = Empty then remove_cerbo_device kind ident c1
             else store_cerbo_leaf kind ident path payload retained mtime c1)"

definition clear_cerbo_state :: "cache \<Rightarrow> cache" where
  "clear_cerbo_state c = c\<lparr>nodes := [], mode_at := []\<rparr>"

definition snapshot_leaf :: "pystring \<Rightarrow> pystring \<Rightarrow> pyval \<Rightarrow> (pystring \<times> pystring) option" where
  "snapshot_leaf kind key v =
     (case cut 0x2F key of (ident, found, path) \<Rightarrow>
        if \<not> found \<or> ident = [] \<or> path = [] \<or> \<not> valid_path_value path v \<or> \<not> known_path kind path then None
        else Some (ident, path))"

definition snapshot_kind :: "pyval \<Rightarrow> pystring \<Rightarrow> (pystring \<times> devices) list \<Rightarrow> (pystring \<times> devices) list" where
  "snapshot_kind snap kind ns =
     (case map_of (py_items snap) kind of
        Some (PyDict kvs) \<Rightarrow>
          fold (\<lambda>(key, v) ns. case snapshot_leaf kind key v of
              None \<Rightarrow> ns | Some (ident, path) \<Rightarrow> store_value kind ident path v ns) kvs ns
      | _ \<Rightarrow> ns)"

definition snapshot_nodes :: "pyval \<Rightarrow> (pystring \<times> devices) list" where
  "snapshot_nodes snap = fold (snapshot_kind snap) cerbo_kinds []"

definition replace_cerbo_snapshot :: "pyval \<Rightarrow> rat \<Rightarrow> cache \<Rightarrow> cache" where
  "replace_cerbo_snapshot snap mtime c =
     (let ns = snapshot_nodes snap
      in c\<lparr>nodes := ns,
           mode_at := map (\<lambda>d. (fst d, mtime))
             (filter (\<lambda>d. valid_mode (leaf_value (snd d) ''Mode'')) (devices_in ns (py ''pump'')))\<rparr>)"

definition water_mode_fresh :: "pystring \<Rightarrow> rat \<Rightarrow> cache \<Rightarrow> bool" where
  "water_mode_fresh ident mtime c =
     (case map_of (mode_at c) ident of None \<Rightarrow> False | Some t \<Rightarrow> 0 \<le> mtime - t \<and> mtime - t \<le> 30)"

section \<open>Where a water permission comes from\<close>

text \<open>What can happen to the cache; a packet comes with the portal known when it arrives.\<close>

datatype device_event =
    Packet pystring pystring packet bool
  | GatewaySnapshot pyval
  | Disconnected

fun device_step :: "device_event \<Rightarrow> rat \<Rightarrow> cache \<Rightarrow> cache" where
  "device_step (Packet portal topic payload retained) mtime c =
     fst (handle_cerbo_device portal topic payload retained mtime c)"
| "device_step (GatewaySnapshot snap) mtime c = replace_cerbo_snapshot snap mtime c"
| "device_step Disconnected mtime c = clear_cerbo_state c"

inductive device_history :: "cache \<Rightarrow> (device_event \<times> rat) list \<Rightarrow> bool" where
  fresh_cache: "device_history cache_init []"
| observed: "device_history c hist \<Longrightarrow> device_history (device_step ev mtime c) (hist @ [(ev, mtime)])"

text \<open>The value of the \<open>Mode\<close> leaf of a pump device in the cache.\<close>

definition mode_leaf :: "pystring \<Rightarrow> cache \<Rightarrow> pyval" where
  "mode_leaf ident c = leaf_value (find_leaves (find_devices (nodes c) (py ''pump'')) ident) ''Mode''"

text \<open>A packet of the site about the pump device \<open>ident\<close>, with its path.\<close>

definition pump_packet :: "pystring \<Rightarrow> pystring \<Rightarrow> pystring \<Rightarrow> pystring option" where
  "pump_packet ident portal topic =
     (case device_topic portal topic of
        None \<Rightarrow> None
      | Some (kind, i, path) \<Rightarrow> if kind = py ''pump'' \<and> i = ident then Some path else None)"

text \<open>The report of a mode that an event carries, live and not retained.\<close>

fun live_mode :: "pystring \<Rightarrow> device_event \<Rightarrow> pyval option" where
  "live_mode ident (Packet portal topic (Parsed (PyDict kvs)) retained) =
     (if pump_packet ident portal topic = Some (py ''Mode'') \<and> \<not> retained then map_of kvs (py ''value'') else None)"
| "live_mode ident (GatewaySnapshot snap) =
     map_option (\<lambda>ls. leaf_value ls ''Mode'') (map_of (devices_in (snapshot_nodes snap) (py ''pump'')) ident)"
| "live_mode ident _ = None"

text \<open>An event after which an earlier report permits nothing: a new report of the mode whatever it says,
  a removal or loss of the device, a snapshot, or the end of the session.\<close>

fun superseding :: "pystring \<Rightarrow> device_event \<Rightarrow> bool" where
  "superseding ident (Packet portal topic payload retained) \<longleftrightarrow>
     (case pump_packet ident portal topic of
        None \<Rightarrow> False
      | Some path \<Rightarrow> path = py ''Mode'' \<or> payload = Empty
          \<or> path = py ''Connected'' \<and> (case payload of
                Parsed (PyDict kvs) \<Rightarrow> (case map_of kvs (py ''value'') of None \<Rightarrow> False | Some v \<Rightarrow> number v \<noteq> Some 1)
              | _ \<Rightarrow> False))"
| "superseding ident (GatewaySnapshot snap) \<longleftrightarrow> True"
| "superseding ident Disconnected \<longleftrightarrow> True"

lemma find_devices_update [simp]:
  "find_devices (AList.update k ds ns) k1 = (if k1 = k then ds else find_devices ns k1)"
  by (simp add: find_devices_def update_conv')

lemma find_leaves_update [simp]:
  "find_leaves (AList.update i ls ds) i1 = (if i1 = i then ls else find_leaves ds i1)"
  by (simp add: find_leaves_def update_conv')

lemma find_leaves_delete: "i1 \<noteq> i \<Longrightarrow> find_leaves (AList.delete i ds) i1 = find_leaves ds i1"
  by (simp add: find_leaves_def delete_conv')

lemma leaf_value_update [simp]:
  "leaf_value (AList.update path v ls) f = (if py f = path then v else leaf_value ls f)"
  by (simp add: leaf_value_def update_conv')

lemma connected_path [simp]: "valid_path_value (py ''Connected'') v" "known_path kind (py ''Connected'')"
  by (simp_all add: valid_path_value_def known_path_def)

lemma mode_leaf_mode_at [simp]: "mode_leaf ident (c\<lparr>mode_at := m\<rparr>) = mode_leaf ident c"
  by (simp add: mode_leaf_def)

text \<open>Which device holds a permission, and since when.\<close>

abbreviation permitted :: "pystring \<Rightarrow> cache \<Rightarrow> rat option" where
  "permitted ident c \<equiv> map_of (mode_at c) ident"

lemma observe_water_mode_nodes [simp]:
  "nodes (observe_water_mode kind i path v retained mtime c) = nodes c"
  "mode_leaf ident (observe_water_mode kind i path v retained mtime c) = mode_leaf ident c"
  by (simp_all add: observe_water_mode_def mode_leaf_def Let_def)

lemma permitted_observe:
  "permitted ident (observe_water_mode kind i path v retained mtime c) =
     (if kind = py ''pump'' \<and> ident = i \<and> path = py ''Mode'' then (if \<not> retained \<and> valid_mode v then Some mtime else None)
      else if kind = py ''pump'' \<and> ident = i \<and> path = py ''Connected'' \<and> number v \<noteq> Some 1 then None
      else permitted ident c)"
  by (auto simp: observe_water_mode_def Let_def update_conv' delete_conv')

text \<open>One event: it brings the permission, or keeps it and the mode.\<close>

lemma packet_permits:
  assumes "permitted ident (fst (handle_cerbo_device portal topic payload retained mtime c)) = Some t"
    and known: "permitted ident c \<noteq> None \<longrightarrow> valid_mode (mode_leaf ident c)"
  shows "(\<exists>v. live_mode ident (Packet portal topic payload retained) = Some v \<and> valid_mode v \<and> t = mtime
      \<and> mode_leaf ident (fst (handle_cerbo_device portal topic payload retained mtime c)) = v)
    \<or> \<not> superseding ident (Packet portal topic payload retained) \<and> permitted ident c = Some t
      \<and> mode_leaf ident (fst (handle_cerbo_device portal topic payload retained mtime c)) = mode_leaf ident c"
proof (cases "device_topic portal topic")
  case None
  then have "pump_packet ident portal topic = None" by (simp add: pump_packet_def)
  with None assms show ?thesis by (simp add: handle_cerbo_device_def)
next
  case (Some kip)
  obtain kind i path where topic: "device_topic portal topic = Some (kind, i, path)"
    using Some by (cases kip) auto
  note go = handle_cerbo_device_def topic
  show ?thesis
  proof (cases payload)
    case Empty
    have "valid_mode (mode_leaf ident c) \<Longrightarrow> ident \<in> fst ` set (find_devices (nodes c) (py ''pump''))"
      by (auto simp: valid_mode_def mode_leaf_def find_leaves_def leaf_value_def dest!: map_of_SomeD split: option.splits)
         force
    with Empty assms topic show ?thesis
      by (auto simp: go remove_cerbo_device_def pump_packet_def mode_leaf_def Let_def delete_conv' find_leaves_delete
          split: if_splits)
  next
    case Malformed
    with assms topic show ?thesis
      by (auto simp: go store_cerbo_leaf_def pump_packet_def Let_def delete_conv' split: if_splits)
  next
    case (Parsed x)
    show ?thesis
    proof (cases "\<exists>kvs v. x = PyDict kvs \<and> map_of kvs (py ''value'') = Some v")
      case True
      then obtain kvs v where "x = PyDict kvs" "map_of kvs (py ''value'') = Some v" by blast
      with assms topic Parsed show ?thesis
        by (auto simp: go store_cerbo_leaf_def pump_packet_def Let_def delete_conv' permitted_observe mode_leaf_def store_value_def
            split: if_splits)
    next
      case False
      then have "store_cerbo_leaf kind i path payload retained mtime c1 = (c1, False)" for c1
        using Parsed by (auto simp: store_cerbo_leaf_def split: pyval.splits option.splits)
      with assms topic Parsed False show ?thesis
        by (cases x) (auto simp: go pump_packet_def Let_def delete_conv' split: if_splits option.splits)
    qed
  qed
qed

lemma map_of_map_snd: "map_of (map (\<lambda>d. (fst d, y)) ds) i = (if i \<in> fst ` set ds then Some y else None)"
  by (induction ds) auto

text \<open>The devices of a kind have different names, and sorting them loses none.\<close>

definition named_once :: "(pystring \<times> devices) list \<Rightarrow> bool" where
  "named_once ns \<longleftrightarrow> (\<forall>kind. distinct (map fst (find_devices ns kind)))"

lemma store_value_once: "named_once ns \<Longrightarrow> named_once (store_value kind i path v ns)"
  by (auto simp: named_once_def store_value_def Let_def distinct_update)

lemma snapshot_kind_once: "named_once ns \<Longrightarrow> named_once (snapshot_kind snap kind ns)"
proof -
  have "named_once ns \<Longrightarrow> named_once (fold (\<lambda>(key, v) ns. case snapshot_leaf kind key v of
      None \<Rightarrow> ns | Some (ident, path) \<Rightarrow> store_value kind ident path v ns) kvs ns)" for kvs
    by (induction kvs arbitrary: ns) (auto simp: store_value_once split: option.splits)
  then show "named_once ns \<Longrightarrow> ?thesis"
    by (auto simp: snapshot_kind_def split: option.splits pyval.splits)
qed

lemma snapshot_nodes_once: "named_once (snapshot_nodes snap)"
proof -
  have "named_once ns \<Longrightarrow> named_once (fold (snapshot_kind snap) kinds ns)" for kinds ns
    by (induction kinds arbitrary: ns) (simp_all add: snapshot_kind_once)
  then show ?thesis by (simp add: snapshot_nodes_def named_once_def find_devices_def)
qed

lemma mset_place [simp]: "mset (place d es) = add_mset d (mset es)"
  by (induction es) auto

lemma mset_placed [simp]: "mset (foldr place ds []) = mset ds"
  by (induction ds) simp_all

lemma devices_in_once:
  assumes "named_once ns"
  shows "distinct (map fst (devices_in ns kind))" and "set (devices_in ns kind) \<subseteq> set (find_devices ns kind)"
proof -
  have "mset (map fst (foldr place (find_devices ns kind) [])) = mset (map fst (find_devices ns kind))"
    by (simp only: mset_map mset_placed)
  with assms have "distinct (map fst (foldr place (find_devices ns kind) []))"
    unfolding named_once_def by (metis mset_eq_imp_distinct_iff)
  then show "distinct (map fst (devices_in ns kind))"
    unfolding devices_in_def by (rule distinct_map_filter)
  have "set (foldr place (find_devices ns kind) []) = set (find_devices ns kind)"
    by (metis mset_placed set_mset_mset)
  then show "set (devices_in ns kind) \<subseteq> set (find_devices ns kind)"
    unfolding devices_in_def by auto
qed

lemma snapshot_permits:
  assumes "permitted ident (replace_cerbo_snapshot snap mtime c) = Some t"
  shows "\<exists>v. live_mode ident (GatewaySnapshot snap) = Some v \<and> valid_mode v \<and> t = mtime
    \<and> mode_leaf ident (replace_cerbo_snapshot snap mtime c) = v"
proof -
  let ?ns = "snapshot_nodes snap"
  let ?pumps = "devices_in ?ns (py ''pump'')"
  note once = snapshot_nodes_once [of snap]
  from assms obtain ls where ls: "(ident, ls) \<in> set ?pumps" "valid_mode (leaf_value ls ''Mode'')" "t = mtime"
    by (auto simp: replace_cerbo_snapshot_def Let_def map_of_map_snd split: if_splits)
  from ls(1) devices_in_once(1) [OF once] have found: "map_of ?pumps ident = Some ls" by simp
  from ls(1) devices_in_once(2) [OF once] once have "map_of (find_devices ?ns (py ''pump'')) ident = Some ls"
    by (auto simp: named_once_def)
  then have "mode_leaf ident (replace_cerbo_snapshot snap mtime c) = leaf_value ls ''Mode''"
    by (simp add: mode_leaf_def find_leaves_def replace_cerbo_snapshot_def Let_def)
  with ls found show ?thesis by simp
qed

text \<open>A water device may be commanded only within 30 s of a live report of its mode that nothing has
  superseded since, and the mode in the cache is the one reported.\<close>

theorem water_permission_is_live:
  assumes "device_history c hist" and "water_mode_fresh ident mtime c"
  shows "\<exists>before ev t after v. hist = before @ (ev, t) # after \<and> live_mode ident ev = Some v \<and> valid_mode v
    \<and> (\<forall>(x, _) \<in> set after. \<not> superseding ident x) \<and> 0 \<le> mtime - t \<and> mtime - t \<le> 30 \<and> mode_leaf ident c = v"
proof -
  have "\<exists>before ev after v. hist = before @ (ev, t) # after \<and> live_mode ident ev = Some v \<and> valid_mode v
      \<and> (\<forall>(x, _) \<in> set after. \<not> superseding ident x) \<and> mode_leaf ident c = v"
    if "permitted ident c = Some t" for t
    using assms(1) that
  proof (induction arbitrary: t rule: device_history.induct)
    case fresh_cache
    then show ?case by (simp add: cache_init_def)
  next
    case (observed c hist ev mtime)
    have known: "permitted ident c \<noteq> None \<longrightarrow> valid_mode (mode_leaf ident c)"
      using observed.IH by blast
    have step: "(\<exists>v. live_mode ident ev = Some v \<and> valid_mode v \<and> t = mtime \<and> mode_leaf ident (device_step ev mtime c) = v)
      \<or> \<not> superseding ident ev \<and> permitted ident c = Some t
        \<and> mode_leaf ident (device_step ev mtime c) = mode_leaf ident c"
    proof (cases ev)
      case (Packet portal topic payload retained)
      with packet_permits [OF _ known] observed.prems show ?thesis by simp
    next
      case (GatewaySnapshot snap)
      with snapshot_permits observed.prems show ?thesis by simp
    next
      case Disconnected
      with observed.prems show ?thesis by (simp add: clear_cerbo_state_def)
    qed
    then show ?case
    proof (elim disjE exE conjE)
      fix v
      assume "live_mode ident ev = Some v" "valid_mode v" "t = mtime" "mode_leaf ident (device_step ev mtime c) = v"
      then show ?thesis by (intro exI [of _ hist] exI [of _ ev] exI [of _ "[]"] exI [of _ v]) simp
    next
      assume quiet: "\<not> superseding ident ev" "permitted ident c = Some t"
        and same: "mode_leaf ident (device_step ev mtime c) = mode_leaf ident c"
      from observed.IH [OF quiet(2)] obtain before ev1 after v where "hist = before @ (ev1, t) # after"
        "live_mode ident ev1 = Some v" "valid_mode v" "\<forall>(x, _) \<in> set after. \<not> superseding ident x" "mode_leaf ident c = v"
        by blast
      with quiet(1) same show ?thesis
        by (intro exI [of _ before] exI [of _ ev1] exI [of _ "after @ [(ev, mtime)]"] exI [of _ v]) auto
    qed
  qed
  with assms(2) show ?thesis
    by (auto simp: water_mode_fresh_def split: option.splits)
qed

definition demo_mode :: device_event where
  "demo_mode = Packet (py ''p'') (py ''N/p/pump/1/Mode'') (Parsed (PyDict [(py ''value'', PyInt 1)])) False"

lemma water_permission_is_live_witness:
  "water_mode_fresh (py ''1'') 12 (device_step demo_mode 10 cache_init)
    \<and> live_mode (py ''1'') demo_mode = Some (mode_leaf (py ''1'') (device_step demo_mode 10 cache_init))"
proof -
  have "device_topic (py ''p'') (py ''N/p/pump/1/Mode'') = Some (py ''pump'', py ''1'', py ''Mode'')"
    by code_simp
  then have "water_mode_fresh (py ''1'') 12 (device_step demo_mode 10 cache_init)"
    by (simp add: demo_mode_def handle_cerbo_device_def store_cerbo_leaf_def water_mode_fresh_def permitted_observe
        valid_path_value_def known_path_def valid_mode_def water_modes_def Let_def)
  with water_permission_is_live [OF device_history.observed [OF device_history.fresh_cache] this] show ?thesis
    by (auto simp: Cons_eq_append_conv)
qed

end
