(* ===== verification/PushObserver.thy ===== *)
theory PushObserver
  imports PushSystem DeviceState
begin

text \<open>
  The observer of device values (\<open>push_observer.py\<close>): which leaves of the device tree it samples,
  and what a gateway snapshot and an MQTT packet make of them. A \<open>device_view\<close> is what
  \<open>MqttState._devices\<close> answers (\<open>devices_of\<close> of a cache), the connected devices of a kind in order.
  The notifications it hands on are an argument here; \<open>BannerPush\<close> gives them.
\<close>

type_synonym device_view = "string \<Rightarrow> devices"
type_synonym leaf = "pystring \<times> pystring \<times> pystring"

record sampled =
  sm_kind :: string
  sm_ident :: pystring
  sm_value :: pyval
  sm_leaf :: leaf

record instances =
  water_pump :: int
  water_valve :: int
  ev_charger :: "int option"

section \<open>Values\<close>

definition optional :: "rat option \<Rightarrow> (rat \<Rightarrow> pyval) \<Rightarrow> pyval" where
  "optional v f = (case v of None \<Rightarrow> PyNone | Some q \<Rightarrow> f q)"

definition is_integer :: "rat \<Rightarrow> bool" where
  "is_integer q \<longleftrightarrow> of_int \<lfloor>q\<rfloor> = q"

definition percent :: "rat \<Rightarrow> pyval" where
  "percent q = (if 0 \<le> q \<and> q \<le> 100 then PyFloat (Num q) else PyNone)"

section \<open>Selection\<close>

definition soc_sample :: "device_view \<Rightarrow> sampled option" where
  "soc_sample view =
     (let (system_id, system) = (case view ''system'' of [] \<Rightarrow> (py ''0'', []) | d # _ \<Rightarrow> d) in
      case number (leaf_value system ''Dc/Battery/Soc'') of
        Some actual \<Rightarrow>
          Some \<lparr>sm_kind = ''lowBattery'', sm_ident = py ''system:'' @ system_id, sm_value = percent actual,
                sm_leaf = (py ''system'', system_id, py ''Dc/Battery/Soc'')\<rparr>
      | None \<Rightarrow>
          let batteries = view ''battery'';
              only = (case batteries of [b] \<Rightarrow> Some b | _ \<Rightarrow> None);
              selected = (case number (leaf_value system ''Dc/Battery/Instance'') of
                 Some i \<Rightarrow> if is_integer i then find (\<lambda>b. fst b = int_text \<lfloor>i\<rfloor>) batteries else only
               | None \<Rightarrow> only)
          in map_option (\<lambda>(ident, ls). \<lparr>sm_kind = ''lowBattery'', sm_ident = py ''battery:'' @ ident,
                 sm_value = optional (number (leaf_value ls ''Soc'')) percent,
                 sm_leaf = (py ''battery'', ident, py ''Soc'')\<rparr>) selected)"

definition water_sample :: "device_view \<Rightarrow> string \<Rightarrow> int \<Rightarrow> sampled" where
  "water_sample view role i =
     (let ident = int_text i;
          ls = (case map_of (view ''pump'') ident of None \<Rightarrow> [] | Some ls \<Rightarrow> ls);
          field = (if py ''State'' \<in> set (map fst ls) then ''State'' else ''Status'')
      in \<lparr>sm_kind = ''water'', sm_ident = py role @ py '':'' @ ident,
          sm_value = optional (number (leaf_value ls field))
            (\<lambda>raw. if raw \<in> {0, 1} then PyBool (raw = 1) else PyNone),
          sm_leaf = (py ''pump'', ident, py field)\<rparr>)"

definition ev_sample :: "device_view \<Rightarrow> int option \<Rightarrow> sampled option" where
  "ev_sample view charger =
     (let chargers = view ''evcharger'';
          selected = (case charger of
             Some i \<Rightarrow> find (\<lambda>c. fst c = int_text i) chargers
           | None \<Rightarrow> find (\<lambda>c. number (leaf_value (snd c) ''Ac/Power'') \<noteq> None) chargers)
      in map_option (\<lambda>(ident, ls). \<lparr>sm_kind = ''ev'', sm_ident = py ''evcharger:'' @ ident,
             sm_value = optional (number (leaf_value ls ''Ac/Power'')) (\<lambda>p. PyBool (p > 10)),
             sm_leaf = (py ''evcharger'', ident, py ''Ac/Power'')\<rparr>) selected)"

text \<open>The samples by role, in the order of the dictionary.\<close>

definition selected_samples :: "instances \<Rightarrow> device_view \<Rightarrow> (string \<times> sampled) list" where
  "selected_samples cfg view =
     [(''pump'', water_sample view ''pump'' (water_pump cfg)), (''valve'', water_sample view ''valve'' (water_valve cfg))]
     @ (case ev_sample view (ev_charger cfg) of None \<Rightarrow> [] | Some s \<Rightarrow> [(''ev'', s)])
     @ (case soc_sample view of None \<Rightarrow> [] | Some s \<Rightarrow> [(''lowBattery'', s)])"

section \<open>\<open>PushObserver\<close>\<close>

record observer =
  ob_selected :: "(string \<times> sampled) list"
  ob_epoch :: pystring

text \<open>\<open>_selection\<close>: the baseline of a role that now means another device is dropped.\<close>

definition retired_samples :: "(string \<times> sampled) list \<Rightarrow> (string \<times> sampled) list \<Rightarrow> sampled list" where
  "retired_samples old new =
     map snd (filter (\<lambda>(role, previous).
       case map_of new role of None \<Rightarrow> True | Some current \<Rightarrow> sm_ident current \<noteq> sm_ident previous) old)"

definition forget :: "sampled list \<Rightarrow> processor \<Rightarrow> processor" where
  "forget = fold (\<lambda>s p. p\<lparr>samples := AList.delete (sample_key (sm_kind s) (sm_ident s)) (samples p)\<rparr>)"

definition selection :: "(string \<times> sampled) list \<Rightarrow> observer \<Rightarrow> service \<Rightarrow> observer \<times> service" where
  "selection new ob s =
     (let old = (if ob_epoch ob \<noteq> epoch (proc s) then [] else ob_selected ob)
      in (\<lparr>ob_selected = new, ob_epoch = epoch (proc s)\<rparr>, s\<lparr>proc := forget (retired_samples old new) (proc s)\<rparr>))"

text \<open>The two kinds of observation, without the handler of \<open>snapshot\<close> and \<open>mqtt\<close>: the new state,
  what was queued, and the exception that ended it. \<open>None\<close> is a call that does not return.\<close>

definition native_part ::
  "runtime \<Rightarrow> (nat \<Rightarrow> bool) \<Rightarrow> (nat \<Rightarrow> bool) \<Rightarrow> pyval list \<Rightarrow> rat \<Rightarrow> bool \<Rightarrow> service
    \<Rightarrow> (service \<times> pystring list \<times> unit outcome) option" where
  "native_part rt disks disks2 ns now prime s =
     (case native rt disks ns now prime (proc s) (db s) of
        None \<Rightarrow> None
      | Some (st, Inl e) \<Rightarrow> Some (s\<lparr>db := st\<rparr>, [], Inl e)
      | Some (st, Inr (p, out)) \<Rightarrow> Some (queue_all rt disks2 out now (s\<lparr>db := st, proc := p\<rparr>)))"

definition sample_part ::
  "runtime \<Rightarrow> bool \<Rightarrow> sampled \<Rightarrow> pyval \<Rightarrow> rat \<Rightarrow> bool \<Rightarrow> service \<Rightarrow> (service \<times> pystring list \<times> unit outcome) option" where
  "sample_part rt disk x v now prime s =
     (case sample rt (sm_kind x) (sm_ident x) v now prime (proc s) of
        None \<Rightarrow> None
      | Some (p, Inl e) \<Rightarrow> Some (s\<lparr>proc := p\<rparr>, [], Inl e)
      | Some (p, Inr event) \<Rightarrow>
          (case queue rt disk event now (s\<lparr>proc := p\<rparr>) of
             (s1, Inl e) \<Rightarrow> Some (s1, [], Inl e)
           | (s1, Inr new) \<Rightarrow> Some (s1, if new then [payload_text (the event) ''eventKey''] else [], Inr ())))"

fun sample_all ::
  "runtime \<Rightarrow> (nat \<Rightarrow> bool) \<Rightarrow> (sampled \<Rightarrow> (pyval \<times> bool) option) \<Rightarrow> sampled list \<Rightarrow> rat \<Rightarrow> service
    \<Rightarrow> (service \<times> pystring list \<times> unit outcome) option" where
  "sample_all rt disks what [] now s = Some (s, [], Inr ())"
| "sample_all rt disks what (x # xs) now s =
     (case (case what x of
              None \<Rightarrow> Some (s, [], Inr ())
            | Some (v, prime) \<Rightarrow> sample_part rt (disks 0) x v now prime s) of
        None \<Rightarrow> None
      | Some (s1, qs, Inl e) \<Rightarrow> Some (s1, qs, Inl e)
      | Some (s1, qs, Inr _) \<Rightarrow>
          (case sample_all rt (\<lambda>i. disks (Suc i)) what xs now s1 of
             None \<Rightarrow> None
           | Some (s2, qs1, r) \<Rightarrow> Some (s2, qs @ qs1, r)))"

text \<open>The handler: every exception that can occur takes the service down.\<close>

fun handled :: "service \<times> pystring list \<times> unit outcome \<Rightarrow> service \<times> pystring list" where
  "handled (s, qs, Inl e) = (fail s, qs)"
| "handled (s, qs, Inr _) = (s, qs)"

record disk_view =
  dk_connect :: bool
  dk_remember :: "nat \<Rightarrow> bool"
  dk_queue :: "nat \<Rightarrow> bool"
  dk_sample :: "nat \<Rightarrow> bool"

text \<open>\<open>snapshot\<close>: the first one of a connection primes.\<close>

definition observe_gateway ::
  "runtime \<Rightarrow> disk_view \<Rightarrow> pystring \<Rightarrow> nat \<Rightarrow> pyval list \<Rightarrow> (string \<times> sampled) list \<Rightarrow> rat \<Rightarrow> observer \<Rightarrow> service
    \<Rightarrow> (observer \<times> service \<times> pystring list) option" where
  "observe_gateway rt dk uuid who notifications found now ob s =
     (if \<not> available s then Some (ob, s, [])
      else case connect rt (dk_connect dk) (py ''igw'') who False uuid now s of
        (s1, prime) \<Rightarrow>
          (case native_part rt (dk_remember dk) (dk_queue dk) notifications now prime s1 of
             None \<Rightarrow> None
           | Some (s2, qs, Inl e) \<Rightarrow> Some (ob, handled (s2, qs, Inl e))
           | Some (s2, qs, Inr _) \<Rightarrow>
               (case selection found ob s2 of
                  (ob1, s3) \<Rightarrow>
                    (case sample_all rt (dk_sample dk) (\<lambda>x. Some (sm_value x, prime)) (map snd found) now s3 of
                       None \<Rightarrow> None
                     | Some (s4, qs1, r) \<Rightarrow> Some (ob1, handled (s4, qs @ qs1, r))))))"

section \<open>MQTT packets\<close>

text \<open>\<open>topic.split("/", 4)\<close>.\<close>

fun split_max :: "nat \<Rightarrow> pystring \<Rightarrow> pystring list" where
  "split_max 0 s = [s]"
| "split_max (Suc n) s =
     (case cut 0x2F s of (before, found, rest) \<Rightarrow> if found then before # split_max n rest else [s])"

fun contains :: "pystring \<Rightarrow> pystring \<Rightarrow> bool" where
  "contains s [] \<longleftrightarrow> s = []"
| "contains s (c # t) \<longleftrightarrow> take (length s) (c # t) = s \<or> contains s t"

definition topic_leaf :: "pystring \<Rightarrow> pystring \<Rightarrow> leaf option" where
  "topic_leaf portal topic =
     (case split_max 4 topic of
        [n, p, kind, ident] \<Rightarrow> if n = py ''N'' \<and> p = portal then Some (kind, ident, []) else None
      | [n, p, kind, ident, rest] \<Rightarrow> if n = py ''N'' \<and> p = portal then Some (kind, ident, rest) else None
      | _ \<Rightarrow> None)"

definition about_notifications :: "pystring \<Rightarrow> bool" where
  "about_notifications topic \<longleftrightarrow>
     topic = py ''inverter/notifications'' \<or> contains (py ''/Notifications/'') topic \<or> contains (py ''/Alarms/'') topic"

text \<open>\<open>_mqtt_sample\<close>: what a packet for a leaf does with one sample; \<open>None\<close> for nothing.\<close>

definition packet_sample :: "leaf \<Rightarrow> bool \<Rightarrow> bool \<Rightarrow> sampled \<Rightarrow> (pyval \<times> bool) option" where
  "packet_sample l clear_measurement priming x =
     (case (l, sm_leaf x) of ((kind, ident, field), (kind1, ident1, field1)) \<Rightarrow>
        if sm_value x = PyNone \<or> kind = kind1 \<and> ident = ident1 \<and> field \<in> {[], py ''Connected''}
        then Some (PyNone, False)
        else if l = sm_leaf x then Some (if clear_measurement then PyNone else sm_value x, priming)
        else None)"

definition MQTT_PRIMING_SECONDS :: rat where
  "MQTT_PRIMING_SECONDS = 10"

text \<open>\<open>payload\<close> is the parsed packet, \<open>PyNone\<close> for an empty or a malformed one.\<close>

definition observe_packet ::
  "runtime \<Rightarrow> disk_view \<Rightarrow> nat \<Rightarrow> pystring \<Rightarrow> pystring \<Rightarrow> bool \<Rightarrow> pyval \<Rightarrow> pyval list \<Rightarrow> (string \<times> sampled) list \<Rightarrow> rat
    \<Rightarrow> observer \<Rightarrow> service \<Rightarrow> (observer \<times> service \<times> pystring list) option" where
  "observe_packet rt dk who portal topic retained payload notifications found now ob s =
     (if \<not> available s \<or> connection s \<noteq> Some (py ''mqtt'', who) then Some (ob, s, [])
      else
        let priming = now - started_at (proc s) < MQTT_PRIMING_SECONDS in
        case (if about_notifications topic
              then native_part rt (dk_remember dk) (dk_queue dk) notifications now (retained \<or> priming) s
              else Some (s, [], Inr ())) of
          None \<Rightarrow> None
        | Some (s1, qs, Inl e) \<Rightarrow> Some (ob, handled (s1, qs, Inl e))
        | Some (s1, qs, Inr _) \<Rightarrow>
            (case topic_leaf portal topic of
               None \<Rightarrow> Some (ob, s1, qs)
             | Some l \<Rightarrow>
                 let valid = is_dict payload \<and> number (py_get payload ''value'' PyNone) \<noteq> None in
                 (case selection found ob s1 of
                    (ob1, s2) \<Rightarrow>
                      (case sample_all rt (dk_sample dk) (packet_sample l (retained \<or> \<not> valid) priming)
                              (map snd found) now s2 of
                         None \<Rightarrow> None
                       | Some (s3, qs1, r) \<Rightarrow> Some (ob1, handled (s3, qs @ qs1, r))))))"

section \<open>What stays silent\<close>

text \<open>The system of \<open>PushSystem\<close> observes natives and samples one by one, each with its handler.\<close>

lemma observe_native_part:
  "available s \<Longrightarrow> observe_native rt disks disks2 ns now prime s = map_option handled (native_part rt disks disks2 ns now prime s)"
  by (auto simp: observe_native_def native_part_def split: option.splits sum.splits prod.splits)

lemma observe_sample_part:
  "available s \<Longrightarrow> observe_sample rt disk (sm_kind x) (sm_ident x) v now prime s
     = map_option handled (sample_part rt disk x v now prime s)"
  by (auto simp: observe_sample_def sample_part_def split: option.splits sum.splits prod.splits)

definition calm :: "push_store \<Rightarrow> service \<times> pystring list \<times> unit outcome \<Rightarrow> bool" where
  "calm st r \<longleftrightarrow> fst (snd r) = [] \<and> deliveries (db (fst r)) = deliveries st"

lemma remember_deliveries: "remember disk i now st = (st1, r) \<Longrightarrow> deliveries st1 = deliveries st"
  by (auto simp: remember_def with_db_def remember_row_def Let_def split: if_splits)

lemma native_event_deliveries:
  "native_event rt disk n now prime p st = Some (st1, r) \<Longrightarrow> deliveries st1 = deliveries st"
  by (auto simp: native_event_def remember_event_def Let_def dest: remember_deliveries
      split: option.splits sum.splits if_splits prod.splits)

lemma native_loop_deliveries:
  "native_loop rt disks now prime ns p st = Some (st1, r) \<Longrightarrow> deliveries st1 = deliveries st"
proof (induction ns arbitrary: disks p st r)
  case (Cons n ns)
  from Cons.prems obtain st2 r2 where first: "native_event rt (disks 0) n now prime p st = Some (st2, r2)"
    by (auto split: option.splits)
  with Cons show ?case
    by (auto dest!: native_event_deliveries split: option.splits sum.splits prod.splits)
qed simp

lemma native_deliveries: "native rt disks ns now prime p st = Some (st1, r) \<Longrightarrow> deliveries st1 = deliveries st"
  by (auto simp: native_def Let_def dest: native_loop_deliveries split: option.splits sum.splits prod.splits)

lemma primed_native_part_calm:
  assumes "native_part rt disks disks2 ns now prime s = Some r" and "prime \<or> \<not> native_primed (proc s)"
  shows "calm (db s) r"
proof -
  from assms(1) obtain st r1 where run: "native rt disks ns now prime (proc s) (db s) = Some (st, r1)"
    by (auto simp: native_part_def split: option.splits)
  note same = native_deliveries [OF run]
  show ?thesis
  proof (cases r1)
    case (Inl e)
    with assms(1) run same show ?thesis by (auto simp: native_part_def calm_def)
  next
    case (Inr po)
    obtain p out where po: "po = (p, out)" by (cases po)
    note run = run [unfolded Inr po]
    obtain p0 p2 where loop: "native_loop rt disks now (prime \<or> \<not> native_primed (proc s)) (take 100 ns) p0 (db s)
        = Some (st, Inr (p2, out))"
      using native_unfold [OF run] by metis
    have "out = []"
      using native_loop_events [OF loop] assms(2) by (metis list.set_intros(1) neq_Nil_conv)
    with assms(1) run same show ?thesis by (auto simp: native_part_def calm_def)
  qed
qed

lemma silent_sample_part:
  assumes "sample_part rt disk x v now prime s = Some r" and "prime \<or> v = PyNone"
  shows "calm (db s) r"
  using assms by (auto simp: sample_part_def sample_def calm_def queue_def Let_def split: option.splits if_splits)

lemma silent_samples:
  assumes "sample_all rt disks what xs now s = Some r" and "\<And>x v prime. what x = Some (v, prime) \<Longrightarrow> prime \<or> v = PyNone"
  shows "calm (db s) r"
  using assms(1)
proof (induction xs arbitrary: disks s r)
  case (Cons x xs)
  from Cons.prems obtain s1 qs r1 where
    first: "(case what x of None \<Rightarrow> Some (s, [], Inr ()) | Some (v, prime) \<Rightarrow> sample_part rt (disks 0) x v now prime s)
      = Some (s1, qs, r1)"
    by (auto split: option.splits)
  then have calm1: "calm (db s) (s1, qs, r1)"
  proof (cases "what x")
    case None
    with first show ?thesis by (simp add: calm_def)
  next
    case (Some vp)
    with first assms(2) [of x "fst vp" "snd vp"] show ?thesis
      by (auto intro: silent_sample_part split: prod.splits)
  qed
  show ?case
  proof (cases r1)
    case (Inl e)
    with Cons.prems first calm1 show ?thesis by simp
  next
    case (Inr u)
    with Cons.prems first obtain s2 qs1 r2 where
      rest: "sample_all rt (\<lambda>i. disks (Suc i)) what xs now s1 = Some (s2, qs1, r2)" and r: "r = (s2, qs @ qs1, r2)"
      by (auto split: option.splits)
    from Cons.IH [OF rest] calm1 r show ?thesis by (simp add: calm_def)
  qed
qed (simp add: calm_def)

lemma selection_db [simp]: "selection found ob s = (ob1, s1) \<Longrightarrow> db s1 = db s"
  by (auto simp: selection_def Let_def)

lemma handled_calm: "calm st r \<Longrightarrow> handled r = (s1, qs) \<Longrightarrow> qs = [] \<and> deliveries (db s1) = deliveries st"
  by (cases r rule: handled.cases) (auto simp: calm_def fail_def)

lemma packet_sample_silent:
  "packet_sample l clear_measurement priming x = Some (v, prime) \<Longrightarrow> clear_measurement \<or> priming \<Longrightarrow> prime \<or> v = PyNone"
  by (auto simp: packet_sample_def split: prod.splits if_splits)

text \<open>C27: A retained packet, a packet within ten seconds of the connection or one of another connection
  queues no event and leaves the outbox as it is. It may still set or clear baselines, remember the
  identities of the notifications it carries, and take push down when that fails.\<close>

theorem retained_packets_queue_nothing:
  assumes "observe_packet rt dk who portal topic retained payload notifications found now ob s = Some (ob1, s1, qs)"
    and "retained \<or> now - started_at (proc s) < MQTT_PRIMING_SECONDS \<or> connection s \<noteq> Some (py ''mqtt'', who)"
  shows "qs = [] \<and> deliveries (db s1) = deliveries (db s)"
proof (cases "available s \<and> connection s = Some (py ''mqtt'', who)")
  case False
  with assms(1) show ?thesis by (auto simp: observe_packet_def)
next
  case True
  let ?priming = "now - started_at (proc s) < MQTT_PRIMING_SECONDS"
  from True assms(2) have quiet: "retained \<or> ?priming" by blast
  let ?natives = "if about_notifications topic
    then native_part rt (dk_remember dk) (dk_queue dk) notifications now (retained \<or> ?priming) s
    else Some (s, [], Inr ())"
  from True assms(1) obtain s2 qs2 r where natives: "?natives = Some (s2, qs2, r)"
    by (auto simp: observe_packet_def Let_def split: option.splits)
  with quiet have calm2: "calm (db s) (s2, qs2, r)"
    by (auto intro: primed_native_part_calm simp: calm_def [of "db s2" "(s2, [], Inr ())"] split: if_splits)
  show ?thesis
  proof (cases r)
    case (Inl e)
    with True assms(1) natives calm2 show ?thesis
      by (auto simp: observe_packet_def Let_def fail_def calm_def)
  next
    case (Inr u)
    with True assms(1) natives calm2 quiet show ?thesis
      by (auto simp: observe_packet_def Let_def calm_def split: option.splits prod.splits
          dest!: silent_samples [OF _ packet_sample_silent] handled_calm)
  qed
qed

text \<open>A baseline of 50 % and a retained packet that says 10 %.\<close>

definition demo_battery :: sampled where
  "demo_battery = \<lparr>sm_kind = ''lowBattery'', sm_ident = py ''system:0'', sm_value = PyFloat (Num 10),
     sm_leaf = (py ''system'', py ''0'', py ''Dc/Battery/Soc'')\<rparr>"

abbreviation demo_observed :: service where
  "demo_observed \<equiv> \<lparr>available = True, db = no_rows, proc = demo_processor, connection = Some (py ''mqtt'', 0),
     test_times = []\<rparr>"

definition demo_observer :: observer where
  "demo_observer = \<lparr>ob_selected = [(''lowBattery'', demo_battery)], ob_epoch = py ''e''\<rparr>"

definition demo_disks :: disk_view where
  "demo_disks = \<lparr>dk_connect = True, dk_remember = \<lambda>_. True, dk_queue = \<lambda>_. True, dk_sample = \<lambda>_. True\<rparr>"

lemma demo_samples: "\<exists>r. sample_all rt disks (packet_sample l True b) [demo_battery] now s = Some r"
  by (cases "packet_sample l True b demo_battery")
     (auto simp: packet_sample_def sample_part_def sample_def queue_def Let_def split: prod.splits if_splits option.splits)

lemma retained_packets_queue_nothing_witness:
  "\<exists>ob1 s1. observe_packet demo_runtime demo_disks 0 (py ''p'') (py ''N/p/system/0/Dc/Battery/Soc'') True
     (PyDict [(py ''value'', PyInt 10)]) [] [(''lowBattery'', demo_battery)] 1700000030 demo_observer demo_observed
     = Some (ob1, s1, []) \<and> deliveries (db s1) = []"
proof -
  let ?topic = "py ''N/p/system/0/Dc/Battery/Soc''"
  have leaf: "topic_leaf (py ''p'') ?topic = Some (sm_leaf demo_battery)"
    and other: "\<not> about_notifications ?topic"
    by code_simp+
  have "\<exists>ob1 s1 qs. observe_packet demo_runtime demo_disks 0 (py ''p'') ?topic True
     (PyDict [(py ''value'', PyInt 10)]) [] [(''lowBattery'', demo_battery)] 1700000030 demo_observer demo_observed
     = Some (ob1, s1, qs)"
    using demo_samples
    by (auto simp: observe_packet_def leaf other selection_def Let_def simp del: sample_all.simps split: prod.splits option.splits)
       (metis option.distinct(1) surj_pair)+
  then obtain ob1 s1 qs where run: "observe_packet demo_runtime demo_disks 0 (py ''p'') ?topic True
     (PyDict [(py ''value'', PyInt 10)]) [] [(''lowBattery'', demo_battery)] 1700000030 demo_observer demo_observed
     = Some (ob1, s1, qs)" by blast
  from retained_packets_queue_nothing [OF run] run show ?thesis by auto
qed

end
