(* ===== verification/BannerNotifications.thy ===== *)
theory BannerNotifications
  imports PushObserver PushApi
begin

text \<open>
  The alert banners of the dashboard (\<open>notifications.py\<close>, and \<open>handle_alarm\<close> with the names of alarms
  and services in \<open>server.py\<close>): the notification slots of the GX device, which arrive leaf by leaf on
  MQTT or as a map in a gateway snapshot; the raw alarms, which stand in for them until the first slot
  is seen; the notices of the controller; and what the user has dismissed. A dictionary of slots is an
  association list in the order of insertion. The results of the operations say whether the banners
  changed, but for \<open>apply_platform_field\<close>, whose result no caller reads.
\<close>

text \<open>What the standard library makes of a text: the value of a finite \<open>Decimal\<close> and of a finite
  \<open>float\<close> (\<open>None\<close> for the others and for an exception), \<open>datetime.fromtimestamp(t, tz=UTC).isoformat()\<close>,
  and the order in which \<open>list\<close> meets the elements of a set.\<close>

record banner_env =
  be_rt :: runtime
  decimal_text :: "pystring \<Rightarrow> rat option"
  float_text :: "pystring \<Rightarrow> rat option"
  iso_text :: "int \<Rightarrow> pystring"
  set_order :: "pystring set \<Rightarrow> pystring list"

section \<open>Values\<close>

definition as_bool :: "pyval \<Rightarrow> bool option" where
  "as_bool v =
     (case v of
        PyBool b \<Rightarrow> Some b
      | PyInt i \<Rightarrow> if i \<in> {0, 1} then Some (i = 1) else None
      | PyFloat (Num q) \<Rightarrow> if q \<in> {0, 1} then Some (q = 1) else None
      | PyStr s \<Rightarrow>
          if lower (strip s) \<in> {py ''1'', py ''true''} then Some True
          else if lower (strip s) \<in> {py ''0'', py ''false''} then Some False else None
      | _ \<Rightarrow> None)"

definition as_i64 :: "banner_env \<Rightarrow> pyval \<Rightarrow> int option" where
  "as_i64 env v =
     (case v of
        PyBool b \<Rightarrow> Some (of_bool b)
      | PyInt i \<Rightarrow> Some i
      | PyFloat (Num q) \<Rightarrow> Some (py_int q)
      | PyStr s \<Rightarrow> map_option py_int (float_text env (strip s))
      | _ \<Rightarrow> None)"

text \<open>\<open>_as_str\<close>.\<close>

definition stripped_str :: "banner_env \<Rightarrow> pyval \<Rightarrow> pystring option" where
  "stripped_str env v =
     (case v of
        PyStr s \<Rightarrow> if strip s = [] then None else Some (strip s)
      | PyInt _ \<Rightarrow> Some (str_of (be_rt env) v)
      | PyFloat _ \<Rightarrow> Some (str_of (be_rt env) v)
      | PyBool _ \<Rightarrow> Some (str_of (be_rt env) v)
      | _ \<Rightarrow> None)"

text \<open>\<open>Decimal(v)\<close> of a number or a text, if it is finite. \<open>Decimal\<close> takes a \<open>bool\<close> for an integer;
  the callers have excluded it.\<close>

definition decimal_value :: "banner_env \<Rightarrow> pyval \<Rightarrow> rat option" where
  "decimal_value env v =
     (case v of
        PyInt i \<Rightarrow> Some (of_int i)
      | PyFloat (Num q) \<Rightarrow> Some q
      | PyStr s \<Rightarrow> decimal_text env s
      | _ \<Rightarrow> None)"

definition LAST_SECOND :: rat where
  "LAST_SECOND = 253402300799"

definition event_datetime :: "banner_env \<Rightarrow> pyval \<Rightarrow> int option" where
  "event_datetime env v =
     (case decimal_value env v of
        None \<Rightarrow> None
      | Some q \<Rightarrow> if q \<le> 0 \<or> q > LAST_SECOND \<or> \<not> is_integer q then None else Some \<lfloor>q\<rfloor>)"

definition alarm_value :: "banner_env \<Rightarrow> pyval \<Rightarrow> int option" where
  "alarm_value env v =
     (if v = PyNone then Some 0
      else case decimal_value env v of
          None \<Rightarrow> None
        | Some q \<Rightarrow> if q \<in> {0, 1, 2} then Some \<lfloor>q\<rfloor> else None)"

text \<open>The \<open>parse_float\<close> of the JSON numbers that are codes or times: the text of the number.\<close>

definition exact_json_number :: "banner_env \<Rightarrow> pystring \<Rightarrow> pyval" where
  "exact_json_number env s = (case alarm_value env (PyStr s) of Some i \<Rightarrow> PyInt i | None \<Rightarrow> PyStr s)"

section \<open>Banners\<close>

record banner =
  bn_id :: pystring
  bn_level :: pystring
  bn_title :: pystring
  bn_body :: pystring
  bn_source :: pystring
  bn_ts :: pystring

text \<open>\<open>str(data.get(k) or dflt)\<close>.\<close>

definition field_text :: "banner_env \<Rightarrow> pyval \<Rightarrow> string \<Rightarrow> string \<Rightarrow> pystring" where
  "field_text env d k dflt =
     (let v = py_get d k PyNone in if py_truthy v then py_str (be_rt env) v else py dflt)"

definition levels :: "pystring set" where
  "levels = py ` {''info'', ''warning'', ''alarm''}"

definition normalize_notification :: "banner_env \<Rightarrow> pyval \<Rightarrow> banner option" where
  "normalize_notification env data =
     (if \<not> is_dict data then None
      else
        let nid = strip (field_text env data ''id'' ''''); title = strip (field_text env data ''title'' '''')
        in if nid = [] \<and> title = [] then None
           else
             let level = lower (strip (field_text env data ''level'' ''info''))
             in Some \<lparr>bn_id = (if nid = [] then title else nid),
                      bn_level = (if level \<in> levels then level else py ''info''),
                      bn_title = (if title = [] then nid else title),
                      bn_body = field_text env data ''body'' '''',
                      bn_source = field_text env data ''source'' ''inverter-control'',
                      bn_ts = field_text env data ''ts'' ''''\<rparr>)"

section \<open>The slots of the GX device\<close>

datatype platform_field =
    Description
  | DeviceName
  | ServiceName
  | DateTime
  | TypeCode
  | Active
  | Acknowledged
  | Silenced

definition PLATFORM_FIELDS :: "(pystring \<times> platform_field) list" where
  "PLATFORM_FIELDS =
     [(py ''Description'', Description), (py ''DeviceName'', DeviceName), (py ''Service'', ServiceName),
      (py ''DateTime'', DateTime), (py ''Type'', TypeCode), (py ''Active'', Active),
      (py ''Acknowledged'', Acknowledged), (py ''Silenced'', Silenced)]"

type_synonym slot_key = "pystring \<times> nat"

text \<open>A slot that is past twenty is refused, and so is a number that \<open>int\<close> refuses for its length.\<close>

definition parse_platform_leaf_key :: "pystring \<Rightarrow> (slot_key \<times> platform_field) option" where
  "parse_platform_leaf_key key =
     (case split_on 0x2F key of
        [inst, word, slot, field] \<Rightarrow>
          if word \<noteq> py ''Notifications'' \<or> \<not> all_digits inst \<or> \<not> all_digits slot then None
          else if length slot > 4300 \<or> decimal slot > 20 then None
          else map_option (\<lambda>f. ((inst, decimal slot), f)) (map_of PLATFORM_FIELDS field)
      | _ \<Rightarrow> None)"

definition valid_platform_value :: "banner_env \<Rightarrow> platform_field \<Rightarrow> pyval \<Rightarrow> bool" where
  "valid_platform_value env field v \<longleftrightarrow>
     v = PyNone
     \<or> (case field of
          DateTime \<Rightarrow> (case v of PyStr _ \<Rightarrow> True | PyInt _ \<Rightarrow> True | PyFloat _ \<Rightarrow> True | PyBool _ \<Rightarrow> True | _ \<Rightarrow> False)
        | Description \<Rightarrow> as_str v \<noteq> None
        | DeviceName \<Rightarrow> as_str v \<noteq> None
        | ServiceName \<Rightarrow> as_str v \<noteq> None
        | TypeCode \<Rightarrow> alarm_value env v \<noteq> None
        | _ \<Rightarrow> as_bool v \<noteq> None)"

text \<open>The dictionary of a slot; a key that is missing after a session was retired reads like \<open>None\<close>.\<close>

record slot =
  description :: "pystring option"
  device_name :: "pystring option"
  service_name :: "pystring option"
  date_time :: "int option"
  last_valid_date_time :: "int option"
  notif_type :: "int option"
  push_type_known :: bool
  active_flag :: "bool option"
  acknowledged :: "bool option"
  silenced :: "bool option"
  user_dismissed :: bool

type_synonym slot_map = "(slot_key \<times> slot) list"

definition blank_slot :: slot where
  "blank_slot = \<lparr>description = None, device_name = None, service_name = None, date_time = None,
     last_valid_date_time = None, notif_type = None, push_type_known = False, active_flag = None,
     acknowledged = None, silenced = None, user_dismissed = False\<rparr>"

definition slot_level :: "int option \<Rightarrow> pystring" where
  "slot_level t = (if t = Some 0 then py ''warning'' else if t = Some 2 then py ''info'' else py ''alarm'')"

definition slot_text :: "pystring option \<Rightarrow> pystring" where
  "slot_text t = (case t of None \<Rightarrow> [] | Some s \<Rightarrow> s)"

definition slot_should_show :: "slot \<Rightarrow> bool" where
  "slot_should_show s \<longleftrightarrow> \<not> (user_dismissed s \<or> acknowledged s = Some True) \<and> strip (slot_text (description s)) \<noteq> []"

definition platform_prefix :: pystring where
  "platform_prefix = py ''victron-platform-''"

definition slot_id :: "slot_key \<Rightarrow> pystring" where
  "slot_id k = platform_prefix @ fst k @ py ''-'' @ nat_digits (snd k)"

definition slot_to_notification :: "banner_env \<Rightarrow> slot_key \<Rightarrow> slot \<Rightarrow> banner option" where
  "slot_to_notification env k s =
     (if \<not> slot_should_show s then None
      else Some
        \<lparr>bn_id = slot_id k,
         bn_level = slot_level (notif_type s),
         bn_title = strip (if slot_text (description s) = [] then py ''Alarm'' else slot_text (description s)),
         bn_body = strip (if slot_text (device_name s) = [] then slot_text (service_name s) else slot_text (device_name s)),
         bn_source = py ''victron'',
         bn_ts = (case date_time s of None \<Rightarrow> [] | Some t \<Rightarrow> if 0 < t then iso_text env t else [])\<rparr>)"

definition apply_platform_datetime :: "banner_env \<Rightarrow> pyval \<Rightarrow> slot \<Rightarrow> slot" where
  "apply_platform_datetime env v s =
     (let next_dt = event_datetime env v;
          s1 = (if next_dt = None then s
                else s\<lparr>user_dismissed := (if next_dt = last_valid_date_time s then user_dismissed s else False),
                       last_valid_date_time := next_dt\<rparr>)
      in s1\<lparr>date_time := next_dt\<rparr>)"

definition set_field :: "banner_env \<Rightarrow> platform_field \<Rightarrow> pyval \<Rightarrow> slot \<Rightarrow> slot" where
  "set_field env field v s =
     (case field of
        Description \<Rightarrow> s\<lparr>description := stripped_str env v\<rparr>
      | DeviceName \<Rightarrow> s\<lparr>device_name := stripped_str env v\<rparr>
      | ServiceName \<Rightarrow> s\<lparr>service_name := stripped_str env v\<rparr>
      | DateTime \<Rightarrow> apply_platform_datetime env v s
      | TypeCode \<Rightarrow>
          s\<lparr>push_type_known := (case v of PyInt i \<Rightarrow> i \<in> {0, 1, 2} | PyFloat (Num q) \<Rightarrow> q \<in> {0, 1, 2} | _ \<Rightarrow> False),
            notif_type := as_i64 env v\<rparr>
      | Active \<Rightarrow>
          s\<lparr>active_flag := as_bool v,
            user_dismissed :=
              (if as_bool v = Some False \<and> active_flag s = Some True then False else user_dismissed s)\<rparr>
      | Acknowledged \<Rightarrow> s\<lparr>acknowledged := as_bool v\<rparr>
      | Silenced \<Rightarrow> s\<lparr>silenced := as_bool v\<rparr>)"

definition find_slot :: "slot_map \<Rightarrow> slot_key \<Rightarrow> slot" where
  "find_slot ss k = (case map_of ss k of None \<Rightarrow> blank_slot | Some s \<Rightarrow> s)"

definition apply_platform_field :: "banner_env \<Rightarrow> pystring \<Rightarrow> pyval \<Rightarrow> slot_map \<Rightarrow> slot_map" where
  "apply_platform_field env key v ss =
     (case parse_platform_leaf_key key of
        None \<Rightarrow> ss
      | Some (k, field) \<Rightarrow>
          if \<not> valid_platform_value env field v then ss
          else AList.update k (set_field env field v (find_slot ss k)) ss)"

definition notifications_from_platform_slots :: "banner_env \<Rightarrow> slot_map \<Rightarrow> banner list" where
  "notifications_from_platform_slots env ss =
     List.map_filter (\<lambda>(k, s). slot_to_notification env k s) (sort_key fst ss)"

text \<open>\<open>raw.get("value") if isinstance(raw, dict) and "value" in raw else raw\<close>.\<close>

definition unwrap :: "pyval \<Rightarrow> pyval" where
  "unwrap raw = (case raw of PyDict kvs \<Rightarrow> (case map_of kvs (py ''value'') of Some v \<Rightarrow> v | None \<Rightarrow> raw) | _ \<Rightarrow> raw)"

text \<open>A slot of the new map, given the map before it.\<close>

definition keep_dismissal :: "slot_map \<Rightarrow> slot_key \<Rightarrow> slot \<Rightarrow> slot" where
  "keep_dismissal old k s =
     (let prev_date = (case map_of old k of None \<Rightarrow> None | Some o1 \<Rightarrow> last_valid_date_time o1);
          prev_dismissed = (case map_of old k of None \<Rightarrow> False | Some o1 \<Rightarrow> user_dismissed o1);
          s1 = (if date_time s = None then s\<lparr>last_valid_date_time := prev_date\<rparr> else s)
      in if \<not> prev_dismissed then s1
         else s1\<lparr>user_dismissed := \<not> (prev_date \<noteq> date_time s1 \<and> date_time s1 \<noteq> None)\<rparr>)"

definition rebuilt_slots :: "banner_env \<Rightarrow> (pystring \<times> pyval) list \<Rightarrow> slot_map" where
  "rebuilt_slots env platform_leaves =
     fold (\<lambda>(key, raw). apply_platform_field env key (unwrap raw)) platform_leaves []"

definition sync_platform_map :: "banner_env \<Rightarrow> slot_map \<Rightarrow> (pystring \<times> pyval) list \<Rightarrow> slot_map" where
  "sync_platform_map env old platform_leaves =
     map (\<lambda>(k, s). (k, keep_dismissal old k s)) (rebuilt_slots env platform_leaves)"

section \<open>The banners shown\<close>

record center =
  slots :: slot_map
  platform_seen :: bool
  alarm_values :: "(pystring \<times> int) list"
  dismissed_ids :: "pystring set"
  banners :: "banner list"

definition center_init :: center where
  "center_init = \<lparr>slots = [], platform_seen = False, alarm_values = [], dismissed_ids = {}, banners = []\<rparr>"

definition NOTIFICATIONS_MAX :: nat where
  "NOTIFICATIONS_MAX = 100"

text \<open>\<open>xs[-n:]\<close>, for a positive \<open>n\<close>.\<close>

definition last_n :: "nat \<Rightarrow> 'a list \<Rightarrow> 'a list" where
  "last_n n xs = drop (length xs - n) xs"

fun replace_banner :: "banner \<Rightarrow> banner list \<Rightarrow> banner list option" where
  "replace_banner b [] = None"
| "replace_banner b (x # xs) =
     (if bn_id x = bn_id b then Some (b # xs) else map_option ((#) x) (replace_banner b xs))"

definition upsert_banner :: "banner \<Rightarrow> banner list \<Rightarrow> banner list" where
  "upsert_banner b bs = (case replace_banner b bs of Some bs1 \<Rightarrow> bs1 | None \<Rightarrow> last_n NOTIFICATIONS_MAX (bs @ [b]))"

definition upsert_notification :: "banner \<Rightarrow> center \<Rightarrow> center" where
  "upsert_notification b c = c\<lparr>banners := upsert_banner b (banners c)\<rparr>"

definition remove_notification_id :: "pystring \<Rightarrow> center \<Rightarrow> center \<times> bool" where
  "remove_notification_id nid c =
     (let bs = filter (\<lambda>b. bn_id b \<noteq> nid) (banners c)
      in (c\<lparr>banners := bs\<rparr>, length bs \<noteq> length (banners c)))"

definition push_notification :: "banner_env \<Rightarrow> pyval \<Rightarrow> center \<Rightarrow> center" where
  "push_notification env data c =
     (case normalize_notification env data of
        None \<Rightarrow> c
      | Some b \<Rightarrow> if bn_id b \<in> dismissed_ids c then c else upsert_notification b c)"

definition has_prefix :: "pystring \<Rightarrow> pystring \<Rightarrow> bool" where
  "has_prefix p s \<longleftrightarrow> take (length p) s = p"

definition is_raw_alarm :: "banner \<Rightarrow> bool" where
  "is_raw_alarm b \<longleftrightarrow> has_prefix (py ''victron-N/'') (bn_id b) \<or> has_prefix (py ''victron-alarm-'') (bn_id b)"

definition is_platform :: "banner \<Rightarrow> bool" where
  "is_platform b \<longleftrightarrow> has_prefix platform_prefix (bn_id b)"

definition activate_platform :: "center \<Rightarrow> center" where
  "activate_platform c = c\<lparr>platform_seen := True, banners := filter (\<lambda>b. \<not> is_raw_alarm b) (banners c)\<rparr>"

text \<open>The end of both handlers of slots: the banners of the slots are taken out and put in again.\<close>

definition show_slots :: "banner_env \<Rightarrow> center \<Rightarrow> center" where
  "show_slots env c =
     fold upsert_notification (notifications_from_platform_slots env (slots c))
       (c\<lparr>banners := filter (\<lambda>b. \<not> is_platform b) (banners c)\<rparr>)"

definition sync_platform_from_snapshot :: "banner_env \<Rightarrow> pyval \<Rightarrow> center \<Rightarrow> center \<times> bool" where
  "sync_platform_from_snapshot env platform_leaves c =
     (case platform_leaves of
        PyDict kvs \<Rightarrow>
          let c1 = c\<lparr>slots := sync_platform_map env (slots c) kvs\<rparr>;
              c2 = show_slots env (if slots c1 \<noteq> [] then activate_platform c1 else c1)
          in (c2, banners c \<noteq> banners c2)
      | _ \<Rightarrow> (c, False))"

definition clear_native_state :: "center \<Rightarrow> center" where
  "clear_native_state c =
     c\<lparr>slots := map (\<lambda>(k, s). (k, blank_slot\<lparr>user_dismissed := True, last_valid_date_time := last_valid_date_time s\<rparr>))
         (filter (\<lambda>(k, s). user_dismissed s) (slots c)),
       platform_seen := False,
       alarm_values := [],
       banners := filter (\<lambda>b. \<not> is_raw_alarm b \<and> \<not> is_platform b) (banners c)\<rparr>"

text \<open>The key and the value of a packet that is accepted; the JSON numbers of the payload have been read
  by the \<open>parse_float\<close> of its field.\<close>

definition platform_report :: "banner_env \<Rightarrow> pystring \<Rightarrow> packet \<Rightarrow> (pystring \<times> pyval) option" where
  "platform_report env topic payload =
     (case split_on 0x2F topic of
        n # portal # platform # rest \<Rightarrow>
          if length rest \<noteq> 4 \<or> n \<noteq> py ''N'' \<or> platform \<noteq> py ''platform'' then None
          else
            (case parse_platform_leaf_key (join_slash rest) of
               None \<Rightarrow> None
             | Some (k, field) \<Rightarrow>
                 (case (case payload of
                          Empty \<Rightarrow> Some PyNone
                        | Malformed \<Rightarrow> None
                        | Parsed (PyDict kvs) \<Rightarrow> map_of kvs (py ''value'')
                        | Parsed raw \<Rightarrow> Some raw) of
                    None \<Rightarrow> None
                  | Some v \<Rightarrow> if valid_platform_value env field v then Some (join_slash rest, v) else None))
      | _ \<Rightarrow> None)"

definition handle_platform_notification :: "banner_env \<Rightarrow> pystring \<Rightarrow> packet \<Rightarrow> center \<Rightarrow> center \<times> bool" where
  "handle_platform_notification env topic payload c =
     (case platform_report env topic payload of
        None \<Rightarrow> (c, False)
      | Some (key, v) \<Rightarrow>
          let c1 = activate_platform c;
              c2 = show_slots env (c1\<lparr>slots := apply_platform_field env key v (slots c1)\<rparr>)
          in (c2, banners c \<noteq> banners c2))"

definition dismissed_slot :: "pystring \<Rightarrow> slot_map \<Rightarrow> slot_key option" where
  "dismissed_slot nid ss =
     (case rcut 0x2D (drop (length platform_prefix) nid) of
        (inst, found, digits) \<Rightarrow>
          if \<not> found then None
          else case int_of_text digits of
              None \<Rightarrow> None
            | Some i \<Rightarrow> if i < 0 \<or> map_of ss (inst, nat i) = None then None else Some (inst, nat i))"

definition MAX_DISMISSED :: nat where
  "MAX_DISMISSED = 200"

definition dismiss_notification :: "banner_env \<Rightarrow> pystring \<Rightarrow> center \<Rightarrow> center \<times> bool" where
  "dismiss_notification env nid c =
     (if nid = [] then (c, False)
      else
        let (c1, changed) = remove_notification_id nid c in
        if has_prefix platform_prefix nid then
          (case dismissed_slot nid (slots c1) of
             None \<Rightarrow> (c1, changed)
           | Some k \<Rightarrow> (c1\<lparr>slots := AList.update k (find_slot (slots c1) k\<lparr>user_dismissed := True\<rparr>) (slots c1)\<rparr>, True))
        else
          let ids = insert nid (dismissed_ids c1)
          in (c1\<lparr>dismissed_ids := (if card ids > MAX_DISMISSED then set (last_n MAX_DISMISSED (set_order env ids)) else ids)\<rparr>,
              changed))"

section \<open>Raw alarms\<close>

text \<open>\<open>str.upper\<close>, \<open>str.isupper\<close> and \<open>str.islower\<close> on a character, for the letters of ASCII.\<close>

definition is_upper_char :: "nat \<Rightarrow> bool" where
  "is_upper_char c \<longleftrightarrow> 0x41 \<le> c \<and> c \<le> 0x5A"

definition is_lower_char :: "nat \<Rightarrow> bool" where
  "is_lower_char c \<longleftrightarrow> 0x61 \<le> c \<and> c \<le> 0x7A"

definition capitalize :: "pystring \<Rightarrow> pystring" where
  "capitalize s = (case s of [] \<Rightarrow> [] | c # t \<Rightarrow> (if is_lower_char c then c - 0x20 else c) # t)"

fun split_camel :: "pystring \<Rightarrow> pystring \<Rightarrow> pystring list" where
  "split_camel current [] = (if current \<noteq> [] then [current] else [])"
| "split_camel current (c # s) =
     (if is_upper_char c \<and> current \<noteq> [] \<and> is_lower_char (last current) then current # split_camel [c] s
      else if c \<in> {0x5F, 0x2D, 0x20} then (if current \<noteq> [] then current # split_camel [] s else split_camel [] s)
      else split_camel (current @ [c]) s)"

fun join_space :: "pystring list \<Rightarrow> pystring" where
  "join_space [] = []"
| "join_space [s] = s"
| "join_space (s # t # ss) = s @ 0x20 # join_space (t # ss)"

definition pretty_alarm_name :: "pystring \<Rightarrow> pystring" where
  "pretty_alarm_name s = join_space (map capitalize (split_camel [] s))"

definition pretty_service_name :: "pystring \<Rightarrow> pystring" where
  "pretty_service_name s =
     (case rcut 0x5F s of (before, _, inst) \<Rightarrow>
        if before \<noteq> [] \<and> all_digits inst then capitalize before @ py '' '' @ inst else capitalize s)"

definition parse_alarm_leaf_key :: "pystring \<Rightarrow> pystring \<Rightarrow> (pystring \<times> pystring) option" where
  "parse_alarm_leaf_key bucket key =
     (case split_on 0x2F key of
        inst # word # name1 # rest \<Rightarrow>
          if word \<noteq> py ''Alarms'' \<or> inst = [] \<or> join_slash (name1 # rest) = [] then None
          else Some (bucket @ py ''_'' @ inst, join_slash (name1 # rest))
      | _ \<Rightarrow> None)"

definition alarm_id :: "pystring \<Rightarrow> pystring \<Rightarrow> pystring" where
  "alarm_id service_id alarm = py ''victron-alarm-'' @ service_id @ py ''-'' @ alarm"

text \<open>The dictionary of an alarm at level 1 or 2; a LAN alarm has no \<open>ts\<close>.\<close>

definition alarm_data :: "pystring \<Rightarrow> pystring \<Rightarrow> pystring \<Rightarrow> int \<Rightarrow> (pystring \<times> pyval) list" where
  "alarm_data nid service alarm v =
     [(py ''id'', PyStr nid),
      (py ''level'', if v = 2 then pylit ''alarm'' else pylit ''warning''),
      (py ''title'', PyStr (pretty_service_name service)),
      (py ''body'', PyStr (pretty_alarm_name alarm @ py '': '' @ (if v = 2 then py ''Alarm'' else py ''Warning''))),
      (py ''source'', pylit ''victron'')]"

definition alarm_notification :: "pystring \<Rightarrow> pystring \<Rightarrow> int \<Rightarrow> pyval option" where
  "alarm_notification service_id alarm v =
     (if v \<notin> {1, 2} then None
      else Some (PyDict (alarm_data (alarm_id service_id alarm) service_id alarm v @ [(py ''ts'', PyStr [])])))"

definition known_alarm :: "center \<Rightarrow> pystring \<Rightarrow> int" where
  "known_alarm c topic = (case map_of (alarm_values c) topic of None \<Rightarrow> 0 | Some v \<Rightarrow> v)"

definition igw_topic :: "pystring \<Rightarrow> pystring \<Rightarrow> pystring" where
  "igw_topic bucket key = py ''igw/'' @ bucket @ py ''/'' @ key"

definition sync_alarm_leaf :: "banner_env \<Rightarrow> pystring \<Rightarrow> pystring \<Rightarrow> pyval \<Rightarrow> center \<Rightarrow> center \<times> bool" where
  "sync_alarm_leaf env bucket key raw c =
     (case parse_alarm_leaf_key bucket key of
        None \<Rightarrow> (c, False)
      | Some (service_id, alarm) \<Rightarrow>
          (case alarm_value env (unwrap raw) of
             None \<Rightarrow> (c, False)
           | Some v \<Rightarrow>
               if known_alarm c (igw_topic bucket key) = v then (c, False)
               else
                 let c1 = c\<lparr>alarm_values := AList.update (igw_topic bucket key) v (alarm_values c)\<rparr>
                 in if v \<notin> {1, 2} then remove_notification_id (alarm_id service_id alarm) c1
                    else case alarm_notification service_id alarm v of
                        Some data \<Rightarrow> (push_notification env data c1, True)
                      | None \<Rightarrow> (c1, False)))"

definition prune_alarm :: "pystring set \<Rightarrow> pystring \<Rightarrow> center \<times> bool \<Rightarrow> center \<times> bool" where
  "prune_alarm present topic cc =
     (case cc of (c, changed) \<Rightarrow>
        if \<not> has_prefix (py ''igw/'') topic \<or> topic \<in> present then (c, changed)
        else
          let c1 = c\<lparr>alarm_values := AList.delete topic (alarm_values c)\<rparr>;
              (bucket, _, key) = cut 0x2F (snd (snd (cut 0x2F topic)))
          in case parse_alarm_leaf_key bucket key of
               None \<Rightarrow> (c1, changed)
             | Some (service_id, alarm) \<Rightarrow>
                 (case remove_notification_id (alarm_id service_id alarm) c1 of (c2, removed) \<Rightarrow> (c2, removed \<or> changed)))"

definition prune_snapshot_alarms :: "pystring set \<Rightarrow> center \<Rightarrow> center \<times> bool" where
  "prune_snapshot_alarms present c = fold (prune_alarm present) (map fst (alarm_values c)) (c, False)"

definition sync_bucket ::
  "banner_env \<Rightarrow> pyval \<Rightarrow> pystring \<Rightarrow> center \<times> bool \<times> pystring set \<Rightarrow> center \<times> bool \<times> pystring set" where
  "sync_bucket env snap bucket = (\<lambda>(c, changed, present).
     case (case map_of (py_items snap) bucket of None \<Rightarrow> PyDict [] | Some v \<Rightarrow> v) of
       PyDict leaves \<Rightarrow>
         fold (\<lambda>(key, raw) (c, changed, present).
             let (c1, changed1) = sync_alarm_leaf env bucket key raw c
             in (c1, changed1 \<or> changed,
                 if parse_alarm_leaf_key bucket key \<noteq> None then insert (igw_topic bucket key) present else present))
           leaves (c, changed, present)
     | _ \<Rightarrow>
         (c, changed, present \<union> set (filter (has_prefix (igw_topic bucket [])) (map fst (alarm_values c)))))"

definition sync_alarms_from_snapshot :: "banner_env \<Rightarrow> pyval \<Rightarrow> center \<Rightarrow> center \<times> bool" where
  "sync_alarms_from_snapshot env snap c =
     (if platform_seen c then (c, False)
      else case sync_bucket env snap (py ''vebus'') (sync_bucket env snap (py ''battery'') (c, False, {})) of
          (c1, changed, present) \<Rightarrow>
            (case prune_snapshot_alarms present c1 of (c2, lost) \<Rightarrow> (c2, lost \<or> changed)))"

text \<open>The end of \<open>apply_snapshot\<close> in \<open>gateway.py\<close>.\<close>

definition snapshot_banners :: "banner_env \<Rightarrow> pyval \<Rightarrow> center \<Rightarrow> center" where
  "snapshot_banners env snap c =
     fst (sync_alarms_from_snapshot env snap
       (fst (sync_platform_from_snapshot env (py_get snap ''platform'' (PyDict [])) c)))"

text \<open>A packet about an alarm.\<close>

definition alarm_service :: "pystring list \<Rightarrow> pystring" where
  "alarm_service parts =
     (let service = (if length parts > 4 then parts ! 2 else py ''device'')
      in if length parts > 5 \<and> parts ! 3 \<noteq> py ''Alarms'' then service @ py ''_'' @ parts ! 3 else service)"

definition handle_alarm :: "banner_env \<Rightarrow> pystring \<Rightarrow> packet \<Rightarrow> center \<Rightarrow> center \<times> bool" where
  "handle_alarm env topic payload c =
     (case (case payload of
              Empty \<Rightarrow> Some PyNone
            | Parsed (PyDict kvs) \<Rightarrow> map_of kvs (py ''value'')
            | _ \<Rightarrow> None) of
        None \<Rightarrow> (c, False)
      | Some val \<Rightarrow>
          (case alarm_value env val of
             None \<Rightarrow> (c, False)
           | Some v \<Rightarrow>
               if known_alarm c topic = v then (c, False)
               else
                 let c1 = c\<lparr>alarm_values := AList.update topic v (alarm_values c)\<rparr>;
                     nid = py ''victron-'' @ topic;
                     parts = split_on 0x2F topic
                 in if v \<notin> {1, 2} then remove_notification_id nid c1
                    else (push_notification env (PyDict (alarm_data nid (alarm_service parts) (last parts) v)) c1, True)))"

text \<open>The two branches of \<open>_apply_native_message\<close> that concern banners.\<close>

definition apply_native_banner :: "banner_env \<Rightarrow> pystring \<Rightarrow> packet \<Rightarrow> center \<Rightarrow> center \<times> bool" where
  "apply_native_banner env topic payload c =
     (if contains (py ''/platform/'') topic \<and> contains (py ''/Notifications/'') topic
      then handle_platform_notification env topic payload c
      else if contains (py ''/Alarms/'') topic
      then (if platform_seen c then (c, False) else handle_alarm env topic payload c)
      else (c, False))"

end
