(* ===== verification/BannerDisplay.thy ===== *)
theory BannerDisplay
  imports BannerNotifications
begin

text \<open>
  What the dashboard shows: the identities of the slots, the list that an event of the device leaves,
  and the invariant of the banners. A list of banners is bounded by dropping its oldest, so what a
  handler shows is stated as the last hundred of a list.
\<close>

section \<open>The last elements of a list\<close>

lemma last_n_rev: "last_n n xs = rev (take n (rev xs))"
  by (simp add: last_n_def rev_take)

lemma length_last_n: "length (last_n n xs) \<le> n"
  by (simp add: last_n_def)

lemma last_n_id [simp]: "length xs \<le> n \<Longrightarrow> last_n n xs = xs"
  by (simp add: last_n_def)

lemma last_n_append: "last_n n (last_n n xs @ ys) = last_n n (xs @ ys)"
  by (simp add: last_n_rev take_append min_def)

lemma set_last_n: "x \<in> set (last_n n xs) \<Longrightarrow> x \<in> set xs"
  unfolding last_n_def by (rule in_set_dropD)

lemma distinct_last_n: "distinct (map f xs) \<Longrightarrow> distinct (map f (last_n n xs))"
  unfolding last_n_def by (simp add: drop_map [symmetric])

section \<open>Inserting\<close>

lemma replace_banner_None_iff: "replace_banner b bs = None \<longleftrightarrow> bn_id b \<notin> bn_id ` set bs"
  by (induction bs) auto

lemma replace_banner_Some:
  "replace_banner b bs = Some bs1 \<Longrightarrow> map bn_id bs1 = map bn_id bs \<and> set bs1 \<subseteq> insert b (set bs)"
  by (induction bs arbitrary: bs1) (auto split: if_splits)

lemma upsert_new: "bn_id b \<notin> bn_id ` set bs \<Longrightarrow> upsert_banner b bs = last_n NOTIFICATIONS_MAX (bs @ [b])"
  by (simp add: upsert_banner_def replace_banner_None_iff [THEN iffD2])

lemma set_upsert: "x \<in> set (upsert_banner b bs) \<Longrightarrow> x = b \<or> x \<in> set bs"
  by (auto simp: upsert_banner_def dest!: replace_banner_Some set_last_n split: option.splits)

lemma upsert_bounded: "length bs \<le> NOTIFICATIONS_MAX \<Longrightarrow> length (upsert_banner b bs) \<le> NOTIFICATIONS_MAX"
  by (auto simp: upsert_banner_def length_last_n dest!: replace_banner_Some arg_cong [of "map bn_id _" _ length] split: option.splits)

lemma upsert_distinct: "distinct (map bn_id bs) \<Longrightarrow> distinct (map bn_id (upsert_banner b bs))"
proof (cases "replace_banner b bs")
  case None
  then have "bn_id b \<notin> bn_id ` set bs" by (simp add: replace_banner_None_iff)
  moreover assume "distinct (map bn_id bs)"
  ultimately show ?thesis by (simp add: upsert_new distinct_last_n)
next
  case (Some bs1)
  assume "distinct (map bn_id bs)"
  with Some replace_banner_Some [OF Some] show ?thesis by (simp add: upsert_banner_def)
qed

lemma upsert_all:
  assumes "distinct (map bn_id ns)" and "bn_id ` set ns \<inter> bn_id ` set bs = {}" and "length bs \<le> NOTIFICATIONS_MAX"
  shows "fold upsert_banner ns bs = last_n NOTIFICATIONS_MAX (bs @ ns)"
  using assms
proof (induction ns arbitrary: bs)
  case (Cons b ns)
  let ?bs = "last_n NOTIFICATIONS_MAX (bs @ [b])"
  from Cons.prems have new: "bn_id b \<notin> bn_id ` set bs" by auto
  have "bn_id ` set ns \<inter> bn_id ` set ?bs = {}"
  proof -
    have "set ?bs \<subseteq> insert b (set bs)" by (auto dest: set_last_n)
    then have "bn_id ` set ?bs \<subseteq> insert (bn_id b) (bn_id ` set bs)" by blast
    moreover from Cons.prems(1,2) have "bn_id ` set ns \<inter> insert (bn_id b) (bn_id ` set bs) = {}" by simp
    ultimately show ?thesis by blast
  qed
  with Cons.IH [of ?bs] Cons.prems(1) have "fold upsert_banner ns ?bs = last_n NOTIFICATIONS_MAX (?bs @ ns)"
    by (simp add: length_last_n)
  with new show ?case by (simp add: upsert_new last_n_append)
qed simp

lemma fold_upsert_notification:
  "fold upsert_notification ns c = c\<lparr>banners := fold upsert_banner ns (banners c)\<rparr>"
  by (induction ns arbitrary: c) (simp_all add: upsert_notification_def)

section \<open>The identity of a slot\<close>

definition slot_key_ok :: "slot_key \<Rightarrow> bool" where
  "slot_key_ok k \<longleftrightarrow> all_digits (fst k) \<and> snd k \<le> 20"

definition slots_ok :: "slot_map \<Rightarrow> bool" where
  "slots_ok ss \<longleftrightarrow> distinct (map fst ss) \<and> list_all slot_key_ok (map fst ss)"

lemma slots_ok_Nil [simp]: "slots_ok []"
  by (simp add: slots_ok_def)

lemma decimal_append: "decimal (s @ [c]) = 10 * decimal s + (c - 0x30)"
  by (simp add: decimal_def)

lemma decimal_nat_digits: "decimal (nat_digits n) = n"
proof (induction n rule: less_induct)
  case (less n)
  show ?case
  proof (cases "n < 10")
    case True
    then show ?thesis by (subst nat_digits.simps) (simp add: decimal_def)
  next
    case False
    then have "n div 10 < n" by simp
    from less.IH [OF this] False show ?thesis
      by (subst nat_digits.simps) (simp add: decimal_append)
  qed
qed

lemma has_prefix_append [simp]: "has_prefix p (p @ s)"
  by (simp add: has_prefix_def)

lemma slot_id_platform [simp]: "has_prefix platform_prefix (slot_id k)"
  by (simp add: slot_id_def)

lemma takeWhile_dash: "list_all is_num s \<Longrightarrow> takeWhile (\<lambda>c. c \<noteq> 0x2D) (s @ 0x2D # t) = s"
  by (induction s) (auto simp: is_num_def)

lemma slot_id_inject:
  assumes "slot_key_ok k" and "slot_key_ok k1" and "slot_id k = slot_id k1"
  shows "k = k1"
proof -
  let ?tail = "\<lambda>k. fst k @ 0x2D # nat_digits (snd k)"
  have "?tail k = ?tail k1" using assms(3) by (simp add: slot_id_def py_def)
  moreover from assms have digits: "list_all is_num (fst k)" "list_all is_num (fst k1)"
    by (simp_all add: slot_key_ok_def all_digits_def)
  ultimately have "fst k = fst k1" using takeWhile_dash by metis
  with \<open>?tail k = ?tail k1\<close> have "nat_digits (snd k) = nat_digits (snd k1)" by simp
  then have "snd k = snd k1" by (metis decimal_nat_digits)
  with \<open>fst k = fst k1\<close> show ?thesis by (simp add: prod_eq_iff)
qed

lemma parse_platform_key_ok: "parse_platform_leaf_key key = Some (k, f) \<Longrightarrow> slot_key_ok k"
  by (auto simp: parse_platform_leaf_key_def slot_key_ok_def split: list.splits if_splits)

lemma find_slot_update [simp]:
  "find_slot (AList.update k s ss) k1 = (if k1 = k then s else find_slot ss k1)"
  by (simp add: find_slot_def update_conv')

lemma slots_ok_update: "slots_ok ss \<Longrightarrow> slot_key_ok k \<Longrightarrow> slots_ok (AList.update k s ss)"
  by (auto simp: slots_ok_def distinct_update dom_update list_all_iff)

lemma apply_platform_field_ok: "slots_ok ss \<Longrightarrow> slots_ok (apply_platform_field env key v ss)"
  by (auto simp: apply_platform_field_def slots_ok_update parse_platform_key_ok split: option.splits)

lemma rebuilt_slots_ok: "slots_ok (rebuilt_slots env leaves)"
proof -
  have "slots_ok ss \<Longrightarrow> slots_ok (fold (\<lambda>(key, raw). apply_platform_field env key (unwrap raw)) leaves ss)" for ss
    by (induction leaves arbitrary: ss) (auto simp: apply_platform_field_ok)
  then show ?thesis by (simp add: rebuilt_slots_def slots_ok_def)
qed

lemma sync_platform_map_ok: "slots_ok (sync_platform_map env old leaves)"
proof -
  have "map fst (sync_platform_map env old leaves) = map fst (rebuilt_slots env leaves)"
    by (simp add: sync_platform_map_def case_prod_beta comp_def)
  with rebuilt_slots_ok show ?thesis by (simp add: slots_ok_def)
qed

text \<open>The banners that the slots give.\<close>

lemma set_map_filter: "set (List.map_filter f xs) = {y. \<exists>x \<in> set xs. f x = Some y}"
  by (force simp: List.map_filter_def)

lemma slot_banner_id: "slot_to_notification env k s = Some b \<Longrightarrow> bn_id b = slot_id k"
  by (auto simp: slot_to_notification_def split: if_splits)

lemma shown_slots:
  "b \<in> set (notifications_from_platform_slots env ss)
     \<longleftrightarrow> (\<exists>k s. (k, s) \<in> set ss \<and> slot_to_notification env k s = Some b)"
  by (force simp: notifications_from_platform_slots_def set_map_filter)

lemma distinct_map_filter_ids:
  assumes "distinct (map fst xs)" and "inj_on f (fst ` set xs)" and "\<And>x b. x \<in> set xs \<Longrightarrow> g x = Some b \<Longrightarrow> h b = f (fst x)"
  shows "distinct (map h (List.map_filter g xs))"
  using assms
proof (induction xs)
  case (Cons x xs)
  show ?case
  proof (cases "g x")
    case None
    with Cons show ?thesis by (auto simp: map_filter_simps inj_on_def)
  next
    case (Some b)
    have "h b \<noteq> h b1" if "b1 \<in> set (List.map_filter g xs)" for b1
    proof -
      from that obtain y where y: "y \<in> set xs" "g y = Some b1" by (auto simp: set_map_filter)
      with Cons.prems(1) have "fst x \<noteq> fst y" by (auto simp: image_iff)
      with Cons.prems(2) y(1) have "f (fst x) \<noteq> f (fst y)" by (auto simp: inj_on_def)
      with Cons.prems(3) [of x b] Cons.prems(3) [of y b1] Some y show ?thesis by simp
    qed
    with Some Cons show ?thesis by (auto simp: map_filter_simps inj_on_def)
  qed
qed (simp add: map_filter_simps)

lemma distinct_slot_ids: "slots_ok ss \<Longrightarrow> distinct (map bn_id (notifications_from_platform_slots env ss))"
proof -
  assume ok: "slots_ok ss"
  have "mset (map fst (sort_key fst ss)) = mset (map fst ss)" by simp
  with ok have distinct: "distinct (map fst (sort_key fst ss))"
    unfolding slots_ok_def by (metis mset_eq_imp_distinct_iff)
  have "inj_on slot_id (fst ` set (sort_key fst ss))"
    using ok unfolding slots_ok_def list_all_iff set_sort set_map
    by (intro inj_onI slot_id_inject) blast+
  with distinct show ?thesis
    unfolding notifications_from_platform_slots_def
    by (rule distinct_map_filter_ids) (auto simp: slot_banner_id)
qed

section \<open>What is shown after an event of the device\<close>

lemma show_slots_rest [simp]:
  "slots (show_slots env c) = slots c" "platform_seen (show_slots env c) = platform_seen c"
  "alarm_values (show_slots env c) = alarm_values c" "dismissed_ids (show_slots env c) = dismissed_ids c"
  by (simp_all add: show_slots_def fold_upsert_notification)

lemma show_slots_banners:
  assumes "slots_ok (slots c)" and "length (banners c) \<le> NOTIFICATIONS_MAX"
  shows "banners (show_slots env c) = last_n NOTIFICATIONS_MAX
    (filter (\<lambda>b. \<not> is_platform b) (banners c) @ notifications_from_platform_slots env (slots c))"
proof -
  have "bn_id ` set (notifications_from_platform_slots env (slots c))
      \<inter> bn_id ` set (filter (\<lambda>b. \<not> is_platform b) (banners c)) = {}"
    by (auto simp: shown_slots is_platform_def dest!: slot_banner_id) (metis slot_id_platform)
  moreover from assms(2) have "length (filter (\<lambda>b. \<not> is_platform b) (banners c)) \<le> NOTIFICATIONS_MAX"
    using length_filter_le order_trans by blast
  ultimately show ?thesis
    using distinct_slot_ids [OF assms(1)]
    by (simp add: show_slots_def fold_upsert_notification upsert_all)
qed

end
