(* ===== verification/BannerHistory.thy ===== *)
theory BannerHistory
  imports BannerDisplay
begin

text \<open>
  The banners over time: every event that changes them, the invariant that all histories keep, and how
  the banners of the slots and of the raw alarms follow the device.
\<close>

datatype banner_event =
    NativeBanner pystring packet
  | SnapshotBanners pyval
  | ControllerNotice pyval
  | BannerDismissed pystring
  | NativeSessionEnded

fun banner_step :: "banner_env \<Rightarrow> banner_event \<Rightarrow> center \<Rightarrow> center" where
  "banner_step env (NativeBanner topic payload) c = fst (apply_native_banner env topic payload c)"
| "banner_step env (SnapshotBanners snap) c = snapshot_banners env snap c"
| "banner_step env (ControllerNotice data) c = push_notification env data c"
| "banner_step env (BannerDismissed nid) c = fst (dismiss_notification env nid c)"
| "banner_step env NativeSessionEnded c = clear_native_state c"

inductive banner_history :: "banner_env \<Rightarrow> center \<Rightarrow> banner_event list \<Rightarrow> bool" for env where
  no_banner: "banner_history env center_init []"
| happened: "banner_history env c hist \<Longrightarrow> banner_history env (banner_step env ev c) (hist @ [ev])"

section \<open>Operations as changes of the list\<close>

text \<open>The ways in which an operation can change the banners: by leaving some out, by a push, or by
  showing the slots anew. Everything below goes through these.\<close>

definition banner_ok :: "banner \<Rightarrow> bool" where
  "banner_ok b \<longleftrightarrow> bn_id b \<noteq> [] \<and> bn_level b \<in> levels"

definition center_ok :: "center \<Rightarrow> bool" where
  "center_ok c \<longleftrightarrow> slots_ok (slots c)
     \<and> distinct (map bn_id (banners c)) \<and> length (banners c) \<le> NOTIFICATIONS_MAX
     \<and> (\<forall>b \<in> set (banners c). banner_ok b \<and> bn_id b \<notin> dismissed_ids c)
     \<and> finite (dismissed_ids c) \<and> card (dismissed_ids c) \<le> MAX_DISMISSED
     \<and> (\<forall>nid \<in> dismissed_ids c. \<not> has_prefix platform_prefix nid)"

lemma center_ok_filter: "center_ok c \<Longrightarrow> center_ok (c\<lparr>banners := filter P (banners c)\<rparr>)"
  by (auto simp: center_ok_def distinct_map_filter intro: order_trans [OF length_filter_le])

lemma center_ok_slots: "center_ok c \<Longrightarrow> slots_ok (slots c)"
  by (simp add: center_ok_def)

lemma slots_update_ok: "center_ok c \<Longrightarrow> slots_ok ss \<Longrightarrow> center_ok (c\<lparr>slots := ss\<rparr>)"
  by (simp add: center_ok_def)

lemma center_ok_irrelevant [simp]:
  "center_ok (c\<lparr>alarm_values := vals\<rparr>) = center_ok c" "center_ok (c\<lparr>platform_seen := found\<rparr>) = center_ok c"
  by (simp_all add: center_ok_def)

lemma normalize_ok: "normalize_notification env data = Some b \<Longrightarrow> banner_ok b"
  by (auto simp: normalize_notification_def banner_ok_def levels_def Let_def split: if_splits)

lemma slot_banner_ok: "slot_to_notification env k s = Some b \<Longrightarrow> banner_ok b"
  by (auto simp: slot_to_notification_def banner_ok_def levels_def slot_level_def slot_id_def platform_prefix_def
      split: if_splits)

lemma push_ok: "center_ok c \<Longrightarrow> center_ok (push_notification env data c)"
  by (auto simp: push_notification_def upsert_notification_def center_ok_def upsert_distinct upsert_bounded
      dest!: normalize_ok set_upsert split: option.splits)

lemma remove_ok: "center_ok c \<Longrightarrow> center_ok (fst (remove_notification_id nid c))"
  by (simp add: remove_notification_id_def Let_def center_ok_filter)

lemma show_slots_ok:
  assumes "center_ok c"
  shows "center_ok (show_slots env c)"
proof -
  let ?old = "filter (\<lambda>b. \<not> is_platform b) (banners c)" and ?new = "notifications_from_platform_slots env (slots c)"
  from assms have ok: "slots_ok (slots c)" "length (banners c) \<le> NOTIFICATIONS_MAX" by (simp_all add: center_ok_def)
  note shown = show_slots_banners [OF ok, of env]
  have platform: "b \<in> set ?new \<Longrightarrow> has_prefix platform_prefix (bn_id b) \<and> banner_ok b" for b
    by (auto simp: shown_slots dest: slot_banner_ok slot_banner_id)
  then have fresh: "b \<in> set ?new \<Longrightarrow> bn_id b \<notin> dismissed_ids c" for b
    using assms by (auto simp: center_ok_def)
  have "distinct (map bn_id (?old @ ?new))"
    using assms distinct_slot_ids [OF ok(1), of env] platform
    by (auto simp: center_ok_def distinct_map_filter is_platform_def)
  with assms shown platform fresh show ?thesis
    by (auto simp: center_ok_def length_last_n distinct_last_n is_platform_def dest!: set_last_n)
qed

lemma activate_ok: "center_ok c \<Longrightarrow> slots_ok ss \<Longrightarrow> center_ok (activate_platform (c\<lparr>slots := ss\<rparr>))"
  using center_ok_filter [OF slots_update_ok, of c ss "\<lambda>b. \<not> is_raw_alarm b"]
  by (simp add: activate_platform_def center_ok_def)

lemma activate_slots: "(activate_platform c)\<lparr>slots := ss\<rparr> = activate_platform (c\<lparr>slots := ss\<rparr>)"
  by (simp add: activate_platform_def)

lemma slots_activate [simp]: "slots (activate_platform c) = slots c"
  by (simp add: activate_platform_def)

lemma sync_platform_ok: "center_ok c \<Longrightarrow> center_ok (fst (sync_platform_from_snapshot env leaves c))"
  using sync_platform_map_ok [of env "slots c"]
  by (cases leaves)
     (auto simp: sync_platform_from_snapshot_def Let_def show_slots_ok activate_ok slots_update_ok)

lemma handle_platform_fst:
  "fst (handle_platform_notification env topic payload c) =
     (case platform_report env topic payload of
        None \<Rightarrow> c
      | Some (key, v) \<Rightarrow> show_slots env (activate_platform (c\<lparr>slots := apply_platform_field env key v (slots c)\<rparr>)))"
  by (simp add: handle_platform_notification_def Let_def activate_slots split: option.split)

lemma handle_platform_ok: "center_ok c \<Longrightarrow> center_ok (fst (handle_platform_notification env topic payload c))"
  by (auto simp: handle_platform_fst show_slots_ok activate_ok apply_platform_field_ok center_ok_slots split: option.split)

lemma handle_alarm_ok: "center_ok c \<Longrightarrow> center_ok (fst (handle_alarm env topic payload c))"
  by (auto simp: handle_alarm_def Let_def remove_ok push_ok split: option.splits)

text \<open>The contract of what holds of the banners whatever raw alarms do: it survives that one is taken away,
  remembered, or, while no slot has been seen, shown under the id of a raw alarm.\<close>

definition raw_alarm_id :: "pystring \<Rightarrow> bool" where
  "raw_alarm_id nid \<longleftrightarrow> has_prefix (py ''victron-N/'') nid \<or> has_prefix (py ''victron-alarm-'') nid"

lemma raw_alarm_ids:
  "raw_alarm_id (alarm_id service_id alarm)"
  "has_prefix (py ''N/'') topic \<Longrightarrow> raw_alarm_id (py ''victron-'' @ topic)"
  by (auto simp: raw_alarm_id_def alarm_id_def has_prefix_def py_def)

locale alarm_contract =
  fixes env :: banner_env and P :: "center \<Rightarrow> bool"
  assumes removes: "P c \<Longrightarrow> P (fst (remove_notification_id nid c))"
    and remembers: "P c \<Longrightarrow> P (c\<lparr>alarm_values := vals\<rparr>)"
    and raises: "\<not> platform_seen c \<Longrightarrow> P c \<Longrightarrow> raw_alarm_id nid
      \<Longrightarrow> P (push_notification env (PyDict (alarm_data nid service alarm v @ rest)) c)"
begin

lemma leaf_kept: "\<not> platform_seen c \<Longrightarrow> P c \<Longrightarrow> P (fst (sync_alarm_leaf env bucket key raw c))"
  by (auto simp: sync_alarm_leaf_def alarm_notification_def Let_def removes remembers raises raw_alarm_ids split: option.splits)

lemma packet_kept:
  "\<not> platform_seen c \<Longrightarrow> P c \<Longrightarrow> has_prefix (py ''N/'') topic \<Longrightarrow> P (fst (handle_alarm env topic payload c))"
  using raises [where rest = "[]"]
  by (auto simp: handle_alarm_def Let_def removes remembers raw_alarm_ids split: option.splits)

lemma unseen_leaf: "platform_seen (fst (sync_alarm_leaf env bucket key raw c)) = platform_seen c"
  by (auto simp: sync_alarm_leaf_def Let_def remove_notification_id_def push_notification_def upsert_notification_def
      split: option.splits)

lemma bucket_kept:
  assumes "\<not> platform_seen c" and "P c"
  shows "\<not> platform_seen (fst (sync_bucket env snap bucket (c, changed, present)))
    \<and> P (fst (sync_bucket env snap bucket (c, changed, present)))"
proof -
  let ?turn = "\<lambda>(key, raw) (c, changed, present).
    let (c1, changed1) = sync_alarm_leaf env bucket key raw c
    in (c1, changed1 \<or> changed, if parse_alarm_leaf_key bucket key \<noteq> None then insert (igw_topic bucket key) present else present)"
  have "\<not> platform_seen c \<Longrightarrow> P c \<Longrightarrow> \<not> platform_seen (fst (fold ?turn leaves (c, changed, present)))
      \<and> P (fst (fold ?turn leaves (c, changed, present)))" for leaves c changed present
  proof (induction leaves arbitrary: c changed present)
    case (Cons leaf leaves)
    obtain key raw where leaf: "leaf = (key, raw)" by fastforce
    obtain c1 changed1 where step: "sync_alarm_leaf env bucket key raw c = (c1, changed1)" by fastforce
    with leaf_kept [OF Cons.prems, of bucket key raw] unseen_leaf [of bucket key raw c] Cons.prems(1)
    have "\<not> platform_seen c1" "P c1" by simp_all
    from Cons.IH [OF this] show ?case by (simp add: leaf step)
  qed simp
  with assms show ?thesis by (simp add: sync_bucket_def split: pyval.split)
qed

lemma prune_kept: "P c \<Longrightarrow> P (fst (prune_snapshot_alarms present c))"
proof -
  have turn: "P (fst cc) \<Longrightarrow> P (fst (prune_alarm present topic cc))" for topic cc
    using removes remembers
    by (auto simp: prune_alarm_def Let_def split: prod.split option.split) (metis fst_conv)
  have "P (fst cc) \<Longrightarrow> P (fst (fold (prune_alarm present) topics cc))" for topics cc
    by (induction topics arbitrary: cc) (simp_all add: turn)
  then show "P c \<Longrightarrow> ?thesis" by (simp add: prune_snapshot_alarms_def)
qed

lemma snapshot_kept: "P c \<Longrightarrow> P (fst (sync_alarms_from_snapshot env snap c))"
proof (cases "platform_seen c")
  case False
  obtain c1 ch1 pr1 where one: "sync_bucket env snap (py ''battery'') (c, False, {}) = (c1, ch1, pr1)" by (cases rule: prod_cases3)
  obtain c2 ch2 pr2 where two: "sync_bucket env snap (py ''vebus'') (c1, ch1, pr1) = (c2, ch2, pr2)" by (cases rule: prod_cases3)
  assume "P c"
  with bucket_kept [of c snap "py ''battery''" False "{}"] False one have "\<not> platform_seen c1" "P c1" by simp_all
  with bucket_kept [of c1 snap "py ''vebus''" ch1 pr1] two have "P c2" by simp
  from prune_kept [OF this] False one two show ?thesis
    by (simp add: sync_alarms_from_snapshot_def case_prod_beta)
qed (simp add: sync_alarms_from_snapshot_def)

end

interpretation bounded: alarm_contract env center_ok for env
  by unfold_locales (simp_all add: remove_ok push_ok)

interpretation unmoved: alarm_contract env "\<lambda>c. slots c = ss" for env ss
  by unfold_locales
     (auto simp: remove_notification_id_def push_notification_def upsert_notification_def Let_def split: option.splits)

lemma snapshot_banners_ok: "center_ok c \<Longrightarrow> center_ok (snapshot_banners env snap c)"
  unfolding snapshot_banners_def by (intro bounded.snapshot_kept sync_platform_ok)

text \<open>\<open>list(s)\<close> meets every element of a set once.\<close>

definition lists_sets :: "banner_env \<Rightarrow> bool" where
  "lists_sets env \<longleftrightarrow> (\<forall>ids. finite ids \<longrightarrow> set (set_order env ids) = ids \<and> distinct (set_order env ids))"

lemma dismiss_ok:
  assumes "lists_sets env" and ok: "center_ok c"
  shows "center_ok (fst (dismiss_notification env nid c))"
proof -
  let ?c1 = "fst (remove_notification_id nid c)"
  let ?ids = "insert nid (dismissed_ids c)"
  let ?kept = "if card ?ids > MAX_DISMISSED then set (last_n MAX_DISMISSED (set_order env ?ids)) else ?ids"
  from ok have ok1: "center_ok ?c1" by (rule remove_ok)
  have gone: "banners ?c1 = filter (\<lambda>b. bn_id b \<noteq> nid) (banners c)" "dismissed_ids ?c1 = dismissed_ids c"
    "slots ?c1 = slots c"
    by (simp_all add: remove_notification_id_def Let_def)
  from ok assms(1) have kept: "?kept \<subseteq> ?ids" "card ?kept \<le> MAX_DISMISSED" "finite ?kept"
    by (auto simp: center_ok_def lists_sets_def dest!: set_last_n intro: order_trans [OF card_length length_last_n])
  show ?thesis
  proof (cases "has_prefix platform_prefix nid")
    case True
    have "slot_key_ok k" if "dismissed_slot nid (slots c) = Some k" for k
    proof -
      from that have "k \<in> fst ` set (slots c)"
        by (auto simp: dismissed_slot_def split: prod.splits if_splits option.splits dest!: map_of_SomeD)
           (metis fst_conv image_eqI map_of_SomeD option.exhaust_sel)
      with ok show ?thesis by (auto simp: center_ok_def slots_ok_def list_all_iff)
    qed
    with True ok1 gone ok show ?thesis
      by (auto simp: dismiss_notification_def Let_def case_prod_beta center_ok_slots slots_update_ok slots_ok_update
          split: option.splits)
  next
    case False
    with ok kept have "center_ok (?c1\<lparr>dismissed_ids := ?kept\<rparr>)"
      using ok1 gone unfolding center_ok_def by auto
    with False ok1 gone ok show ?thesis
      by (auto simp: dismiss_notification_def Let_def case_prod_beta)
  qed
qed

lemma clear_ok: "center_ok c \<Longrightarrow> center_ok (clear_native_state c)"
proof -
  assume ok: "center_ok c"
  let ?kept = "filter (\<lambda>(k, s). user_dismissed s) (slots c)"
  let ?blank = "\<lambda>(k, s). (k, blank_slot\<lparr>user_dismissed := True, last_valid_date_time := last_valid_date_time s\<rparr>)"
  have "map fst (map ?blank ?kept) = map fst ?kept" by (simp add: case_prod_beta comp_def)
  with ok have "slots_ok (map ?blank ?kept)"
    by (auto simp: center_ok_def slots_ok_def list_all_iff distinct_map_filter simp del: list.map_comp map_map)
  from slots_update_ok [OF center_ok_filter [OF ok] this, of "\<lambda>b. \<not> is_raw_alarm b \<and> \<not> is_platform b"]
  show ?thesis by (simp add: clear_native_state_def center_ok_def)
qed

lemma step_ok: "lists_sets env \<Longrightarrow> center_ok c \<Longrightarrow> center_ok (banner_step env ev c)"
  by (cases ev)
     (simp_all add: apply_native_banner_def handle_platform_ok handle_alarm_ok snapshot_banners_ok push_ok dismiss_ok clear_ok)

lemma init_ok: "center_ok center_init"
  by (simp add: center_init_def center_ok_def)

lemma history_ok: "lists_sets env \<Longrightarrow> banner_history env c hist \<Longrightarrow> center_ok c"
proof -
  assume "lists_sets env"
  show "banner_history env c hist \<Longrightarrow> center_ok c"
    by (induction rule: banner_history.induct) (simp_all add: init_ok step_ok \<open>lists_sets env\<close>)
qed

text \<open>C31: Whatever the device, the gateway, the controller and the users send: there are at most a
  hundred banners, their ids differ, each has an id and a known level and none is under an id among
  the remembered dismissals, of which there are at most two hundred (a dismissal that is no longer
  remembered can be overridden: lemma newest_dismissal_can_be_lost).\<close>

theorem banners_are_bounded:
  assumes "lists_sets env" and "banner_history env c hist"
  shows "length (banners c) \<le> NOTIFICATIONS_MAX \<and> distinct (map bn_id (banners c))
    \<and> (\<forall>b \<in> set (banners c). bn_id b \<noteq> [] \<and> bn_level b \<in> levels \<and> bn_id b \<notin> dismissed_ids c)
    \<and> card (dismissed_ids c) \<le> MAX_DISMISSED"
  using history_ok [OF assms] by (simp add: center_ok_def banner_ok_def)

definition demo_banner_env :: banner_env where
  "demo_banner_env = \<lparr>be_rt = demo_runtime, decimal_text = \<lambda>_. None, float_text = \<lambda>_. None,
     iso_text = \<lambda>t. nat_digits (nat t), set_order = sorted_list_of_set\<rparr>"

lemma demo_lists_sets: "lists_sets demo_banner_env"
  by (simp add: lists_sets_def demo_banner_env_def)

section \<open>Topics\<close>

lemma split_on_not_Nil [simp]: "split_on c s \<noteq> []"
  by (induction s) (auto split: list.split)

lemma split_on_append: "c \<notin> set a \<Longrightarrow> split_on c (a @ c # b) = a # split_on c b"
  by (induction a) auto

lemma join_slash_Cons: "ss \<noteq> [] \<Longrightarrow> join_slash (s # ss) = s @ 0x2F # join_slash ss"
  by (cases ss) simp_all

lemma join_slash_glue: "join_slash ((x # p) # ps) = x # join_slash (p # ps)"
  by (cases ps) simp_all

lemma join_split: "join_slash (split_on 0x2F s) = s"
proof (induction s)
  case (Cons x s)
  then show ?case
    by (cases "split_on 0x2F s") (simp_all add: join_slash_Cons join_slash_glue del: join_slash.simps(3))
qed simp

lemma contains_self: "contains s (s @ t)"
proof (cases "s @ t")
  case (Cons x u)
  have "take (length s) (s @ t) = s" by simp
  with Cons show ?thesis by simp
qed simp

lemma contains_append: "contains s t \<Longrightarrow> contains s (a @ t)"
  by (induction a) simp_all

lemma platform_report_topic:
  assumes "platform_report env topic payload = Some (key, v)"
  shows "contains (py ''/platform/'') topic \<and> contains (py ''/Notifications/'') topic"
proof -
  from assms obtain portal rest where
    split: "split_on 0x2F topic = py ''N'' # portal # py ''platform'' # rest" and key: "key = join_slash rest" "length rest = 4"
    and parsed: "parse_platform_leaf_key (join_slash rest) \<noteq> None"
    by (auto simp: platform_report_def split: list.splits if_splits option.splits)
  then have "rest \<noteq> []" by auto
  with join_split [of topic] have "topic = py ''N'' @ 0x2F # portal @ 0x2F # py ''platform'' @ 0x2F # join_slash rest"
    by (simp add: split join_slash_Cons)
  then have topic: "topic = (py ''N/'' @ portal) @ py ''/platform/'' @ join_slash rest" by (simp add: py_def)
  from parsed obtain inst slot field where "split_on 0x2F (join_slash rest) = [inst, py ''Notifications'', slot, field]"
    by (auto simp: parse_platform_leaf_key_def split: list.splits if_splits)
  with join_split [of "join_slash rest"] have "join_slash rest = inst @ py ''/Notifications/'' @ slot @ 0x2F # field"
    by (simp add: py_def)
  then have "contains (py ''/Notifications/'') (join_slash rest)"
    using contains_append [OF contains_self] by simp
  with topic contains_append [OF contains_self [of "py ''/platform/''" "join_slash rest"]] show ?thesis
    by (simp add: contains_append)
qed

section \<open>What a packet for a slot shows\<close>

lemma shown_after_report:
  assumes "lists_sets env" and "banner_history env c hist" and "platform_report env topic payload = Some (key, v)"
  shows "banners (banner_step env (NativeBanner topic payload) c) = last_n NOTIFICATIONS_MAX
    (filter (\<lambda>b. \<not> is_platform b \<and> \<not> is_raw_alarm b) (banners c)
      @ notifications_from_platform_slots env (apply_platform_field env key v (slots c)))"
proof -
  from history_ok [OF assms(1,2)] have ok: "slots_ok (apply_platform_field env key v (slots c))"
    "length (banners c) \<le> NOTIFICATIONS_MAX" by (simp_all add: center_ok_def apply_platform_field_ok)
  then have "length (filter (\<lambda>b. \<not> is_raw_alarm b) (banners c)) \<le> NOTIFICATIONS_MAX"
    using length_filter_le order_trans by blast
  with ok(1) platform_report_topic [OF assms(3)] assms(3) show ?thesis
    by (simp add: apply_native_banner_def handle_platform_fst show_slots_banners activate_platform_def conj_commute)
qed

lemma shown_Nil [simp]: "notifications_from_platform_slots env [] = []"
  by (simp add: notifications_from_platform_slots_def List.map_filter_def)

lemma slots_after_report:
  "platform_report env topic payload = Some (key, v)
    \<Longrightarrow> slots (banner_step env (NativeBanner topic payload) c) = apply_platform_field env key v (slots c)"
  using platform_report_topic by (simp add: apply_native_banner_def handle_platform_fst)

lemma history_fold:
  "banner_history env c hist \<Longrightarrow> banner_history env (fold (banner_step env) evs c) (hist @ evs)"
proof (induction evs arbitrary: c hist)
  case (Cons ev evs)
  from Cons.IH [OF banner_history.happened [OF Cons.prems]] show ?case by simp
qed simp

section \<open>An alert of a device\<close>

definition demo_packet :: "string \<Rightarrow> pyval \<Rightarrow> banner_event" where
  "demo_packet field v =
     NativeBanner (py (''N/p/platform/0/Notifications/1/'' @ field)) (Parsed (PyDict [(py ''value'', v)]))"

definition demo_alert_packets :: "banner_event list" where
  "demo_alert_packets = [demo_packet ''Type'' (PyInt 1), demo_packet ''DateTime'' (PyInt 1700000000),
     demo_packet ''Description'' (pylit ''Grid lost'')]"

definition demo_alerted :: center where
  "demo_alerted = fold (banner_step demo_banner_env) demo_alert_packets center_init"

abbreviation demo_slot :: slot_key where
  "demo_slot \<equiv> (py ''0'', 1)"

definition demo_grid :: slot where
  "demo_grid = blank_slot\<lparr>description := Some (py ''Grid lost''), notif_type := Some 1, push_type_known := True,
     date_time := Some 1700000000, last_valid_date_time := Some 1700000000\<rparr>"

definition demo_banner :: banner where
  "demo_banner = \<lparr>bn_id = slot_id demo_slot, bn_level = py ''alarm'', bn_title = py ''Grid lost'', bn_body = [],
     bn_source = py ''victron'', bn_ts = nat_digits 1700000000\<rparr>"

lemmas demo_eval = platform_report_def parse_platform_leaf_key_def PLATFORM_FIELDS_def py_def all_digits_def is_num_def
  decimal_def valid_platform_value_def alarm_value_def decimal_value_def as_bool_def

lemma demo_reports:
  "platform_report demo_banner_env (py ''N/p/platform/0/Notifications/1/Type'') (Parsed (PyDict [(py ''value'', PyInt 1)]))
     = Some (py ''0/Notifications/1/Type'', PyInt 1)"
  "platform_report demo_banner_env (py ''N/p/platform/0/Notifications/1/DateTime'') (Parsed (PyDict [(py ''value'', PyInt i)]))
     = Some (py ''0/Notifications/1/DateTime'', PyInt i)"
  "platform_report demo_banner_env (py ''N/p/platform/0/Notifications/1/Description'')
     (Parsed (PyDict [(py ''value'', pylit ''Grid lost'')])) = Some (py ''0/Notifications/1/Description'', pylit ''Grid lost'')"
  by (simp_all add: demo_eval)

lemma demo_slot_keys:
  "parse_platform_leaf_key (py ''0/Notifications/1/Type'') = Some (demo_slot, TypeCode)"
  "parse_platform_leaf_key (py ''0/Notifications/1/DateTime'') = Some (demo_slot, DateTime)"
  "parse_platform_leaf_key (py ''0/Notifications/1/Description'') = Some (demo_slot, Description)"
  by (simp_all add: demo_eval)

lemma demo_slot_values:
  "valid_platform_value demo_banner_env TypeCode (PyInt 1)"
  "as_i64 demo_banner_env (PyInt 1) = Some 1"
  "event_datetime demo_banner_env (PyInt 1700000000) = Some 1700000000"
  "stripped_str demo_banner_env (pylit ''Grid lost'') = Some (py ''Grid lost'')"
  by (simp_all add: demo_eval as_i64_def event_datetime_def LAST_SECOND_def is_integer_def stripped_str_def strip_def is_space_def)

lemma demo_shows: "slot_to_notification demo_banner_env demo_slot demo_grid = Some demo_banner"
  by (simp add: slot_to_notification_def slot_should_show_def slot_level_def slot_text_def blank_slot_def strip_def is_space_def
      py_def demo_banner_env_def demo_grid_def demo_banner_def)

lemma demo_one:
  assumes "banner_history demo_banner_env c hist" and "banners c = []" and "slots c = old"
    and "platform_report demo_banner_env topic payload = Some (key, v)"
    and "apply_platform_field demo_banner_env key v old = [(demo_slot, s)]"
  shows "slots (banner_step demo_banner_env (NativeBanner topic payload) c) = [(demo_slot, s)]"
    and "banners (banner_step demo_banner_env (NativeBanner topic payload) c) =
      (case slot_to_notification demo_banner_env demo_slot s of None \<Rightarrow> [] | Some b \<Rightarrow> [b])"
  using assms shown_after_report [OF demo_lists_sets assms(1,4)] slots_after_report [OF assms(4)]
  by (simp_all add: notifications_from_platform_slots_def List.map_filter_def NOTIFICATIONS_MAX_def
      del: banner_step.simps split: option.split)

lemma demo_states: "slots demo_alerted = [(demo_slot, demo_grid)] \<and> banners demo_alerted = [demo_banner]"
proof -
  let ?step = "\<lambda>f v. banner_step demo_banner_env (demo_packet f v)"
  let ?c1 = "?step ''Type'' (PyInt 1) center_init"
  let ?c2 = "?step ''DateTime'' (PyInt 1700000000) ?c1"
  let ?s1 = "blank_slot\<lparr>notif_type := Some 1, push_type_known := True\<rparr>"
  let ?s2 = "?s1\<lparr>date_time := Some 1700000000, last_valid_date_time := Some 1700000000\<rparr>"
  note parts = apply_platform_field_def demo_slot_keys demo_slot_values set_field_def apply_platform_datetime_def find_slot_def
    valid_platform_value_def Let_def
  have hidden: "slot_to_notification demo_banner_env demo_slot ?s1 = None" "slot_to_notification demo_banner_env demo_slot ?s2 = None"
    by (simp_all add: slot_to_notification_def slot_should_show_def blank_slot_def slot_text_def strip_def)
  note h1 = banner_history.happened [OF banner_history.no_banner [of demo_banner_env]]
  have init: "slots center_init = []" "banners center_init = []" by (simp_all add: center_init_def)
  have f1: "apply_platform_field demo_banner_env (py ''0/Notifications/1/Type'') (PyInt 1) [] = [(demo_slot, ?s1)]"
    using demo_slot_values(1) by (simp add: parts blank_slot_def)
  note c1 = demo_one [OF banner_history.no_banner init(2,1) demo_reports(1) f1]
  have c1: "slots ?c1 = [(demo_slot, ?s1)]" "banners ?c1 = []"
    using c1 hidden by (simp_all add: demo_packet_def del: banner_step.simps)
  have f2: "apply_platform_field demo_banner_env (py ''0/Notifications/1/DateTime'') (PyInt 1700000000) [(demo_slot, ?s1)]
      = [(demo_slot, ?s2)]"
    by (simp add: parts blank_slot_def)
  note c2 = demo_one [OF h1 c1(2,1) demo_reports(2) f2]
  have c2: "slots ?c2 = [(demo_slot, ?s2)]" "banners ?c2 = []"
    using c2 hidden by (simp_all add: demo_packet_def del: banner_step.simps)
  have f3: "apply_platform_field demo_banner_env (py ''0/Notifications/1/Description'') (pylit ''Grid lost'') [(demo_slot, ?s2)]
      = [(demo_slot, demo_grid)]"
    by (simp add: parts blank_slot_def demo_grid_def)
  note c3 = demo_one [OF banner_history.happened [OF h1] c2(2,1) demo_reports(3) f3]
  then show ?thesis
    using demo_shows by (simp add: demo_alerted_def demo_alert_packets_def demo_packet_def del: banner_step.simps)
qed

lemma demo_history: "banner_history demo_banner_env demo_alerted demo_alert_packets"
  using history_fold [OF banner_history.no_banner, of demo_banner_env demo_alert_packets] by (simp add: demo_alerted_def)

lemma banners_are_bounded_witness:
  "banners demo_alerted = [demo_banner] \<and> length (banners demo_alerted) \<le> NOTIFICATIONS_MAX
    \<and> list_all (\<lambda>b. bn_level b \<in> levels) (banners demo_alerted)"
  using banners_are_bounded [OF demo_lists_sets demo_history] demo_states by (simp add: list_all_iff)

end
