(* ===== verification/BannerDismissal.thy ===== *)
theory BannerDismissal
  imports BannerHistory
begin

text \<open>
  The banners of the device against its slots, and how long a dismissal lasts. Both hold when the
  sources keep to their parts: native topics start with \<open>N/\<close>, the controller does not use the ids of
  native banners, and the number of a dismissed slot is written as the dashboard writes it.
\<close>

fun well_sourced :: "banner_env \<Rightarrow> banner_event \<Rightarrow> bool" where
  "well_sourced env (NativeBanner topic payload) \<longleftrightarrow> has_prefix (py ''N/'') topic"
| "well_sourced env (ControllerNotice data) \<longleftrightarrow>
     (case normalize_notification env data of None \<Rightarrow> True | Some b \<Rightarrow> \<not> is_platform b \<and> \<not> is_raw_alarm b)"
| "well_sourced env (BannerDismissed nid) \<longleftrightarrow>
     (let digits = snd (snd (rcut 0x2D (drop (length platform_prefix) nid)))
      in case int_of_text digits of None \<Rightarrow> True | Some i \<Rightarrow> digits = int_text i)"
| "well_sourced env ev \<longleftrightarrow> True"

section \<open>Ids\<close>

lemma has_prefix_trans: "has_prefix p s \<Longrightarrow> has_prefix q p \<Longrightarrow> has_prefix q s"
  by (metis append.assoc append_take_drop_id has_prefix_append has_prefix_def)

lemma prefixes_agree: "has_prefix p s \<Longrightarrow> has_prefix q s \<Longrightarrow> length q \<le> length p \<Longrightarrow> take (length q) p = q"
  unfolding has_prefix_def by (metis min.absorb1 take_take)

lemma platform_not_raw: "is_platform b \<Longrightarrow> \<not> is_raw_alarm b"
proof -
  have "take (length (py ''victron-N/'')) platform_prefix \<noteq> py ''victron-N/''"
    "take (length (py ''victron-alarm-'')) platform_prefix \<noteq> py ''victron-alarm-''"
    "length (py ''victron-N/'') \<le> length platform_prefix" "length (py ''victron-alarm-'') \<le> length platform_prefix"
    by (simp_all add: platform_prefix_def py_def)
  then show "is_platform b \<Longrightarrow> \<not> is_raw_alarm b"
    unfolding is_platform_def is_raw_alarm_def using prefixes_agree by blast
qed

text \<open>Stripping keeps a prefix that starts and ends with a visible character.\<close>

lemma strip_prefix:
  assumes "p \<noteq> []" and "\<not> is_space (hd p)" and "\<not> is_space (last p)"
  shows "has_prefix p (strip (p @ s))"
proof -
  have front: "dropWhile is_space (p @ s) = p @ s" using assms(1,2) by (cases p) simp_all
  have "dropWhile is_space (rev p) = rev p" using assms(1,3) by (cases p rule: rev_cases) simp_all
  then have "dropWhile is_space (rev s @ rev p) = dropWhile is_space (rev s) @ rev p"
    by (induction "rev s" rule: rev_induct) (auto simp: dropWhile_append)
  with front show ?thesis by (simp add: strip_def)
qed

lemma alarm_banner:
  assumes "normalize_notification env (PyDict (alarm_data nid service alarm v @ rest)) = Some b"
    and "has_prefix p nid" "p \<noteq> []" "\<not> is_space (hd p)" "\<not> is_space (last p)"
  shows "has_prefix p (bn_id b)"
proof -
  from assms(2) obtain s where nid: "nid = p @ s" by (metis append_take_drop_id has_prefix_def)
  have field: "field_text env (PyDict (alarm_data nid service alarm v @ rest)) ''id'' '''' = nid"
    by (cases nid) (simp_all add: field_text_def py_get_def alarm_data_def py_str_def py_def)
  have "has_prefix p (strip nid)" unfolding nid by (rule strip_prefix [OF assms(3-5)])
  with assms(3) have "strip nid \<noteq> []" by (auto simp: has_prefix_def)
  with assms(1) \<open>has_prefix p (strip nid)\<close> show ?thesis
    by (auto simp: normalize_notification_def field Let_def)
qed

section \<open>The banners of the device are those of its slots\<close>

definition mirror :: "banner_env \<Rightarrow> center \<Rightarrow> bool" where
  "mirror env c \<longleftrightarrow>
     (\<forall>b \<in> set (banners c). is_platform b \<longrightarrow> (\<exists>(k, s) \<in> set (slots c). slot_to_notification env k s = Some b))
     \<and> (platform_seen c \<longrightarrow> (\<forall>b \<in> set (banners c). \<not> is_raw_alarm b))"

lemma mirror_fewer:
  "mirror env c \<Longrightarrow> mirror env (c\<lparr>banners := filter P (banners c)\<rparr>)"
  "mirror env (c\<lparr>alarm_values := vals\<rparr>) = mirror env c"
  by (auto simp: mirror_def)

lemma mirror_remove: "mirror env c \<Longrightarrow> mirror env (fst (remove_notification_id nid c))"
  by (simp add: remove_notification_id_def Let_def mirror_fewer)

lemma mirror_push:
  assumes "mirror env c"
    and "\<And>b. normalize_notification env data = Some b \<Longrightarrow> \<not> is_platform b \<and> (platform_seen c \<longrightarrow> \<not> is_raw_alarm b)"
  shows "mirror env (push_notification env data c)"
  using assms by (auto simp: mirror_def push_notification_def upsert_notification_def dest!: set_upsert split: option.split)

interpretation mirrored: alarm_contract env "mirror env" for env
proof
  fix c :: center and nid service alarm :: pystring and v rest
  assume c: "\<not> platform_seen c" "mirror env c" "raw_alarm_id nid"
  show "mirror env (push_notification env (PyDict (alarm_data nid service alarm v @ rest)) c)"
  proof (rule mirror_push [OF c(2)])
    fix b
    assume "normalize_notification env (PyDict (alarm_data nid service alarm v @ rest)) = Some b"
    from alarm_banner [OF this] c(3) have "is_raw_alarm b"
      by (auto simp: raw_alarm_id_def is_raw_alarm_def py_def is_space_def)
    with c(1) platform_not_raw show "\<not> is_platform b \<and> (platform_seen c \<longrightarrow> \<not> is_raw_alarm b)" by blast
  qed
qed (simp_all add: mirror_remove mirror_fewer)

lemma show_slots_set:
  assumes "slots_ok (slots c)" and "length (banners c) \<le> NOTIFICATIONS_MAX" and "b \<in> set (banners (show_slots env c))"
  shows "b \<in> set (banners c) \<and> \<not> is_platform b \<or> (\<exists>(k, s) \<in> set (slots c). slot_to_notification env k s = Some b)"
  using assms(3) by (auto simp: show_slots_banners [OF assms(1,2)] shown_slots dest!: set_last_n)

lemma slot_banner_platform: "slot_to_notification env k s = Some b \<Longrightarrow> is_platform b"
  by (auto simp: is_platform_def dest!: slot_banner_id)

lemma mirror_show_slots:
  assumes "slots_ok (slots c)" and "length (banners c) \<le> NOTIFICATIONS_MAX"
    and "platform_seen c \<Longrightarrow> \<forall>b \<in> set (banners c). \<not> is_raw_alarm b"
  shows "mirror env (show_slots env c)"
  using show_slots_set [OF assms(1,2)] assms(3)
  by (fastforce simp: mirror_def dest: slot_banner_platform platform_not_raw)

lemma mirror_activated:
  assumes "center_ok c" and "slots_ok ss"
  shows "mirror env (show_slots env (activate_platform (c\<lparr>slots := ss\<rparr>)))"
  using assms
  by (intro mirror_show_slots)
     (auto simp: activate_platform_def center_ok_def intro: order_trans [OF length_filter_le])

lemma mirror_sync_platform:
  assumes "center_ok c" and "mirror env c"
  shows "mirror env (fst (sync_platform_from_snapshot env leaves c))"
proof (cases leaves)
  case (PyDict kvs)
  let ?ss = "sync_platform_map env (slots c) kvs"
  have "mirror env (show_slots env (c\<lparr>slots := ?ss\<rparr>))"
    using assms by (intro mirror_show_slots) (auto simp: center_ok_def mirror_def sync_platform_map_ok)
  moreover have "mirror env (show_slots env (activate_platform (c\<lparr>slots := ?ss\<rparr>)))"
    using mirror_activated [OF assms(1) sync_platform_map_ok] .
  ultimately show ?thesis by (auto simp: PyDict sync_platform_from_snapshot_def Let_def)
qed (simp_all add: sync_platform_from_snapshot_def assms)

text \<open>The slot that a dismissal names.\<close>

lemma dismissed_slot_id:
  assumes "has_prefix platform_prefix nid" and "well_sourced env (BannerDismissed nid)" and "dismissed_slot nid ss = Some k"
  shows "slot_id k = nid"
proof -
  obtain inst found digits where cut: "rcut 0x2D (drop (length platform_prefix) nid) = (inst, found, digits)"
    by (cases rule: prod_cases3)
  with assms(2,3) obtain i where i: "found" "digits = int_text i" "0 \<le> i" "k = (inst, nat i)"
    by (auto simp: dismissed_slot_def split: if_splits option.splits)
  from cut i(1) have "drop (length platform_prefix) nid = inst @ 0x2D # digits"
    using rcut_append by fastforce
  moreover from assms(1) have "nid = platform_prefix @ drop (length platform_prefix) nid"
    by (metis append_take_drop_id has_prefix_def)
  ultimately show ?thesis using i by (simp add: slot_id_def int_text_def py_def)
qed

lemma find_slot_in: "map_of ss k \<noteq> None \<Longrightarrow> (k, find_slot ss k) \<in> set ss"
  by (auto simp: find_slot_def dest: map_of_SomeD)

lemma slot_of_update: "(k1, s1) \<in> set ss \<Longrightarrow> k1 \<noteq> k \<Longrightarrow> (k1, s1) \<in> set (AList.update k s ss)"
  by (induction ss) auto

lemma mirror_dismiss:
  assumes "mirror env c" and "well_sourced env (BannerDismissed nid)"
  shows "mirror env (fst (dismiss_notification env nid c))"
proof -
  let ?c1 = "fst (remove_notification_id nid c)"
  from assms(1) have c1: "mirror env ?c1" by (rule mirror_remove)
  have slots1: "slots ?c1 = slots c" and gone: "b \<in> set (banners ?c1) \<Longrightarrow> bn_id b \<noteq> nid" for b
    by (simp_all add: remove_notification_id_def Let_def)
  have "mirror env (?c1\<lparr>slots := AList.update k s (slots c)\<rparr>)"
    if "has_prefix platform_prefix nid" "dismissed_slot nid (slots c) = Some k" for k s
  proof -
    have "slot_id k = nid" using dismissed_slot_id [OF that(1) assms(2) that(2)] .
    have "\<exists>(k1, s1) \<in> set (AList.update k s (slots c)). slot_to_notification env k1 s1 = Some b"
      if b: "b \<in> set (banners ?c1)" "is_platform b" for b
    proof -
      from c1 b obtain k1 s1 where s1: "(k1, s1) \<in> set (slots c)" "slot_to_notification env k1 s1 = Some b"
        by (auto simp: mirror_def slots1)
      with gone [OF b(1)] \<open>slot_id k = nid\<close> have "k1 \<noteq> k" by (auto dest: slot_banner_id)
      with slot_of_update [OF s1(1)] s1(2) show ?thesis by (intro bexI [of _ "(k1, s1)"]) simp_all
    qed
    with c1 show ?thesis by (simp add: mirror_def)
  qed
  moreover have "mirror env (?c1\<lparr>dismissed_ids := ids\<rparr>)" for ids
    using c1 by (simp add: mirror_def)
  ultimately show ?thesis
    using assms(1) c1 slots1 by (auto simp: dismiss_notification_def Let_def case_prod_beta split: option.splits)
qed

lemma mirror_clear: "mirror env (clear_native_state c)"
  by (simp add: mirror_def clear_native_state_def)

lemma mirror_step:
  assumes "center_ok c" and "mirror env c" and "well_sourced env ev"
  shows "mirror env (banner_step env ev c)"
proof (cases ev)
  case (NativeBanner topic payload)
  have "mirror env (fst (handle_platform_notification env topic payload c))"
    using assms by (auto simp: handle_platform_fst mirror_activated apply_platform_field_ok center_ok_slots split: option.split)
  with NativeBanner assms mirrored.packet_kept show ?thesis by (simp add: apply_native_banner_def)
next
  case (ControllerNotice data)
  with assms show ?thesis by (auto intro: mirror_push split: option.splits)
next
  case (BannerDismissed nid)
  with assms mirror_dismiss show ?thesis by (simp del: well_sourced.simps)
qed (simp_all add: snapshot_banners_def mirrored.snapshot_kept mirror_sync_platform mirror_clear assms)

lemma history_mirror:
  assumes "lists_sets env" and "banner_history env c hist" and "list_all (well_sourced env) hist"
  shows "mirror env c"
  using assms(2,3)
proof (induction rule: banner_history.induct)
  case no_banner
  show ?case by (simp add: mirror_def center_init_def)
next
  case (happened c hist ev)
  with history_ok [OF assms(1) happened.hyps] show ?case by (simp add: mirror_step)
qed

text \<open>C32: As long as the sources keep to their parts (native topics start with N/, as those the server
  subscribes to; no notice of the controller is under the id of a native banner, which the code does
  not check; dismissals write the number of a slot as the dashboard does): every banner under the id
  of a slot is the one that a slot of the device gives now, so its slot is described, not
  acknowledged and not dismissed; and once a slot has been seen no raw alarm is shown.\<close>

theorem native_banners_follow_the_device:
  assumes "lists_sets env" and "banner_history env c hist" and "list_all (well_sourced env) hist" and "b \<in> set (banners c)"
  shows "(is_platform b \<longrightarrow> (\<exists>(k, s) \<in> set (slots c). slot_to_notification env k s = Some b \<and> slot_should_show s))
    \<and> (platform_seen c \<longrightarrow> \<not> is_raw_alarm b)"
  using history_mirror [OF assms(1-3)] assms(4)
  by (fastforce simp: mirror_def slot_to_notification_def split: if_splits)

lemma demo_well_sourced: "list_all (well_sourced env) demo_alert_packets" "well_sourced env (demo_packet field v)"
  by (simp_all add: demo_alert_packets_def demo_packet_def has_prefix_def py_def)

lemma demo_is_platform: "is_platform demo_banner"
  using demo_shows by (auto simp: is_platform_def dest!: slot_banner_id)

lemma native_banners_follow_the_device_witness:
  "banners demo_alerted = [demo_banner] \<and> is_platform demo_banner
    \<and> (\<exists>(k, s) \<in> set (slots demo_alerted). slot_to_notification demo_banner_env k s = Some demo_banner \<and> slot_should_show s)"
proof -
  have "demo_banner \<in> set (banners demo_alerted)" using demo_states by simp
  from native_banners_follow_the_device [OF demo_lists_sets demo_history demo_well_sourced(1) this] demo_states demo_is_platform
  show ?thesis by blast
qed

section \<open>Dismissals\<close>

definition slot_dismissed :: "slot_key \<Rightarrow> center \<Rightarrow> bool" where
  "slot_dismissed k c \<longleftrightarrow> (case map_of (slots c) k of None \<Rightarrow> False | Some s \<Rightarrow> user_dismissed s)"

definition known_time :: "slot_key \<Rightarrow> center \<Rightarrow> int option" where
  "known_time k c = last_valid_date_time (find_slot (slots c) k)"

text \<open>What ends the dismissal of a slot: a packet with a valid event time other than the last known one,
  a packet that clears an active alarm, and a snapshot without the slot or with another event time.\<close>

fun ends_dismissal :: "banner_env \<Rightarrow> slot_key \<Rightarrow> center \<Rightarrow> banner_event \<Rightarrow> bool" where
  "ends_dismissal env k c (NativeBanner topic payload) \<longleftrightarrow>
     (case platform_report env topic payload of
        None \<Rightarrow> False
      | Some (key, v) \<Rightarrow>
          parse_platform_leaf_key key = Some (k, DateTime) \<and> event_datetime env v \<notin> {None, known_time k c}
          \<or> parse_platform_leaf_key key = Some (k, Active) \<and> as_bool v = Some False
            \<and> active_flag (find_slot (slots c) k) = Some True)"
| "ends_dismissal env k c (SnapshotBanners snap) \<longleftrightarrow>
     (case py_get snap ''platform'' (PyDict []) of
        PyDict kvs \<Rightarrow>
          (case map_of (rebuilt_slots env kvs) k of
             None \<Rightarrow> True
           | Some s \<Rightarrow> date_time s \<notin> {None, known_time k c})
      | _ \<Rightarrow> False)"
| "ends_dismissal env k c ev \<longleftrightarrow> False"

lemma slot_dismissed_iff: "slot_dismissed k c \<longleftrightarrow> user_dismissed (find_slot (slots c) k)"
  by (simp add: slot_dismissed_def find_slot_def blank_slot_def split: option.split)

lemma report_dismissal:
  assumes "slot_dismissed k c" and "platform_report env topic payload = Some (key, v)"
  shows "user_dismissed (find_slot (apply_platform_field env key v (slots c)) k)
    \<longleftrightarrow> \<not> ends_dismissal env k c (NativeBanner topic payload)"
proof (cases "parse_platform_leaf_key key")
  case None
  with assms show ?thesis by (simp add: apply_platform_field_def slot_dismissed_iff)
next
  case (Some kf)
  obtain k1 f where kf: "parse_platform_leaf_key key = Some (k1, f)" using Some by (cases kf) auto
  from assms(2) kf have "valid_platform_value env f v"
    by (auto simp: platform_report_def split: list.splits if_splits option.splits)
  with assms kf show ?thesis
    by (cases f) (auto simp: apply_platform_field_def slot_dismissed_iff set_field_def apply_platform_datetime_def known_time_def Let_def)
qed

lemma find_slot_map:
  "find_slot (map (\<lambda>(k, s). (k, f k s)) ss) k = (if k \<in> fst ` set ss then f k (find_slot ss k) else blank_slot)"
  by (induction ss) (auto simp: find_slot_def)

lemma snapshot_dismissal:
  assumes "slot_dismissed k c"
  shows "user_dismissed (find_slot (sync_platform_map env (slots c) kvs) k)
    \<longleftrightarrow> (case map_of (rebuilt_slots env kvs) k of None \<Rightarrow> False | Some s \<Rightarrow> date_time s \<in> {None, known_time k c})"
proof -
  from assms obtain s0 where s0: "map_of (slots c) k = Some s0" "user_dismissed s0"
    by (auto simp: slot_dismissed_def split: option.splits)
  then have "known_time k c = last_valid_date_time s0" by (simp add: known_time_def find_slot_def)
  with s0 have keep: "user_dismissed (keep_dismissal (slots c) k s) \<longleftrightarrow> date_time s \<in> {None, known_time k c}" for s
    by (auto simp: keep_dismissal_def Let_def)
  show ?thesis
  proof (cases "map_of (rebuilt_slots env kvs) k")
    case None
    then have "k \<notin> fst ` set (rebuilt_slots env kvs)" by (simp add: map_of_eq_None_iff)
    with None show ?thesis by (simp add: sync_platform_map_def find_slot_map blank_slot_def)
  next
    case (Some s)
    then have "k \<in> fst ` set (rebuilt_slots env kvs)" "find_slot (rebuilt_slots env kvs) k = s"
      by (auto simp: find_slot_def intro: rev_image_eqI dest: map_of_SomeD)
    with Some keep show ?thesis by (simp add: sync_platform_map_def find_slot_map)
  qed
qed

lemma sync_alarms_slots: "slots (fst (sync_alarms_from_snapshot env snap c)) = slots c"
  by (rule unmoved.snapshot_kept) (rule refl)

lemma snapshot_slots:
  "slots (snapshot_banners env snap c) =
     (case py_get snap ''platform'' (PyDict []) of PyDict kvs \<Rightarrow> sync_platform_map env (slots c) kvs | _ \<Rightarrow> slots c)"
  by (simp add: snapshot_banners_def sync_alarms_slots sync_platform_from_snapshot_def Let_def split: pyval.split)

lemma find_slot_filter:
  "user_dismissed (find_slot ss k) \<Longrightarrow> find_slot (filter (\<lambda>(k, s). user_dismissed s) ss) k = find_slot ss k"
  by (induction ss) (auto simp: find_slot_def blank_slot_def split: if_splits)

lemma dismissal_survives:
  assumes "slot_dismissed k c" and "\<not> ends_dismissal env k c ev"
  shows "slot_dismissed k (banner_step env ev c)"
proof (cases ev)
  case (NativeBanner topic payload)
  have "slot_dismissed k (fst (handle_platform_notification env topic payload c))"
  proof (cases "platform_report env topic payload")
    case None
    with assms(1) show ?thesis by (simp add: handle_platform_fst)
  next
    case (Some kv)
    obtain key v where kv: "platform_report env topic payload = Some (key, v)" using Some by (cases kv) auto
    from report_dismissal [OF assms(1) kv] assms(2) NativeBanner have
      "user_dismissed (find_slot (apply_platform_field env key v (slots c)) k)" by (simp del: ends_dismissal.simps)
    with kv show ?thesis by (simp add: handle_platform_fst slot_dismissed_iff)
  qed
  moreover have "slots (fst (handle_alarm env topic payload c)) = slots c"
    by (auto simp: handle_alarm_def Let_def remove_notification_id_def push_notification_def upsert_notification_def
        split: option.splits)
  ultimately show ?thesis
    using assms(1) NativeBanner by (simp add: apply_native_banner_def slot_dismissed_iff)
next
  case (SnapshotBanners snap)
  with assms snapshot_dismissal [OF assms(1), of env] show ?thesis
    by (auto simp: slot_dismissed_iff snapshot_slots split: pyval.splits option.splits)
next
  case (ControllerNotice data)
  with assms(1) show ?thesis
    by (simp add: slot_dismissed_iff push_notification_def upsert_notification_def split: option.split)
next
  case (BannerDismissed nid)
  with assms(1) show ?thesis
    by (auto simp: slot_dismissed_iff dismiss_notification_def remove_notification_id_def Let_def split: option.split)
next
  case NativeSessionEnded
  let ?kept = "filter (\<lambda>(k, s). user_dismissed s) (slots c)"
  from assms(1) have "user_dismissed (find_slot ?kept k)" by (simp add: slot_dismissed_iff find_slot_filter)
  then have "k \<in> fst ` set ?kept"
    by (auto simp: find_slot_def blank_slot_def dest!: map_of_SomeD split: option.splits) force
  with NativeSessionEnded show ?thesis
    by (simp add: slot_dismissed_iff clear_native_state_def find_slot_map [of "\<lambda>_ s. blank_slot\<lparr>user_dismissed := True, last_valid_date_time := last_valid_date_time s\<rparr>"])
qed

text \<open>Events none of which ends the dismissal of a slot, in the states in which they happen.\<close>

fun dismissal_lasts :: "banner_env \<Rightarrow> slot_key \<Rightarrow> banner_event list \<Rightarrow> center \<Rightarrow> bool" where
  "dismissal_lasts env k [] c \<longleftrightarrow> True"
| "dismissal_lasts env k (ev # evs) c \<longleftrightarrow>
     \<not> ends_dismissal env k c ev \<and> dismissal_lasts env k evs (banner_step env ev c)"

lemma dismissal_lasts_fold:
  "slot_dismissed k c \<Longrightarrow> dismissal_lasts env k evs c \<Longrightarrow> slot_dismissed k (fold (banner_step env) evs c)"
  by (induction evs arbitrary: c) (simp_all add: dismissal_survives)

lemma dismissed_not_shown:
  assumes "lists_sets env" and "banner_history env c hist" and "list_all (well_sourced env) hist" and "slot_dismissed k c"
  shows "slot_id k \<notin> bn_id ` set (banners c)"
proof
  assume "slot_id k \<in> bn_id ` set (banners c)"
  then obtain b where b: "b \<in> set (banners c)" "bn_id b = slot_id k" by auto
  from history_ok [OF assms(1,2)] have ok: "slots_ok (slots c)" by (rule center_ok_slots)
  from b have "is_platform b" by (simp add: is_platform_def)
  with history_mirror [OF assms(1-3)] b(1) obtain k1 s1 where
    s1: "(k1, s1) \<in> set (slots c)" "slot_to_notification env k1 s1 = Some b"
    by (auto simp: mirror_def)
  from assms(4) obtain s where s: "(k, s) \<in> set (slots c)" "map_of (slots c) k = Some s" "user_dismissed s"
    by (auto simp: slot_dismissed_def dest: map_of_SomeD split: option.splits)
  from ok s(1) s1(1) have "slot_key_ok k" "slot_key_ok k1" by (auto simp: slots_ok_def list_all_iff)
  with b(2) slot_banner_id [OF s1(2)] have "k1 = k" using slot_id_inject by metis
  with ok s1(1) have "map_of (slots c) k = Some s1" by (auto simp: slots_ok_def intro: map_of_is_SomeI)
  with s(2) have "s1 = s" by simp
  with s(3) s1(2) show False by (simp add: slot_to_notification_def slot_should_show_def)
qed

text \<open>The dashboard's id of a slot names it.\<close>

lemma digits_value_number:
  "list_all is_num s \<Longrightarrow> s \<noteq> [] \<or> after_digit \<Longrightarrow> digits_value s after_digit n = Some (fold (\<lambda>c n. 10 * n + (c - 0x30)) s n)"
  by (induction s arbitrary: after_digit n) auto

lemma strip_digits: "list_all is_num s \<Longrightarrow> strip s = s"
proof -
  have skip: "dropWhile is_space s = s" if "list_all is_num s" for s
    using that by (cases s) (auto simp: is_num_def is_space_def)
  assume "list_all is_num s"
  with skip [of s] skip [of "rev s"] show ?thesis by (simp add: strip_def list_all_iff)
qed

lemma int_of_slot_number: "n \<le> 20 \<Longrightarrow> int_of_text (nat_digits n) = Some (int n)"
proof -
  assume n: "n \<le> 20"
  let ?s = "nat_digits n"
  have num: "list_all is_num ?s" using set_nat_digits by (fastforce simp: list_all_iff is_num_def)
  have "?s \<noteq> []" by (subst nat_digits.simps) simp
  with num obtain c t where s: "?s = c # t" "is_num c" by (cases ?s) auto
  then have sign: "take 1 ?s \<notin> {py ''-'', py ''+''}" by (auto simp: is_num_def py_def)
  have "length (filter is_num ?s) \<le> 4300"
    using length_nat_digits [of n 1] n order_trans [OF length_filter_le [of is_num ?s]] by simp
  with num sign s(1) strip_digits [OF num] digits_value_number [OF num, of False 0] decimal_nat_digits [of n]
  show ?thesis by (simp add: int_of_text_def Let_def decimal_def)
qed

lemma rcut_digits: "0x2D \<notin> set t \<Longrightarrow> rcut 0x2D (s @ 0x2D # t) = (s, True, t)"
proof -
  assume "0x2D \<notin> set t"
  then have "takeWhile (\<lambda>x. x \<noteq> 0x2D) (rev t @ 0x2D # rev s) = rev t" "dropWhile (\<lambda>x. x \<noteq> 0x2D) (rev t @ 0x2D # rev s) = 0x2D # rev s"
    by (subst takeWhile_append2 dropWhile_append2; auto)+
  then show ?thesis by (simp add: rcut_def)
qed

lemma slot_id_names:
  assumes "slot_key_ok k"
  shows "rcut 0x2D (drop (length platform_prefix) (slot_id k)) = (fst k, True, nat_digits (snd k))"
    and "well_sourced env (BannerDismissed (slot_id k))"
    and "map_of ss k \<noteq> None \<Longrightarrow> dismissed_slot (slot_id k) ss = Some k"
proof -
  have "0x2D \<notin> set (nat_digits (snd k))" using set_nat_digits by fastforce
  then show cut: "rcut 0x2D (drop (length platform_prefix) (slot_id k)) = (fst k, True, nat_digits (snd k))"
    by (simp add: slot_id_def py_def rcut_digits)
  from assms have n: "int_of_text (nat_digits (snd k)) = Some (int (snd k))"
    by (simp add: slot_key_ok_def int_of_slot_number)
  show "well_sourced env (BannerDismissed (slot_id k))" by (simp add: cut n int_text_def)
  show "map_of ss k \<noteq> None \<Longrightarrow> dismissed_slot (slot_id k) ss = Some k"
    by (auto simp: dismissed_slot_def cut n)
qed

text \<open>C33: The slot of a platform banner that the user closed stays marked as dismissed, through
  packets, polls, reconnections and notices, until the device reports another event time for it,
  clears its active alarm or drops it from a snapshot. As long as the sources keep to their parts
  (well_sourced, as above: in particular no notice of the controller is under the id of a native
  banner, which the code does not check), its banner stays hidden until then.\<close>

theorem dismissed_banner_stays_hidden:
  assumes "lists_sets env" and "banner_history env c hist" and "map_of (slots c) k \<noteq> None"
    and "dismissal_lasts env k evs (banner_step env (BannerDismissed (slot_id k)) c)"
  shows "slot_dismissed k (fold (banner_step env) (BannerDismissed (slot_id k) # evs) c)
    \<and> (list_all (well_sourced env) (hist @ evs) \<longrightarrow>
         slot_id k \<notin> bn_id ` set (banners (fold (banner_step env) (BannerDismissed (slot_id k) # evs) c)))"
proof -
  let ?ev = "BannerDismissed (slot_id k)"
  from history_ok [OF assms(1,2)] have "slots_ok (slots c)" by (rule center_ok_slots)
  with assms(3) have ok: "slot_key_ok k"
    by (auto simp: slots_ok_def list_all_iff dest: map_of_SomeD)
  note names = slot_id_names [OF ok]
  have "slot_id k \<noteq> []" by (simp add: slot_id_def platform_prefix_def)
  with names(3) [OF assms(3)] have "slot_dismissed k (banner_step env ?ev c)"
    by (simp add: dismiss_notification_def remove_notification_id_def Let_def slot_dismissed_iff)
  then have dismissed: "slot_dismissed k (fold (banner_step env) (?ev # evs) c)"
    using dismissal_lasts_fold assms(4) by simp
  have "slot_id k \<notin> bn_id ` set (banners (fold (banner_step env) (?ev # evs) c))"
    if "list_all (well_sourced env) (hist @ evs)"
  proof -
    from that have "list_all (well_sourced env) (hist @ ?ev # evs)" using names(2) by simp
    with dismissed show ?thesis
      using dismissed_not_shown [OF assms(1) history_fold [OF assms(2)]] by blast
  qed
  with dismissed show ?thesis by blast
qed

text \<open>The user closes the banner, the session ends, and the next one republishes the same event time.\<close>

lemma demo_key_ok: "slot_key_ok demo_slot"
  by (simp add: slot_key_ok_def all_digits_def is_num_def py_def)

lemma dismissed_banner_stays_hidden_witness:
  "slot_id demo_slot \<in> bn_id ` set (banners demo_alerted)
    \<and> slot_id demo_slot \<notin> bn_id ` set (banners (fold (banner_step demo_banner_env)
        [BannerDismissed (slot_id demo_slot), NativeSessionEnded, demo_packet ''DateTime'' (PyInt 1700000000)] demo_alerted))"
proof -
  let ?k = demo_slot
  let ?evs = "[NativeSessionEnded, demo_packet ''DateTime'' (PyInt 1700000000)]"
  let ?c1 = "banner_step demo_banner_env (BannerDismissed (slot_id ?k)) demo_alerted"
  have known: "map_of (slots demo_alerted) ?k \<noteq> None" using demo_states by simp
  have "slot_id ?k \<noteq> []" by (simp add: slot_id_def platform_prefix_def)
  with slot_id_names(3) [OF demo_key_ok known] demo_states have
    "slots ?c1 = [(?k, demo_grid\<lparr>user_dismissed := True\<rparr>)]"
    by (simp add: dismiss_notification_def remove_notification_id_def Let_def find_slot_def)
  then have "known_time ?k (banner_step demo_banner_env NativeSessionEnded ?c1) = Some 1700000000"
    by (simp add: clear_native_state_def known_time_def find_slot_def demo_grid_def)
  then have "dismissal_lasts demo_banner_env ?k ?evs ?c1"
    by (simp add: demo_packet_def demo_reports demo_slot_keys demo_slot_values del: banner_step.simps)
  moreover have "list_all (well_sourced demo_banner_env) (demo_alert_packets @ ?evs)"
    using demo_well_sourced by simp
  ultimately have "slot_id ?k \<notin> bn_id ` set (banners (fold (banner_step demo_banner_env)
      (BannerDismissed (slot_id ?k) # ?evs) demo_alerted))"
    using dismissed_banner_stays_hidden [OF demo_lists_sets demo_history known] by blast
  with demo_states show ?thesis by (simp add: demo_banner_def)
qed

end
