(* ===== verification/BannerPush.thy ===== *)
theory BannerPush
  imports BannerDismissal
begin

text \<open>
  What the banners mean for their readers: a fresh event of the device is shown, the two transports show
  the same, only alerts of a known type are handed to the push pipeline (\<open>native_notifications\<close> of
  \<open>push_observer.py\<close>), and what the bound on the remembered dismissals can forget.
\<close>

section \<open>A fresh event is shown\<close>

lemma shown_few: "length (notifications_from_platform_slots env ss) \<le> length ss"
  using length_filter_le [of _ "sort_key fst ss"]
  by (simp add: notifications_from_platform_slots_def List.map_filter_def)

lemma event_datetime_pos: "event_datetime env v = Some t \<Longrightarrow> 0 < t"
  by (auto simp: event_datetime_def is_integer_def split: option.splits if_splits)

text \<open>C34: While the device has at most a hundred slots: a packet with a valid event time other than the
  last known one puts the banner of its slot on the dashboard with that time, dismissed before or
  not, if the slot is described and not acknowledged.\<close>

theorem fresh_event_is_shown:
  assumes "lists_sets env" and "banner_history env c hist" and "platform_report env topic payload = Some (key, v)"
    and "parse_platform_leaf_key key = Some (k, DateTime)" and "event_datetime env v = Some t" and "known_time k c \<noteq> Some t"
    and "strip (slot_text (description (find_slot (slots c) k))) \<noteq> []" and "acknowledged (find_slot (slots c) k) \<noteq> Some True"
    and "length (apply_platform_field env key v (slots c)) \<le> NOTIFICATIONS_MAX"
  shows "\<exists>b \<in> set (banners (banner_step env (NativeBanner topic payload) c)). bn_id b = slot_id k \<and> bn_ts b = iso_text env t"
proof -
  let ?ss = "apply_platform_field env key v (slots c)"
  let ?s = "(find_slot (slots c) k)\<lparr>user_dismissed := False, last_valid_date_time := Some t, date_time := Some t\<rparr>"
  from assms(3,4) have "valid_platform_value env DateTime v"
    by (auto simp: platform_report_def split: list.splits if_splits option.splits)
  with assms(4-6) have ss: "?ss = AList.update k ?s (slots c)"
    by (simp add: apply_platform_field_def set_field_def apply_platform_datetime_def known_time_def Let_def)
  note event_datetime_pos [OF assms(5)]
  with assms(7,8) obtain b where b: "slot_to_notification env k ?s = Some b" "bn_ts b = iso_text env t"
    by (auto simp: slot_to_notification_def slot_should_show_def)
  have "(k, ?s) \<in> set ?ss"
    unfolding ss by (rule map_of_SomeD) (simp add: update_conv')
  with b(1) have "b \<in> set (notifications_from_platform_slots env ?ss)" unfolding shown_slots by blast
  moreover have "length (notifications_from_platform_slots env ?ss) \<le> NOTIFICATIONS_MAX"
    by (rule order_trans [OF shown_few assms(9)])
  ultimately have "b \<in> set (last_n NOTIFICATIONS_MAX (others @ notifications_from_platform_slots env ?ss))" for others
    by (simp add: last_n_def)
  with shown_after_report [OF assms(1-3)] slot_banner_id [OF b(1)] b(2) show ?thesis by auto
qed

lemma fresh_event_is_shown_witness:
  "\<exists>b \<in> set (banners (banner_step demo_banner_env (demo_packet ''DateTime'' (PyInt 1700000060)) demo_alerted)).
     bn_id b = slot_id demo_slot \<and> bn_ts b = nat_digits 1700000060"
proof -
  have time: "event_datetime demo_banner_env (PyInt 1700000060) = Some 1700000060"
    by (simp add: event_datetime_def decimal_value_def LAST_SECOND_def is_integer_def)
  have slot: "find_slot (slots demo_alerted) demo_slot = demo_grid" using demo_states by (simp add: find_slot_def)
  have shown: "strip (slot_text (description demo_grid)) \<noteq> []" "acknowledged demo_grid \<noteq> Some True"
    by (simp_all add: demo_grid_def blank_slot_def slot_text_def strip_def is_space_def py_def)
  have "length (apply_platform_field demo_banner_env (py ''0/Notifications/1/DateTime'') (PyInt 1700000060) (slots demo_alerted))
      \<le> NOTIFICATIONS_MAX"
    using demo_states by (simp add: apply_platform_field_def demo_slot_keys NOTIFICATIONS_MAX_def)
  with fresh_event_is_shown [OF demo_lists_sets demo_history demo_reports(2) demo_slot_keys(2) time] slot shown show ?thesis
    by (simp add: known_time_def demo_grid_def demo_packet_def demo_banner_env_def del: banner_step.simps)
qed

section \<open>Both transports show the same\<close>

definition packet_topic :: "pystring \<Rightarrow> pystring \<Rightarrow> pystring" where
  "packet_topic portal key = py ''N/'' @ portal @ py ''/platform/'' @ key"

text \<open>The leaves of a map one after the other, as packets of a session.\<close>

definition replay_leaves :: "banner_env \<Rightarrow> pystring \<Rightarrow> (pystring \<times> pyval) list \<Rightarrow> center \<Rightarrow> center" where
  "replay_leaves env portal =
     fold (\<lambda>(key, raw) c. fst (handle_platform_notification env (packet_topic portal key) (Parsed raw) c))"

lemma packet_report:
  assumes "0x2F \<notin> set portal"
  shows "platform_report env (packet_topic portal key) (Parsed raw) =
    (case parse_platform_leaf_key key of
       None \<Rightarrow> None
     | Some (k, f) \<Rightarrow> if valid_platform_value env f (unwrap raw) then Some (key, unwrap raw) else None)"
proof -
  have "packet_topic portal key = [0x4E] @ 0x2F # portal @ 0x2F # py ''platform'' @ 0x2F # key"
    by (simp add: packet_topic_def py_def)
  moreover have "0x2F \<notin> set (py ''platform'')" by (simp add: py_def)
  ultimately have split: "split_on 0x2F (packet_topic portal key) = py ''N'' # portal # py ''platform'' # split_on 0x2F key"
    using assms by (simp only: split_on_append set_simps) (simp add: split_on_append py_def)
  have four: "length (split_on 0x2F key) \<noteq> 4 \<Longrightarrow> parse_platform_leaf_key key = None"
    by (auto simp: parse_platform_leaf_key_def split: list.split)
  have invalid: "\<not> valid_platform_value env f (PyDict kvs)" for f kvs
    by (cases f) (simp_all add: valid_platform_value_def as_bool_def alarm_value_def decimal_value_def)
  show ?thesis
    using four invalid
    by (cases raw) (auto simp: platform_report_def split join_split unwrap_def split: option.split)
qed

lemma update_not_Nil [simp]: "AList.update k v xs \<noteq> []"
  by (cases xs) auto

lemma insort_key_map: "(\<And>x. fst (g x) = fst x) \<Longrightarrow> insort_key fst (g x) (map g xs) = map g (insort_key fst x xs)"
  by (induction xs) simp_all

lemma sort_key_map: "(\<And>x. fst (g x) = fst x) \<Longrightarrow> sort_key fst (map g xs) = map g (sort_key fst xs)"
  by (induction xs) (simp_all add: insort_key_map)

lemma shown_after_keep:
  "notifications_from_platform_slots env (map (\<lambda>(k, s). (k, keep_dismissal [] k s)) ss) = notifications_from_platform_slots env ss"
proof -
  have "slot_to_notification env k (keep_dismissal [] k s) = slot_to_notification env k s" for k s
    by (simp add: keep_dismissal_def slot_to_notification_def slot_should_show_def)
  then show ?thesis
    by (simp add: notifications_from_platform_slots_def sort_key_map case_prod_beta List.map_filter_def filter_map comp_def)
qed

lemma length_update: "length (AList.update k v xs) \<le> Suc (length xs)"
  by (induction xs) auto

lemma length_update_ge: "length xs \<le> length (AList.update k v xs)"
  by (induction xs) auto

lemma length_apply: "length (apply_platform_field env key v ss) \<le> Suc (length ss)"
  by (auto simp: apply_platform_field_def length_update split: option.split)

lemma length_fold_apply:
  "length (fold (\<lambda>(key, raw). apply_platform_field env key (unwrap raw)) kvs ss) \<le> length ss + length kvs"
proof (induction kvs arbitrary: ss)
  case (Cons leaf kvs)
  obtain key raw where leaf: "leaf = (key, raw)" by fastforce
  from Cons.IH [of "apply_platform_field env key (unwrap raw) ss"] length_apply [of env key "unwrap raw" ss]
  show ?case by (simp add: leaf)
qed simp

text \<open>What a prefix of the leaves leaves behind.\<close>

definition replayed :: "banner_env \<Rightarrow> center \<Rightarrow> slot_map \<Rightarrow> center" where
  "replayed env c ss =
     (if ss = [] then c
      else c\<lparr>slots := ss, platform_seen := True,
             banners := filter (\<lambda>b. \<not> is_raw_alarm b) (banners c) @ notifications_from_platform_slots env ss\<rparr>)"

lemma filter_platform_shown: "filter (\<lambda>b. \<not> is_platform b) (notifications_from_platform_slots env ss) = []"
  by (auto simp: filter_empty_conv shown_slots dest: slot_banner_platform)

lemma filter_raw_shown: "filter (\<lambda>b. \<not> is_raw_alarm b) (notifications_from_platform_slots env ss) = notifications_from_platform_slots env ss"
  by (auto simp: filter_id_conv shown_slots dest!: slot_banner_platform platform_not_raw)

lemma show_activated:
  assumes "slots_ok ss" and "filter (\<lambda>b. \<not> is_platform b) bs = bs" and "length bs + length ss \<le> NOTIFICATIONS_MAX"
    and "filter (\<lambda>b. \<not> is_raw_alarm b) (banners c) = bs @ notifications_from_platform_slots env old" "length old \<le> length ss"
  shows "show_slots env (activate_platform (c\<lparr>slots := ss\<rparr>)) =
    c\<lparr>slots := ss, platform_seen := True, banners := bs @ notifications_from_platform_slots env ss\<rparr>"
proof -
  let ?c = "activate_platform (c\<lparr>slots := ss\<rparr>)"
  have c: "banners ?c = bs @ notifications_from_platform_slots env old"
    using assms(4) by (simp add: activate_platform_def)
  have "length (banners ?c) \<le> NOTIFICATIONS_MAX"
    using assms(3,5) shown_few [of env old] by (simp add: c)
  with assms(1) have "banners (show_slots env ?c) = last_n NOTIFICATIONS_MAX (bs @ notifications_from_platform_slots env ss)"
    by (simp add: show_slots_banners c filter_platform_shown assms(2))
  also have "\<dots> = bs @ notifications_from_platform_slots env ss"
    using assms(3) shown_few [of env ss] by simp
  finally have "banners (show_slots env ?c) = bs @ notifications_from_platform_slots env ss" .
  then show ?thesis
    by (intro center.equality) (simp_all add: activate_platform_def)
qed

lemma replay_step:
  assumes "0x2F \<notin> set portal" and "slots_ok ss" and "slots c = []" and "filter (\<lambda>b. \<not> is_platform b) (banners c) = banners c"
    and "length (banners c) + Suc (length ss) \<le> NOTIFICATIONS_MAX"
  shows "fst (handle_platform_notification env (packet_topic portal key) (Parsed raw) (replayed env c ss)) =
    replayed env c (apply_platform_field env key (unwrap raw) ss)"
proof (cases "platform_report env (packet_topic portal key) (Parsed raw)")
  case None
  then have "apply_platform_field env key (unwrap raw) ss = ss"
    by (auto simp: packet_report [OF assms(1)] apply_platform_field_def split: option.splits if_splits)
  with None show ?thesis by (simp add: handle_platform_fst)
next
  case (Some kv)
  let ?ss = "apply_platform_field env key (unwrap raw) ss" and ?c = "replayed env c ss"
  let ?bs = "filter (\<lambda>b. \<not> is_raw_alarm b) (banners c)"
  from Some have report: "platform_report env (packet_topic portal key) (Parsed raw) = Some (key, unwrap raw)" and "?ss \<noteq> []"
    by (auto simp: packet_report [OF assms(1)] apply_platform_field_def split: option.splits if_splits)
  have "slots ?c = ss" using assms(3) by (simp add: replayed_def)
  have "filter (\<lambda>b. \<not> is_raw_alarm b) (banners ?c) = ?bs @ notifications_from_platform_slots env ss"
    by (simp add: replayed_def filter_raw_shown)
  moreover have "filter (\<lambda>b. \<not> is_platform b) ?bs = ?bs"
    using assms(4) by (simp add: filter_id_conv cong: filter_cong)
  moreover have "length ?bs + length ?ss \<le> NOTIFICATIONS_MAX"
    using assms(5) length_filter_le [of "\<lambda>b. \<not> is_raw_alarm b" "banners c"] length_apply [of env key "unwrap raw" ss] by linarith
  moreover have "length ss \<le> length ?ss"
    by (auto simp: apply_platform_field_def length_update_ge split: option.split)
  ultimately have "show_slots env (activate_platform (?c\<lparr>slots := ?ss\<rparr>)) =
      ?c\<lparr>slots := ?ss, platform_seen := True, banners := ?bs @ notifications_from_platform_slots env ?ss\<rparr>"
    using assms(2) by (intro show_activated) (simp_all add: apply_platform_field_ok)
  with \<open>?ss \<noteq> []\<close> \<open>slots ?c = ss\<close> report show ?thesis
    by (simp add: handle_platform_fst) (simp add: replayed_def)
qed

lemma replay_leaves_eq:
  assumes "0x2F \<notin> set portal" and "slots c = []" and "filter (\<lambda>b. \<not> is_platform b) (banners c) = banners c"
  shows "slots_ok ss \<Longrightarrow> length (banners c) + length ss + length kvs \<le> NOTIFICATIONS_MAX
    \<Longrightarrow> replay_leaves env portal kvs (replayed env c ss) =
      replayed env c (fold (\<lambda>(key, raw). apply_platform_field env key (unwrap raw)) kvs ss)"
proof (induction kvs arbitrary: ss)
  case (Cons leaf kvs)
  obtain key raw where leaf: "leaf = (key, raw)" by fastforce
  let ?ss = "apply_platform_field env key (unwrap raw) ss"
  have "length ?ss + length kvs \<le> length ss + length (leaf # kvs)"
    using length_apply [of env key "unwrap raw" ss] by simp
  with Cons.prems have "length (banners c) + length ?ss + length kvs \<le> NOTIFICATIONS_MAX" by linarith
  with Cons.IH [OF apply_platform_field_ok [OF Cons.prems(1)]] Cons.prems show ?case
    using replay_step [OF assms(1) Cons.prems(1) assms(2,3), of env key raw] by (simp add: replay_leaves_def leaf)
qed (simp add: replay_leaves_def)

text \<open>C35: A map of slots in a gateway snapshot and the same leaves as MQTT packets, in the order of the map,
  put the same banners on a dashboard that has none of the device, as long as all fit; both then agree
  on whether raw alarms are hidden.\<close>

theorem transports_show_the_same:
  assumes "0x2F \<notin> set portal" and "slots c = []" and "\<forall>b \<in> set (banners c). \<not> is_platform b"
    and "length (banners c) + length kvs \<le> NOTIFICATIONS_MAX"
  shows "banners (replay_leaves env portal kvs c) = banners (fst (sync_platform_from_snapshot env (PyDict kvs) c))
    \<and> platform_seen (replay_leaves env portal kvs c) = platform_seen (fst (sync_platform_from_snapshot env (PyDict kvs) c))"
proof -
  let ?ss = "rebuilt_slots env kvs" and ?kept = "sync_platform_map env [] kvs"
  from assms(3) have others: "filter (\<lambda>b. \<not> is_platform b) (banners c) = banners c" by (simp add: filter_id_conv)
  from replay_leaves_eq [OF assms(1,2) others, of "[]" kvs env] assms(4)
  have lan: "replay_leaves env portal kvs c = replayed env c ?ss"
    by (simp add: rebuilt_slots_def) (simp add: replayed_def)
  have kept: "?kept = map (\<lambda>(k, s). (k, keep_dismissal [] k s)) ?ss" by (simp add: sync_platform_map_def)
  have few: "length ?ss \<le> length kvs"
    using length_fold_apply [of env kvs "[]"] by (simp add: rebuilt_slots_def)
  show ?thesis
  proof (cases "?ss = []")
    case True
    have "banners (show_slots env (c\<lparr>slots := []\<rparr>)) = banners c"
      using show_slots_banners [of "c\<lparr>slots := []\<rparr>" env] assms(4) others
      by simp
    with True lan kept assms(2) show ?thesis
      by (simp add: sync_platform_from_snapshot_def Let_def replayed_def)
  next
    case False
    let ?bs = "filter (\<lambda>b. \<not> is_raw_alarm b) (banners c)"
    have "show_slots env (activate_platform (c\<lparr>slots := ?kept\<rparr>)) =
        c\<lparr>slots := ?kept, platform_seen := True, banners := ?bs @ notifications_from_platform_slots env ?kept\<rparr>"
    proof (rule show_activated [where old = "[]"])
      show "filter (\<lambda>b. \<not> is_platform b) ?bs = ?bs" using others by (simp add: filter_id_conv cong: filter_cong)
      show "length ?bs + length ?kept \<le> NOTIFICATIONS_MAX"
        using few assms(4) length_filter_le [of "\<lambda>b. \<not> is_raw_alarm b" "banners c"]
        unfolding kept length_map by linarith
    qed (simp_all add: sync_platform_map_ok)
    with False lan kept assms(2) show ?thesis
      by (simp add: sync_platform_from_snapshot_def Let_def replayed_def shown_after_keep)
  qed
qed

lemma transports_show_the_same_witness:
  "banners (replay_leaves demo_banner_env (py ''p'') [(py ''0/Notifications/1/Description'', pylit ''Grid lost'')] center_init)
    = banners (fst (sync_platform_from_snapshot demo_banner_env
        (PyDict [(py ''0/Notifications/1/Description'', pylit ''Grid lost'')]) center_init))
    \<and> platform_seen (replay_leaves demo_banner_env (py ''p'')
        [(py ''0/Notifications/1/Description'', pylit ''Grid lost'')] center_init)"
proof -
  let ?kvs = "[(py ''0/Notifications/1/Description'', pylit ''Grid lost'')]"
  have "rebuilt_slots demo_banner_env ?kvs \<noteq> []"
    by (simp add: rebuilt_slots_def apply_platform_field_def demo_slot_keys unwrap_def valid_platform_value_def)
  then have "platform_seen (fst (sync_platform_from_snapshot demo_banner_env (PyDict ?kvs) center_init))"
    by (simp add: sync_platform_from_snapshot_def sync_platform_map_def activate_platform_def Let_def)
  moreover have "0x2F \<notin> set (py ''p'')" by (simp add: py_def)
  moreover have "slots center_init = []" "banners center_init = []" by (simp_all add: center_init_def)
  ultimately show ?thesis
    using transports_show_the_same [of "py ''p''" center_init ?kvs demo_banner_env]
    by (simp add: NOTIFICATIONS_MAX_def)
qed

section \<open>Alerts that are pushed\<close>

definition banner_value :: "banner \<Rightarrow> pystring \<Rightarrow> pyval" where
  "banner_value b level =
     PyDict [(py ''id'', PyStr (bn_id b)), (py ''level'', PyStr level), (py ''title'', PyStr (bn_title b)),
       (py ''body'', PyStr (bn_body b)), (py ''source'', PyStr (bn_source b)), (py ''ts'', PyStr (bn_ts b))]"

definition known_types :: "slot_map \<Rightarrow> (pystring \<times> int option) list" where
  "known_types ss = map (\<lambda>(k, s). (slot_id k, if push_type_known s then notif_type s else None)) ss"

definition type_known :: "slot_map \<Rightarrow> pystring \<Rightarrow> bool" where
  "type_known ss nid \<longleftrightarrow> (case map_of (known_types ss) nid of Some (Some t) \<Rightarrow> t \<in> {0, 1, 2} | _ \<Rightarrow> False)"

definition native_notifications :: "center \<Rightarrow> pyval list" where
  "native_notifications c =
     map (\<lambda>b. banner_value b (if is_platform b \<and> \<not> type_known (slots c) (bn_id b) then py ''unknown'' else bn_level b))
       (banners c)"

lemma type_known_slot: "type_known ss nid \<Longrightarrow> \<exists>(k, s) \<in> set ss. slot_id k = nid \<and> push_type_known s \<and> notif_type s \<in> {Some 0, Some 1, Some 2}"
  by (auto simp: type_known_def known_types_def dest!: map_of_SomeD split: option.splits if_splits) force+

lemma banner_level: "py_get (banner_value b level) ''level'' PyNone = PyStr level"
  by (simp add: py_get_def banner_value_def)

text \<open>The push pipeline looks at a hundred notifications; the banners are never more.\<close>

lemma all_banners_observed:
  "lists_sets env \<Longrightarrow> banner_history env c hist \<Longrightarrow> take 100 (native_notifications c) = native_notifications c"
  using history_ok by (fastforce simp: native_notifications_def center_ok_def NOTIFICATIONS_MAX_def)

text \<open>C36: Every event that the push pipeline makes of what the observer hands it comes from a banner on
  the dashboard; if that is under an id of the device's, the device has a slot of that id with a
  numeric type that it reported. As long as the sources also keep to their parts (well_sourced: in
  particular no notice of the controller is under the id of a native banner, which the code does not
  check), that type means a warning or an alarm, and the slot is neither acknowledged nor dismissed.\<close>

theorem pushed_alerts_have_a_known_type:
  assumes "lists_sets env" and "banner_history env c hist"
    and "native rt disks (native_notifications c) now prime p st = Some (st1, Inr (p1, out))" and "event \<in> set out"
  shows "\<exists>b \<in> set (banners c). (\<exists>t. event_of rt now (banner_value b (bn_level b)) t = Some (Inr event))
    \<and> (is_platform b \<longrightarrow> (\<exists>(k, s) \<in> set (slots c). slot_id k = bn_id b \<and> push_type_known s \<and> notif_type s \<in> {Some 0, Some 1, Some 2}
        \<and> (list_all (well_sourced env) hist \<longrightarrow>
             notif_type s \<in> {Some 0, Some 1} \<and> acknowledged s \<noteq> Some True \<and> \<not> user_dismissed s)))"
proof -
  obtain p0 p2 where "native_loop rt disks now (prime \<or> \<not> native_primed p) (take 100 (native_notifications c)) p0 st
    = Some (st1, Inr (p2, out))"
    using assms(3) by (rule native_unfold) blast
  from native_loop_events [OF this assms(4)] obtain n t where n: "n \<in> set (native_notifications c)"
    "event_of rt now n t = Some (Inr event)" "py_get n ''level'' PyNone \<in> {pylit ''warning'', pylit ''alarm'', pylit ''error''}"
    by (auto dest: in_set_takeD)
  then obtain b where b: "b \<in> set (banners c)" and level: "bn_level b \<in> {py ''warning'', py ''alarm'', py ''error''}"
    and event: "event_of rt now (banner_value b (bn_level b)) t = Some (Inr event)"
    and known: "is_platform b \<longrightarrow> type_known (slots c) (bn_id b)"
    by (auto simp: native_notifications_def banner_level split: if_splits)
  have "\<exists>(k, s) \<in> set (slots c). slot_id k = bn_id b \<and> push_type_known s \<and> notif_type s \<in> {Some 0, Some 1, Some 2}
      \<and> (list_all (well_sourced env) hist \<longrightarrow>
           notif_type s \<in> {Some 0, Some 1} \<and> acknowledged s \<noteq> Some True \<and> \<not> user_dismissed s)"
    if platform: "is_platform b"
  proof -
    from type_known_slot known platform obtain k1 s1 where
      s1: "(k1, s1) \<in> set (slots c)" "slot_id k1 = bn_id b" "push_type_known s1" "notif_type s1 \<in> {Some 0, Some 1, Some 2}"
      by blast
    have "notif_type s1 \<in> {Some 0, Some 1} \<and> acknowledged s1 \<noteq> Some True \<and> \<not> user_dismissed s1"
      if sourced: "list_all (well_sourced env) hist"
    proof -
      from history_mirror [OF assms(1,2) sourced] b platform obtain k s where
        s: "(k, s) \<in> set (slots c)" "slot_to_notification env k s = Some b" by (auto simp: mirror_def)
      from history_ok [OF assms(1,2)] have ok: "slots_ok (slots c)" by (rule center_ok_slots)
      with s(1) s1(1) have "slot_key_ok k" "slot_key_ok k1" by (auto simp: slots_ok_def list_all_iff)
      with s1(2) slot_banner_id [OF s(2)] have "k1 = k" using slot_id_inject by metis
      with ok s(1) s1(1) have same: "s1 = s" by (auto simp: slots_ok_def dest: eq_key_imp_eq_value)
      from s(2) have "bn_level b = slot_level (notif_type s)" "slot_should_show s"
        by (auto simp: slot_to_notification_def split: if_splits)
      with same level s1(4) show ?thesis by (auto simp: slot_level_def slot_should_show_def)
    qed
    with s1 show ?thesis by (intro bexI [of _ "(k1, s1)"]) auto
  qed
  with b event show ?thesis by blast
qed

lemma demo_banner_items [simp]:
  "py_get (banner_value b level) ''id'' d = PyStr (bn_id b)" "py_get (banner_value b level) ''ts'' d = PyStr (bn_ts b)"
  "py_get (banner_value b level) ''title'' d = PyStr (bn_title b)" "py_get (banner_value b level) ''body'' d = PyStr (bn_body b)"
  "py_get (banner_value b level) ''source'' d = PyStr (bn_source b)" "py_get (banner_value b level) ''level'' d = PyStr level"
  by (simp_all add: py_get_def banner_value_def)

lemma demo_pushed:
  "\<exists>event. native demo_runtime (\<lambda>_. True) (native_notifications demo_alerted) 1700000001 False demo_processor no_rows
     = Some (no_rows, Inr (demo_processor, [event]))"
proof -
  have "type_known [(demo_slot, demo_grid)] (bn_id demo_banner)"
    by (simp add: type_known_def known_types_def demo_grid_def demo_banner_def)
  then have ns: "native_notifications demo_alerted = [banner_value demo_banner (py ''alarm'')]"
    using demo_states by (simp add: native_notifications_def) (simp add: demo_banner_def)
  have "list_all scalar (slot_id demo_slot)"
    by (simp add: slot_id_def platform_prefix_def scalar_small nat_digits.simps)
  then have ascii: "list_all scalar (take 200 (slot_id demo_slot))" "list_all scalar (take 120 (py ''Grid lost''))"
    using scalar_py [of "''Grid lost''"] by (auto simp: list_all_iff simp del: scalar_py dest: in_set_takeD)
  have "server_source ''native'' ''victron''" by (simp add: server_source_def)
  from event_payload_no_body [OF this, of 1700000000000 1700000001 demo_runtime "take 200 (slot_id demo_slot)" "py ''Grid lost''",
      OF _ _ demo_digest] ascii
  obtain event where event: "event_payload demo_runtime (py ''native'') (py ''victron'') (take 200 (slot_id demo_slot)) 1700000000000
      1700000001 (py ''Grid lost'') [] = Some (Inr event)"
    by (simp add: time_range_def MAX_SAFE_INTEGER_def py_int_def)
  have stamp: "timestamp_ms demo_runtime (PyStr (nat_digits 1700000000)) = Some 1700000000000"
  proof -
    have "length (nat_digits 1700000000) \<le> Suc 9" by (rule length_nat_digits) simp
    then show ?thesis by (simp add: timestamp_ms_def demo_runtime_def py_int_def)
  qed
  show ?thesis
    using event
    by (simp add: ns native_def native_event_def notification_id_def occurrence_def native_source_def py_str_def
        demo_banner_def stamp demo_processor_def stale_def event_limits Let_def)
qed

lemma pushed_alerts_have_a_known_type_witness:
  "\<exists>event st1 p1. native demo_runtime (\<lambda>_. True) (native_notifications demo_alerted) 1700000001 False demo_processor no_rows
      = Some (st1, Inr (p1, [event]))
    \<and> (\<exists>b \<in> set (banners demo_alerted). \<exists>t. event_of demo_runtime 1700000001 (banner_value b (bn_level b)) t = Some (Inr event))"
proof -
  from demo_pushed obtain event where run: "native demo_runtime (\<lambda>_. True) (native_notifications demo_alerted) 1700000001 False
      demo_processor no_rows = Some (no_rows, Inr (demo_processor, [event]))" ..
  from pushed_alerts_have_a_known_type [OF demo_lists_sets demo_history run, of event] demo_well_sourced(1) run show ?thesis
    by auto
qed

section \<open>What the bound on dismissals forgets\<close>

text \<open>With two hundred dismissals remembered, the next one may itself be forgotten at once, and the
  banner comes back with the next notice: the set is cut in the order in which it lists its elements.\<close>

theorem newest_dismissal_can_be_lost:
  assumes "card (dismissed_ids c) = MAX_DISMISSED" and "nid \<notin> dismissed_ids c" and "\<not> has_prefix platform_prefix nid"
    and "set_order env (insert nid (dismissed_ids c)) = nid # others" and "distinct (nid # others)" and "nid \<noteq> []"
    and "set (nid # others) = insert nid (dismissed_ids c)"
  shows "nid \<notin> dismissed_ids (fst (dismiss_notification env nid c))"
proof -
  have "finite (dismissed_ids c)" by (rule card_ge_0_finite) (simp add: assms(1) MAX_DISMISSED_def)
  with assms(1,2) have more: "card (insert nid (dismissed_ids c)) = Suc MAX_DISMISSED" by simp
  with assms(5,7) have "length others = MAX_DISMISSED" by (metis distinct_card length_Cons nat.inject)
  then have "last_n MAX_DISMISSED (nid # others) = others" by (simp add: last_n_def)
  with more assms(3-6) show ?thesis
    by (simp add: dismiss_notification_def remove_notification_id_def Let_def)
qed

lemma newest_dismissal_can_be_lost_witness:
  "\<exists>env. lists_sets env \<and> [200] \<notin> dismissed_ids (fst (dismiss_notification env [200]
     (center_init\<lparr>dismissed_ids := (\<lambda>i. [i]) ` {0..<200}\<rparr>)))"
proof -
  let ?old = "(\<lambda>i. [i :: nat]) ` {0..<200}" and ?others = "map (\<lambda>i. [i]) [0..<200 :: nat]"
  let ?env = "demo_banner_env\<lparr>set_order := \<lambda>ids. if ids = insert [200] ?old then [200] # ?others else sorted_list_of_set ids\<rparr>"
  have "set ?others = ?old" by (simp only: set_map set_upt)
  then have others: "set ([200] # ?others) = insert [200] ?old" by (simp only: list.set)
  have new: "[200] \<notin> ?old" by auto
  have "distinct ?others" by (simp add: distinct_map inj_on_def del: upt_rec_numeral)
  with new \<open>set ?others = ?old\<close> have distinct: "distinct ([200] # ?others)" by (simp only: distinct.simps) simp
  have "card ?old = MAX_DISMISSED" by (subst card_image) (simp_all add: inj_on_def MAX_DISMISSED_def)
  moreover have "\<not> has_prefix platform_prefix [200]" by (simp add: has_prefix_def platform_prefix_def py_def)
  moreover have "set_order ?env (insert [200] (dismissed_ids (center_init\<lparr>dismissed_ids := ?old\<rparr>))) = [200] # ?others"
    by (simp del: upt_rec_numeral)
  ultimately have "[200] \<notin> dismissed_ids (fst (dismiss_notification ?env [200] (center_init\<lparr>dismissed_ids := ?old\<rparr>)))"
    using new distinct others by (intro newest_dismissal_can_be_lost [where others = ?others]) (simp_all only: center.simps, simp_all)
  moreover have "lists_sets ?env"
    unfolding lists_sets_def using others distinct by (auto simp del: distinct.simps set_simps upt_rec_numeral)
  ultimately show ?thesis by blast
qed

end
