(* ===== verification/ControllerState.thy ===== *)
theory ControllerState
  imports PushEvents PythonUrl
begin

text \<open>
  What the dashboard server knows of the inverter controller (\<open>MqttState\<close> of \<open>server.py\<close>, lines
  152-229 and 413-428), and the checks of command bodies and of controller status
  (\<open>controller_commands.py\<close>, \<open>ess_mode.py\<close>). Observations carry two clocks, as in the code:
  \<open>mtime\<close> is \<open>time.monotonic()\<close>, \<open>wall\<close> is \<open>time.time()\<close>. The device overlays of the native
  sections are left out; \<open>overlaid\<close> tells which keys they own.
\<close>

section \<open>Command bodies\<close>

definition body_has :: "pyval \<Rightarrow> string set \<Rightarrow> bool" where
  "body_has v keys \<longleftrightarrow> is_dict v \<and> set (map fst (py_items v)) = py ` keys"

definition id_char :: "nat \<Rightarrow> bool" where
  "id_char c \<longleftrightarrow> is_alpha c \<or> is_num c \<or> c \<in> {0x2E, 0x5F, 0x3A, 0x2D}"

fun request_id_valid :: "pyval \<Rightarrow> bool" where
  "request_id_valid (PyStr s) \<longleftrightarrow> s \<noteq> [] \<and> length s \<le> 128 \<and> list_all id_char s"
| "request_id_valid _ \<longleftrightarrow> False"

fun int32_or_null :: "pyval \<Rightarrow> bool" where
  "int32_or_null PyNone \<longleftrightarrow> True"
| "int32_or_null (PyInt i) \<longleftrightarrow> - (2 ^ 31) \<le> i \<and> i < 2 ^ 31"
| "int32_or_null _ \<longleftrightarrow> False"

fun none_or_str :: "pyval \<Rightarrow> bool" where
  "none_or_str PyNone \<longleftrightarrow> True"
| "none_or_str (PyStr s) \<longleftrightarrow> True"
| "none_or_str _ \<longleftrightarrow> False"

record override_status =
  o_value :: pyval
  o_error :: pyval
  o_request :: pyval

definition override_status :: "pyval \<Rightarrow> override_status option" where
  "override_status v =
     (if \<not> is_dict v \<or> \<not> py ` {''value'', ''last_error'', ''request_id''} \<subseteq> set (map fst (py_items v)) then None
      else if \<not> int32_or_null (py_item v ''value'') then None
      else if \<not> none_or_str (py_item v ''last_error'') \<or> \<not> none_or_str (py_item v ''request_id'') then None
      else Some \<lparr>o_value = py_item v ''value'', o_error = py_item v ''last_error'',
                 o_request = py_item v ''request_id''\<rparr>)"

definition validate_override :: "pyval \<Rightarrow> pyval outcome" where
  "validate_override body =
     (if \<not> body_has body {''value'', ''request_id''} \<or> \<not> int32_or_null (py_item body ''value'')
         \<or> \<not> request_id_valid (py_item body ''request_id'')
      then Inl ValueError else Inr body)"

text \<open>\<open>json.dumps\<close> with \<open>allow_nan=False\<close> raises for the special floats.\<close>

fun json_finite :: "pyval \<Rightarrow> bool" where
  "json_finite (PyFloat (Num q)) \<longleftrightarrow> True"
| "json_finite (PyFloat _) \<longleftrightarrow> False"
| "json_finite (PyList vs) \<longleftrightarrow> list_all json_finite vs"
| "json_finite (PyDict kvs) \<longleftrightarrow> list_all (\<lambda>(k, v). json_finite v) kvs"
| "json_finite _ \<longleftrightarrow> True"

definition encode_body :: "runtime \<Rightarrow> pyval \<Rightarrow> pystring outcome" where
  "encode_body rt body = (if json_finite body then Inr (json rt body) else Inl ValueError)"

definition validate_tariff :: "runtime \<Rightarrow> pyval \<Rightarrow> pyval outcome" where
  "validate_tariff rt body =
     (if \<not> body_has body {''plan'', ''revision'', ''request_id''} \<or> \<not> request_id_valid (py_item body ''request_id'')
         \<or> (case as_str (py_item body ''revision'') of None \<Rightarrow> True | Some r \<Rightarrow> \<not> hex64 r) then Inl ValueError
      else if py_item body ''plan'' \<noteq> PyNone \<and> \<not> is_dict (py_item body ''plan'') then Inl ValueError
      else case encode_body rt body of
          Inl e \<Rightarrow> Inl ValueError
        | Inr text \<Rightarrow>
            (case encode text of
               Inl e \<Rightarrow> Inl ValueError
             | Inr bytes \<Rightarrow> if length bytes > 100000 then Inl ValueError else Inr body))"

definition ess_modes :: "pystring set" where
  "ess_modes = py ` {''off'', ''on'', ''optimized_with_battery_life'', ''optimized_without_battery_life'',
     ''keep_batteries_charged'', ''external_control''}"

definition validate_selection :: "pyval \<Rightarrow> pyval outcome" where
  "validate_selection body =
     (if \<not> body_has body {''mode'', ''request_id''}
         \<or> (case as_str (py_item body ''mode'') of None \<Rightarrow> True | Some m \<Rightarrow> m \<notin> ess_modes)
         \<or> \<not> request_id_valid (py_item body ''request_id'')
      then Inl ValueError else Inr body)"

section \<open>Controller status\<close>

text \<open>\<open>fresh\<close> of \<open>controller_commands.py\<close>; the times observed are floats of the server's clock.\<close>

definition recent :: "rat \<Rightarrow> rat option \<Rightarrow> bool" where
  "recent wall seen_at =
     (case seen_at of None \<Rightarrow> False | Some t \<Rightarrow> 0 \<le> wall - t \<and> wall - t \<le> 30)"

definition tariff_status :: "pyval \<Rightarrow> pyval" where
  "tariff_status state =
     (let ui = py_get state ''ui_config'' PyNone;
          status = (if is_dict ui then py_get ui ''electricity_tariff_status'' PyNone else PyNone)
      in if is_dict status then status else PyDict [])"

definition telemetry_ready :: "pyval \<Rightarrow> rat option \<Rightarrow> pyval \<Rightarrow> rat \<Rightarrow> bool" where
  "telemetry_ready mode seen_at dry_run wall \<longleftrightarrow>
     is_dict mode \<and> py_get mode ''selection_supported'' PyNone = PyBool True \<and> recent wall seen_at
     \<and> dry_run = PyBool False"

section \<open>\<open>MqttState\<close>\<close>

record controller =
  daemon_at :: "rat option"
  command_at :: "rat option"
  tiles :: "(pystring \<times> pyval) list"
  daemon_keys :: "pystring list"
  ess :: "pyval option"
  ess_at :: "rat option"
  override_at :: "rat option"
  sequence :: nat
  tariff_at :: "rat option"
  capabilities :: pyval

definition controller_init :: controller where
  "controller_init = \<lparr>daemon_at = None, command_at = None, tiles = [], daemon_keys = [], ess = None, ess_at = None,
     override_at = None, sequence = 0, tariff_at = None, capabilities = PyDict []\<rparr>"

definition server_fields :: "pystring set" where
  "server_fields = py ` {''ess_mode_observed_at'', ''ess_mode_controls_available'',
     ''setpoint_override_observed_at'', ''setpoint_override_controls_available'',
     ''electricity_tariff_observed_at'', ''electricity_tariff_controls_available'', ''grid_backup_observed_at''}"

text \<open>\<open>NATIVE_SECTION_KEYS\<close>: what only the device itself says.\<close>

definition native_section_keys :: "pystring set" where
  "native_section_keys = py ` {''car_soc'', ''ev_power'', ''car_charging_power'', ''ev_charging_kw'', ''ev_charging_power'',
     ''ev_present'', ''evcharger_present'', ''discovered_water_ev'', ''battery_soc'', ''loads'', ''load_names'',
     ''water_level'', ''water_valve'', ''pump_switch'', ''water_valve_mode'', ''pump_mode'', ''water_pump_mode''}"

fun control_boolean :: "pyval \<Rightarrow> pyval" where
  "control_boolean (PyBool b) = PyBool b"
| "control_boolean (PyStr s) =
     (let t = lower (strip s) in
      if t \<in> {py ''true'', py ''1'', py ''on''} then PyBool True
      else if t \<in> {py ''false'', py ''0'', py ''off''} then PyBool False else PyNone)"
| "control_boolean (PyInt i) = (if i = 0 then PyBool False else if i = 1 then PyBool True else PyNone)"
| "control_boolean (PyFloat n) =
     (if n = Num 0 then PyBool False else if n = Num 1 then PyBool True else PyNone)"
| "control_boolean _ = PyNone"

definition observe_override :: "bool \<Rightarrow> pyval \<Rightarrow> rat \<Rightarrow> controller \<Rightarrow> controller" where
  "observe_override retained v wall c =
     (let status = override_status v;
          document = (case status of None \<Rightarrow> PyNone
            | Some s \<Rightarrow> PyDict [(py ''value'', o_value s), (py ''last_error'', o_error s), (py ''request_id'', o_request s)])
      in c\<lparr>tiles := AList.update (py ''setpoint_override'') document (tiles c),
           override_at := (if status = None \<or> retained then None else Some wall),
           sequence := (if status \<noteq> None \<and> \<not> retained then Suc (sequence c) else sequence c)\<rparr>)"

definition observe :: "bool \<Rightarrow> pyval \<Rightarrow> rat \<Rightarrow> controller \<Rightarrow> controller" where
  "observe retained incoming wall c =
     (let c1 = (case map_of (py_items incoming) (py ''setpoint_override'') of
                  None \<Rightarrow> c | Some v \<Rightarrow> observe_override retained v wall c)
      in if py ''ui_config'' \<in> set (map fst (py_items incoming))
         then c1\<lparr>tariff_at := if retained then None else Some wall\<rparr> else c1)"

text \<open>\<open>_merge_daemon_field\<close>: \<open>booleans\<close> are merged one by one, every other key is replaced.\<close>

definition merge_field :: "(pystring \<Rightarrow> bool) \<Rightarrow> pystring \<times> pyval \<Rightarrow> controller \<Rightarrow> controller" where
  "merge_field overlaid kv c =
     (case kv of (key, v) \<Rightarrow>
        if overlaid key \<or> key \<in> native_section_keys \<or> key \<in> server_fields then c
        else if key = py ''booleans'' then
          c\<lparr>tiles := AList.update key
              (if is_dict v
               then PyDict (fold (\<lambda>(k, x). AList.update k (control_boolean x)) (py_items v)
                      (py_items (case map_of (tiles c) key of None \<Rightarrow> PyNone | Some b \<Rightarrow> b)))
               else PyNone) (tiles c)\<rparr>
        else c\<lparr>tiles := AList.update key v (tiles c)\<rparr>)"

definition merge_daemon_state ::
  "(pystring \<Rightarrow> bool) \<Rightarrow> bool \<Rightarrow> pyval \<Rightarrow> rat \<Rightarrow> rat \<Rightarrow> controller \<Rightarrow> controller" where
  "merge_daemon_state overlaid retained incoming mtime wall c =
     (let c1 = c\<lparr>daemon_at := Some mtime, command_at := if retained then None else Some mtime,
                 daemon_keys := filter (\<lambda>k. k \<notin> native_section_keys \<and> k \<notin> server_fields) (map fst (py_items incoming))
                   @ daemon_keys c\<rparr>;
          c2 = (case map_of (py_items incoming) (py ''ess_mode'') of
                  None \<Rightarrow> c1
                | Some mode \<Rightarrow> c1\<lparr>ess := if is_dict mode then Some mode else None,
                                  ess_at := if is_dict mode \<and> \<not> retained then Some wall else None\<rparr>)
      in observe retained incoming wall (fold (merge_field overlaid) (py_items incoming) c2))"

definition clear_daemon_state :: "controller \<Rightarrow> controller" where
  "clear_daemon_state c =
     (let blank = fold (\<lambda>k. AList.update k PyNone) (daemon_keys c) (tiles c)
      in c\<lparr>tiles := (if blank = [] then [] else AList.update (py ''setpoint_override'') PyNone blank),
           daemon_at := None, command_at := None, ess := None, ess_at := None, override_at := None,
           tariff_at := None\<rparr>)"

text \<open>\<open>controller_available\<close> clears a state that is older than two minutes.\<close>

definition controller_available :: "rat \<Rightarrow> controller \<Rightarrow> controller \<times> bool" where
  "controller_available mtime c =
     (case daemon_at c of
        None \<Rightarrow> (c, False)
      | Some t \<Rightarrow> if mtime - t > 120 then (clear_daemon_state c, False) else (c, True))"

definition controller_commands_available :: "rat \<Rightarrow> controller \<Rightarrow> controller \<times> bool" where
  "controller_commands_available mtime c =
     (case controller_available mtime c of
        (c1, ok) \<Rightarrow> (c1, ok \<and> (case command_at c of None \<Rightarrow> False | Some t \<Rightarrow> 0 \<le> mtime - t \<and> mtime - t \<le> 30)))"

text \<open>\<open>get_state\<close>, for the keys that the command checks read.\<close>

definition get_state :: "controller \<Rightarrow> pyval" where
  "get_state c = PyDict (tiles c)"

text \<open>The controller's part of \<open>gateway.apply_snapshot\<close>.\<close>

definition apply_snapshot :: "(pystring \<Rightarrow> bool) \<Rightarrow> pyval \<Rightarrow> rat \<Rightarrow> rat \<Rightarrow> controller \<Rightarrow> controller" where
  "apply_snapshot overlaid snap mtime wall c =
     (let caps = py_get snap ''capabilities'' PyNone;
          c1 = c\<lparr>capabilities := if is_dict caps then caps else PyDict []\<rparr>;
          c2 = (case map_of (py_items snap) (py ''inverter'') of
                  None \<Rightarrow> c1
                | Some v \<Rightarrow>
                    if is_dict v then merge_daemon_state overlaid False v mtime wall (clear_daemon_state c1)
                    else if v = PyNone then clear_daemon_state c1 else c1)
      in if py_get (capabilities c2) ''setpoint_override'' PyNone \<noteq> PyBool True
         then c2\<lparr>tiles := AList.update (py ''setpoint_override'') PyNone (tiles c2), override_at := None\<rparr>
         else c2)"

section \<open>Where a permission comes from\<close>

text \<open>What can happen to the state: a state message and an override status over MQTT, each retained by
  the broker or live, a gateway snapshot, and losing the controller (an empty state message, a lost
  connection, or two minutes of silence).\<close>

datatype observation =
    StateMessage bool pyval
  | OverrideMessage bool pyval
  | Snapshot pyval
  | ClearState

fun observed :: "(pystring \<Rightarrow> bool) \<Rightarrow> observation \<Rightarrow> rat \<Rightarrow> rat \<Rightarrow> controller \<Rightarrow> controller" where
  "observed overlaid (StateMessage retained v) mtime wall c = merge_daemon_state overlaid retained v mtime wall c"
| "observed overlaid (OverrideMessage retained v) mtime wall c =
     observe retained (PyDict [(py ''setpoint_override'', v)]) wall c"
| "observed overlaid (Snapshot snap) mtime wall c = apply_snapshot overlaid snap mtime wall c"
| "observed overlaid ClearState mtime wall c = clear_daemon_state c"

text \<open>The override status that an observation carries, and whether it says anything about it at all.\<close>

definition state_override :: "pyval \<Rightarrow> pyval option" where
  "state_override v = map_of (py_items v) (py ''setpoint_override'')"

fun live_status :: "observation \<Rightarrow> override_status option" where
  "live_status (StateMessage retained v) =
     (if retained then None else Option.bind (state_override v) override_status)"
| "live_status (OverrideMessage retained v) = (if retained then None else override_status v)"
| "live_status (Snapshot snap) =
     (case map_of (py_items snap) (py ''inverter'') of
        None \<Rightarrow> None | Some v \<Rightarrow> if is_dict v then Option.bind (state_override v) override_status else None)"
| "live_status ClearState = None"

fun silent :: "observation \<Rightarrow> bool" where
  "silent (StateMessage retained v) \<longleftrightarrow> state_override v = None"
| "silent (OverrideMessage retained v) \<longleftrightarrow> False"
| "silent (Snapshot snap) \<longleftrightarrow>
     (case map_of (py_items snap) (py ''inverter'') of None \<Rightarrow> True | Some v \<Rightarrow> \<not> is_dict v \<and> v \<noteq> PyNone)"
| "silent ClearState \<longleftrightarrow> False"

inductive history :: "(pystring \<Rightarrow> bool) \<Rightarrow> controller \<Rightarrow> (observation \<times> rat) list \<Rightarrow> bool" for overlaid where
  unknown: "history overlaid controller_init []"
| later: "history overlaid c hist \<Longrightarrow> history overlaid (observed overlaid ob mtime wall c) (hist @ [(ob, wall)])"

definition status_document :: "override_status \<Rightarrow> pyval" where
  "status_document s =
     PyDict [(py ''value'', o_value s), (py ''last_error'', o_error s), (py ''request_id'', o_request s)]"

definition displays :: "controller \<Rightarrow> rat \<Rightarrow> override_status \<Rightarrow> bool" where
  "displays c t s \<longleftrightarrow> override_at c = Some t \<and> map_of (tiles c) (py ''setpoint_override'') = Some (status_document s)"

lemma map_of_update [simp]: "map_of (AList.update k v xs) k1 = (if k1 = k then Some v else map_of xs k1)"
  by (simp add: update_conv')

lemma override_status_again: "override_status v = Some s \<Longrightarrow> override_status (status_document s) = Some s"
  by (auto simp: override_status_def status_document_def py_item_def split: if_splits)

lemma observe_override_at:
  "override_at (observe retained v wall c) =
     (case state_override v of None \<Rightarrow> override_at c
      | Some x \<Rightarrow> if override_status x = None \<or> retained then None else Some wall)"
  "map_of (tiles (observe retained v wall c)) (py ''setpoint_override'') =
     (case state_override v of None \<Rightarrow> map_of (tiles c) (py ''setpoint_override'')
      | Some x \<Rightarrow> Some (case override_status x of None \<Rightarrow> PyNone | Some s \<Rightarrow> status_document s))"
  by (auto simp: observe_def observe_override_def state_override_def status_document_def Let_def split: option.splits)

lemma merge_field_at [simp]: "override_at (merge_field overlaid kv c) = override_at c"
  by (auto simp: merge_field_def split: prod.splits)

lemma merge_fields_at [simp]: "override_at (fold (merge_field overlaid) kvs c) = override_at c"
  by (induction kvs arbitrary: c) simp_all

lemma merge_fields_tile:
  "py ''setpoint_override'' \<notin> fst ` set kvs \<Longrightarrow>
     map_of (tiles (fold (merge_field overlaid) kvs c)) (py ''setpoint_override'') = map_of (tiles c) (py ''setpoint_override'')"
proof (induction kvs arbitrary: c)
  case (Cons kv kvs)
  then have "map_of (tiles (merge_field overlaid kv c)) (py ''setpoint_override'') = map_of (tiles c) (py ''setpoint_override'')"
    by (cases kv) (auto simp: merge_field_def)
  with Cons show ?case by simp
qed simp

lemma merge_daemon_state_at:
  "override_at (merge_daemon_state overlaid retained v mtime wall c) =
     (case state_override v of None \<Rightarrow> override_at c
      | Some x \<Rightarrow> if override_status x = None \<or> retained then None else Some wall)"
  "map_of (tiles (merge_daemon_state overlaid retained v mtime wall c)) (py ''setpoint_override'') =
     (case state_override v of None \<Rightarrow> map_of (tiles c) (py ''setpoint_override'')
      | Some x \<Rightarrow> Some (case override_status x of None \<Rightarrow> PyNone | Some s \<Rightarrow> status_document s))"
proof -
  have "py ''setpoint_override'' \<notin> fst ` set (py_items v)" if "state_override v = None"
    using that by (simp add: state_override_def map_of_eq_None_iff)
  then show
    "override_at (merge_daemon_state overlaid retained v mtime wall c) =
     (case state_override v of None \<Rightarrow> override_at c
      | Some x \<Rightarrow> if override_status x = None \<or> retained then None else Some wall)"
    "map_of (tiles (merge_daemon_state overlaid retained v mtime wall c)) (py ''setpoint_override'') =
     (case state_override v of None \<Rightarrow> map_of (tiles c) (py ''setpoint_override'')
      | Some x \<Rightarrow> Some (case override_status x of None \<Rightarrow> PyNone | Some s \<Rightarrow> status_document s))"
    by (auto simp: merge_daemon_state_def observe_override_at merge_fields_tile Let_def split: option.splits)
qed

lemma clear_at [simp]: "override_at (clear_daemon_state c) = None"
  by (simp add: clear_daemon_state_def Let_def)

text \<open>One observation: it brings the status shown, or says nothing and leaves it.\<close>

lemma observed_shows:
  assumes "override_at (observed overlaid ob mtime wall c) = Some t"
  shows "(\<exists>s. live_status ob = Some s \<and> t = wall \<and> displays (observed overlaid ob mtime wall c) t s)
    \<or> silent ob \<and> override_at c = Some t
      \<and> map_of (tiles (observed overlaid ob mtime wall c)) (py ''setpoint_override'') = map_of (tiles c) (py ''setpoint_override'')"
proof (cases ob)
  case (StateMessage retained v)
  with assms show ?thesis
    by (auto simp: merge_daemon_state_at displays_def split: option.splits if_splits)
next
  case (OverrideMessage retained v)
  have "state_override (PyDict [(py ''setpoint_override'', v)]) = Some v" by (simp add: state_override_def)
  with OverrideMessage assms show ?thesis
    by (auto simp: observe_override_at displays_def split: option.splits if_splits)
next
  case (Snapshot snap)
  with assms show ?thesis
    by (auto simp: apply_snapshot_def merge_daemon_state_at displays_def Let_def split: option.splits if_splits)
qed (use assms in simp)

text \<open>C24: A recorded observation time, without which no override command is permitted, comes from a live
  status, never from a retained one, and the status shown is that one: nothing later said anything
  about the override.\<close>

theorem override_permission_is_live:
  assumes "history overlaid c hist" and "override_at c = Some t"
  shows "\<exists>before ob s after. hist = before @ (ob, t) # after \<and> live_status ob = Some s
    \<and> (\<forall>(x, _) \<in> set after. silent x) \<and> override_status (py_get (get_state c) ''setpoint_override'' PyNone) = Some s"
proof -
  have "\<exists>before ob s after. hist = before @ (ob, t) # after \<and> live_status ob = Some s
      \<and> (\<forall>(x, _) \<in> set after. silent x) \<and> displays c t s" using assms
  proof (induction rule: history.induct)
    case unknown
    then show ?case by (simp add: controller_init_def)
  next
    case (later c hist ob mtime wall)
    from observed_shows [OF later.prems] show ?case
    proof (elim disjE exE conjE)
      fix s
      assume "live_status ob = Some s" "t = wall" "displays (observed overlaid ob mtime wall c) t s"
      then show ?thesis by (intro exI [of _ hist] exI [of _ ob] exI [of _ s] exI [of _ "[]"]) simp
    next
      assume quiet: "silent ob" "override_at c = Some t" and tile: "map_of (tiles (observed overlaid ob mtime wall c))
        (py ''setpoint_override'') = map_of (tiles c) (py ''setpoint_override'')"
      from later.IH [OF quiet(2)] obtain before ob1 s after where
        "hist = before @ (ob1, t) # after" "live_status ob1 = Some s" "\<forall>(x, _) \<in> set after. silent x" "displays c t s"
        by blast
      with quiet(1) tile later.prems show ?thesis
        by (intro exI [of _ before] exI [of _ ob1] exI [of _ s] exI [of _ "after @ [(ob, wall)]"]) (auto simp: displays_def)
    qed
  qed
  then obtain before ob s after where h: "hist = before @ (ob, t) # after" "live_status ob = Some s"
    "\<forall>(x, _) \<in> set after. silent x" "displays c t s" by blast
  have "\<exists>v. override_status v = Some s"
    using h(2) by (cases ob) (auto simp: bind_eq_Some_conv split: if_splits option.splits)
  with h(4) have "override_status (py_get (get_state c) ''setpoint_override'' PyNone) = Some s"
    by (auto simp: displays_def get_state_def py_get_def dest: override_status_again)
  with h show ?thesis by blast
qed

definition demo_seen :: pyval where
  "demo_seen = PyDict [(py ''value'', PyInt 5), (py ''last_error'', PyNone), (py ''request_id'', pylit ''a'')]"

lemma override_permission_is_live_witness:
  "override_status (py_get (get_state (observed (\<lambda>_. False) (OverrideMessage False demo_seen) 7 9 controller_init))
     ''setpoint_override'' PyNone) \<noteq> None"
proof -
  have s: "override_status demo_seen \<noteq> None"
    by (simp add: demo_seen_def override_status_def py_item_def py_def)
  then have "override_at (observed (\<lambda>_. False) (OverrideMessage False demo_seen) 7 9 controller_init) = Some 9"
    by (simp add: observe_override_at state_override_def)
  from override_permission_is_live [OF history.later [OF history.unknown] this] show ?thesis by auto
qed

end
