(* ===== verification/CommandDispatch.thy ===== *)
theory CommandDispatch
  imports ControllerState DeviceState
begin

text \<open>
  How a command of a WebSocket client reaches the inverter controller (\<open>websocket_handler.py\<close>,
  \<open>gateway.run_ess_selection\<close>, \<open>gateway.post_command\<close>). The server selects one live source at a
  time, MQTT or the gateway, and numbers its selections; a command captures the selection when it
  starts and checks it again after every await, in the same stretch in which it sends. A command
  is a task whose segments run between awaits; everything else in the server is its environment.
  The \<open>hub\<close> is what the checks read: the selection, the transport flags and the \<open>MqttState\<close>
  objects by identity, each with what it knows of the controller and its cache of device values.
\<close>

record hub =
  generation :: nat
  active :: string
  gateway_only :: bool
  data_source :: string
  mqtt_up :: bool
  gateway_up :: bool
  mqtt_client :: "nat option"
  owner :: "nat option"
  controllers :: "nat \<Rightarrow> controller"
  caches :: "nat \<Rightarrow> cache"
  portal_id :: pystring
  config_portal :: pystring
  wall_now :: rat
  mono_now :: rat

text \<open>The selection a command captures when it starts.\<close>

record selection =
  sel_owner :: "nat option"
  sel_generation :: nat
  sel_remote :: bool
  sel_client :: "nat option"

section \<open>The selected source\<close>

definition prefer_gateway :: "hub \<Rightarrow> bool" where
  "prefer_gateway h = (if active h \<noteq> ''none'' then active h = ''igw'' else gateway_only h)"

definition current_source :: "selection \<Rightarrow> hub \<Rightarrow> bool" where
  "current_source sel h \<longleftrightarrow>
     sel_owner sel = owner h \<and> sel_generation sel = generation h \<and> sel_remote sel = prefer_gateway h"

definition transport_connected :: "bool \<Rightarrow> hub \<Rightarrow> bool" where
  "transport_connected remote h \<longleftrightarrow>
     data_source h = (if remote then ''igw'' else ''mqtt'') \<and> (if remote then gateway_up h else mqtt_up h)"

definition current_mqtt_client :: "nat option \<Rightarrow> hub \<Rightarrow> bool" where
  "current_mqtt_client c h \<longleftrightarrow> c \<noteq> None \<and> c = mqtt_client h"

definition select :: "nat option \<Rightarrow> hub \<Rightarrow> selection" where
  "select client h = \<lparr>sel_owner = owner h, sel_generation = generation h, sel_remote = prefer_gateway h,
     sel_client = client\<rparr>"

text \<open>\<open>set_active_source\<close> and \<open>_new_source_state\<close>: every new selection has a new number, and a new
  source a new state object.\<close>

definition set_active_source :: "string \<Rightarrow> hub \<Rightarrow> hub" where
  "set_active_source source h = h\<lparr>generation := Suc (generation h), active := source\<rparr>"

definition new_source_state :: "string \<Rightarrow> nat \<Rightarrow> hub \<Rightarrow> hub" where
  "new_source_state source o1 h =
     h\<lparr>owner := Some o1, data_source := source, controllers := (controllers h)(o1 := controller_init),
       caches := (caches h)(o1 := cache_init), portal_id := config_portal h\<rparr>"

section \<open>What each command checks\<close>

text \<open>Reading the state of a controller first drops it when it is too old.\<close>

definition with_controller :: "hub \<Rightarrow> (controller \<Rightarrow> controller \<times> bool) \<Rightarrow> hub \<times> (nat \<times> controller) option" where
  "with_controller h check =
     (case owner h of
        None \<Rightarrow> (h, None)
      | Some i \<Rightarrow>
          (case check (controllers h i) of
             (c, ok) \<Rightarrow> (h\<lparr>controllers := (controllers h)(i := c)\<rparr>, if ok then Some (i, c) else None)))"

definition capable :: "string \<Rightarrow> hub \<Rightarrow> controller \<Rightarrow> bool" where
  "capable name h c \<longleftrightarrow> (prefer_gateway h \<longrightarrow> py_get (capabilities c) name PyNone = PyBool True)"

definition can_controller_command :: "string \<Rightarrow> hub \<Rightarrow> hub \<times> bool" where
  "can_controller_command name h =
     (case with_controller h (controller_available (mono_now h)) of
        (h1, None) \<Rightarrow> (h1, False)
      | (h1, Some (i, c)) \<Rightarrow>
          (h1, transport_connected (prefer_gateway h) h \<and> capable name h c
             \<and> (if name = ''setpoint_override''
                then override_status (py_get (get_state c) name PyNone) \<noteq> None \<and> recent (wall_now h) (override_at c)
                else py_get (tariff_status (get_state c)) ''writable'' PyNone = PyBool True
                     \<and> recent (wall_now h) (tariff_at c))))"

definition owner_state :: "selection \<Rightarrow> hub \<Rightarrow> pyval" where
  "owner_state sel h = (case sel_owner sel of None \<Rightarrow> PyDict [] | Some i \<Rightarrow> get_state (controllers h i))"

definition check_controller_command :: "string \<Rightarrow> pyval \<Rightarrow> selection \<Rightarrow> hub \<Rightarrow> hub \<times> bool" where
  "check_controller_command name body sel h =
     (if \<not> current_source sel h then (h, False)
      else case can_controller_command name h of
          (h1, ok) \<Rightarrow>
            (h1, ok \<and> (sel_remote sel \<or> current_mqtt_client (sel_client sel) h)
               \<and> (name = ''electricity_tariff'' \<longrightarrow>
                    py_get (tariff_status (owner_state sel h1)) ''revision'' PyNone = py_item body ''revision'')))"

definition can_select_ess_mode :: "hub \<Rightarrow> hub \<times> bool" where
  "can_select_ess_mode h =
     (case with_controller h (controller_available (mono_now h)) of
        (h1, None) \<Rightarrow> (h1, False)
      | (h1, Some (i, c)) \<Rightarrow>
          (h1, (if prefer_gateway h then gateway_up h else mqtt_up h) \<and> capable ''set_ess_mode'' h c
             \<and> telemetry_ready (case ess c of None \<Rightarrow> PyNone | Some m \<Rightarrow> m) (ess_at c)
                 (py_get (get_state c) ''dry_run'' PyNone) (wall_now h)))"

definition check_ess_mode :: "selection \<Rightarrow> hub \<Rightarrow> hub \<times> bool" where
  "check_ess_mode sel h =
     (if \<not> current_source sel h \<or> \<not> transport_connected (sel_remote sel) h then (h, False)
      else case can_select_ess_mode h of
          (h1, ok) \<Rightarrow> (h1, ok \<and> (sel_remote sel \<or> current_mqtt_client (sel_client sel) h)))"

definition check_controller_transport :: "selection \<Rightarrow> hub \<Rightarrow> hub \<times> bool" where
  "check_controller_transport sel h =
     (if \<not> current_source sel h then (h, False)
      else case with_controller h (controller_commands_available (mono_now h)) of
          (h1, None) \<Rightarrow> (h1, False)
        | (h1, Some _) \<Rightarrow>
            (h1, transport_connected (sel_remote sel) h \<and> (sel_remote sel \<or> current_mqtt_client (sel_client sel) h)))"

text \<open>\<open>_notification_portal\<close>: the learned portal before the configured one.\<close>

definition notification_portal :: "hub \<Rightarrow> pystring" where
  "notification_portal h = (if owner h \<noteq> None \<and> portal_id h \<noteq> [] then portal_id h else config_portal h)"

definition portal_ok :: "pystring \<Rightarrow> bool" where
  "portal_ok p \<longleftrightarrow> p \<noteq> [] \<and> \<not> list_ex (\<lambda>c. c \<in> {0x2F, 0x2B, 0x23} \<or> is_space c \<or> c < 32) p"

definition check_notification :: "pystring \<Rightarrow> selection \<Rightarrow> hub \<Rightarrow> hub \<times> bool" where
  "check_notification captured sel h =
     (h, owner h \<noteq> None \<and> current_source sel h \<and> transport_connected (sel_remote sel) h \<and> captured = notification_portal h
        \<and> (sel_remote sel \<or> current_mqtt_client (sel_client sel) h \<and> portal_ok captured))"

section \<open>What the gateway's snapshot must say before a write\<close>

definition live_controller :: "string \<Rightarrow> pyval \<Rightarrow> pyval option" where
  "live_controller name snapshot =
     (let caps = py_get snapshot ''capabilities'' PyNone; c = py_get snapshot ''inverter'' PyNone
      in if is_dict caps \<and> py_get caps name PyNone = PyBool True \<and> is_dict c then Some c else None)"

definition validate_controller_snapshot :: "string \<Rightarrow> pyval \<Rightarrow> pyval option" where
  "validate_controller_snapshot name snapshot =
     (case live_controller name snapshot of
        None \<Rightarrow> None
      | Some c \<Rightarrow>
          if name = ''setpoint_override''
          then (if override_status (py_get c name PyNone) = None then None else Some c)
          else (if py_get (tariff_status c) ''writable'' PyNone = PyBool True then Some c else None))"

definition controller_preflight :: "string \<Rightarrow> pyval \<Rightarrow> pyval \<Rightarrow> bool" where
  "controller_preflight name body snapshot =
     (case validate_controller_snapshot name snapshot of
        None \<Rightarrow> False
      | Some c \<Rightarrow> name = ''electricity_tariff'' \<longrightarrow>
          py_get (tariff_status c) ''revision'' PyNone = py_item body ''revision'')"

definition ess_preflight :: "rat \<Rightarrow> pyval \<Rightarrow> bool" where
  "ess_preflight wall snapshot =
     (case live_controller ''set_ess_mode'' snapshot of
        None \<Rightarrow> False
      | Some c \<Rightarrow> telemetry_ready (py_get c ''ess_mode'' PyNone) (Some wall) (py_get c ''dry_run'' PyNone) wall)"

section \<open>A command as a task\<close>

text \<open>What is written: a publication on the MQTT session (with a JSON payload or an empty one), or a POST
  to the gateway.\<close>

datatype message = Publish pystring "pyval option" | PostCommand string pyval

text \<open>A command that passed its first check: its selection, its check, the preflight on a gateway
  snapshot, the message (\<open>None\<close> where building it raises), the acknowledgement it waits for
  (request id and value), and whether it checks again after the write.\<close>

record command =
  k_sel :: selection
  k_check :: "hub \<Rightarrow> hub \<times> bool"
  k_preflight :: "(hub \<Rightarrow> pyval \<Rightarrow> bool) option"
  k_message :: "message option"
  k_ack :: "(pyval \<times> pyval) option"
  k_recheck :: bool

text \<open>Where the task awaits, with the observation number at its write; and what it did.\<close>

datatype phase =
    Queued
  | Fetching
  | Posting
  | Sending nat
  | AckLoop nat
  | AckFetching nat
  | AckSeen nat
  | Closing
  | Ended bool

datatype event = Sent message | Confirmed

text \<open>How an await ends: cancelled (by the deadline or by a new selection), or with the answer of the
  network, \<open>None\<close> for an exception.\<close>

record net_answer =
  a_cancelled :: bool
  a_reply :: "pyval option"

type_synonym segment = "hub \<times> phase \<times> event option"

definition failed :: "hub \<Rightarrow> segment" where
  "failed h = (h, Ended False, None)"

definition checked :: "command \<Rightarrow> hub \<Rightarrow> (hub \<Rightarrow> segment) \<Rightarrow> segment" where
  "checked k h go = (case k_check k h of (h1, ok) \<Rightarrow> if ok then go h1 else failed h1)"

definition observation :: "command \<Rightarrow> hub \<Rightarrow> nat" where
  "observation k h = (case sel_owner (k_sel k) of None \<Rightarrow> 0 | Some i \<Rightarrow> sequence (controllers h i))"

definition write_message :: "command \<Rightarrow> hub \<Rightarrow> segment" where
  "write_message k h =
     (case k_message k of None \<Rightarrow> failed h | Some m \<Rightarrow> (h, Sending (observation k h), Some (Sent m)))"

text \<open>\<open>_wait_override_ack\<close>: \<open>read_ack\<close> looks at the status, \<open>ack_turn\<close> starts a turn of the loop.\<close>

definition read_ack :: "command \<Rightarrow> nat \<Rightarrow> hub \<Rightarrow> segment" where
  "read_ack k n h =
     (case (k_ack k, override_status (py_get (owner_state (k_sel k) h) ''setpoint_override'' PyNone)) of
        (Some (request, v), Some status) \<Rightarrow>
          if observation k h > n \<and> o_request status = request
          then (if o_error status \<noteq> PyNone \<or> o_value status \<noteq> v then failed h else (h, Closing, Some Confirmed))
          else (h, AckLoop n, None)
      | _ \<Rightarrow> (h, AckLoop n, None))"

definition ack_turn :: "command \<Rightarrow> nat \<Rightarrow> hub \<Rightarrow> segment" where
  "ack_turn k n h =
     checked k h (\<lambda>h1. if sel_remote (k_sel k) then (h1, AckFetching n, None) else read_ack k n h1)"

definition observe_snapshot :: "command \<Rightarrow> pyval \<Rightarrow> hub \<Rightarrow> hub" where
  "observe_snapshot k c h =
     (case sel_owner (k_sel k) of
        None \<Rightarrow> h
      | Some i \<Rightarrow> h\<lparr>controllers := (controllers h)(i :=
            observe_override False (py_get c ''setpoint_override'' PyNone) (wall_now h) (controllers h i))\<rparr>)"

definition segment :: "command \<Rightarrow> net_answer \<Rightarrow> hub \<Rightarrow> phase \<Rightarrow> segment" where
  "segment k a h p =
     (if a_cancelled a \<and> p \<noteq> Ended True then failed h
      else case p of
        Queued \<Rightarrow>
          checked k h (\<lambda>h1.
            if \<not> sel_remote (k_sel k) then write_message k h1
            else if k_preflight k \<noteq> None then (h1, Fetching, None)
            else if k_message k = None then failed h1 else (h1, Posting, None))
      | Fetching \<Rightarrow>
          (case (a_reply a, k_preflight k) of
             (Some snapshot, Some preflight) \<Rightarrow>
               if preflight h snapshot then checked k h (\<lambda>h1. (h1, Posting, None)) else failed h
           | _ \<Rightarrow> failed h)
      | Posting \<Rightarrow>
          if sel_generation (k_sel k) \<noteq> generation h then failed h else checked k h (write_message k)
      | Sending n \<Rightarrow>
          if a_reply a = None then failed h
          else if k_ack k \<noteq> None then ack_turn k n h
          else if k_recheck k then checked k h (\<lambda>h1. (h1, Closing, None)) else (h, Closing, None)
      | AckLoop n \<Rightarrow> ack_turn k n h
      | AckFetching n \<Rightarrow>
          (case a_reply a of
             None \<Rightarrow> failed h
           | Some snapshot \<Rightarrow>
               checked k h (\<lambda>h1.
                 case validate_controller_snapshot ''setpoint_override'' snapshot of
                   None \<Rightarrow> failed h1
                 | Some c \<Rightarrow> (observe_snapshot k c h1, AckSeen n, None)))
      | AckSeen n \<Rightarrow> checked k h (read_ack k n)
      | Closing \<Rightarrow>
          if sel_generation (k_sel k) \<noteq> generation h then failed h
          else if k_recheck k then checked k h (\<lambda>h1. (h1, Ended True, None)) else (h, Ended True, None)
      | Ended b \<Rightarrow> (h, Ended b, None))"

text \<open>Runs: the segments of the task between arbitrary changes of the rest of the server.\<close>

inductive command_run :: "command \<Rightarrow> hub \<Rightarrow> phase \<Rightarrow> (hub \<times> event) list \<Rightarrow> bool" for k where
  begun: "k_check k h = (h1, True) \<Longrightarrow> command_run k h1 Queued []"
| environment: "command_run k h p trail \<Longrightarrow> command_run k h1 p trail"
| segment: "command_run k h p trail \<Longrightarrow> segment k a h p = (h1, p1, e) \<Longrightarrow>
    command_run k h1 p1 (case e of None \<Rightarrow> trail | Some x \<Rightarrow> trail @ [(h1, x)])"

section \<open>The contract of a check\<close>

text \<open>What every check must answer for: the captured selection is the live one. \<open>authority\<close> is what a
  particular command needs beyond that.\<close>

definition on_source :: "selection \<Rightarrow> hub \<Rightarrow> bool" where
  "on_source sel h \<longleftrightarrow> current_source sel h \<and> transport_connected (sel_remote sel) h
     \<and> (sel_remote sel \<or> current_mqtt_client (sel_client sel) h)"

definition confirmed :: "command \<Rightarrow> nat \<Rightarrow> hub \<Rightarrow> bool" where
  "confirmed k n h \<longleftrightarrow> n < observation k h
     \<and> (\<exists>request v. k_ack k = Some (request, v)
          \<and> override_status (py_get (owner_state (k_sel k) h) ''setpoint_override'' PyNone)
              = Some \<lparr>o_value = v, o_error = PyNone, o_request = request\<rparr>)"

locale command_guard =
  fixes check :: "selection \<Rightarrow> hub \<Rightarrow> hub \<times> bool" and authority :: "hub \<Rightarrow> bool"
  assumes check_same: "check sel h = (h1, True) \<Longrightarrow> h1 = h"
    and check_source: "check sel h = (h1, True) \<Longrightarrow> on_source sel h"
    and check_authority: "check sel h = (h1, True) \<Longrightarrow> authority h"
begin

definition uses :: "command \<Rightarrow> bool" where
  "uses k \<longleftrightarrow> k_check k = check (k_sel k)"

definition sent_well :: "command \<Rightarrow> hub \<Rightarrow> message \<Rightarrow> bool" where
  "sent_well k h m \<longleftrightarrow> k_message k = Some m \<and> on_source (k_sel k) h \<and> authority h"

definition sent_only :: "command \<Rightarrow> nat \<Rightarrow> (hub \<times> event) list \<Rightarrow> bool" where
  "sent_only k n trail \<longleftrightarrow> (\<exists>h m. trail = [(h, Sent m)] \<and> sent_well k h m \<and> n = observation k h)"

definition sent_and_confirmed :: "command \<Rightarrow> (hub \<times> event) list \<Rightarrow> bool" where
  "sent_and_confirmed k trail \<longleftrightarrow> (\<exists>h m h2. trail = [(h, Sent m), (h2, Confirmed)] \<and> sent_well k h m
     \<and> on_source (k_sel k) h2 \<and> authority h2 \<and> confirmed k (observation k h) h2)"

definition completed :: "command \<Rightarrow> (hub \<times> event) list \<Rightarrow> bool" where
  "completed k trail \<longleftrightarrow> (if k_ack k = None then \<exists>n. sent_only k n trail else sent_and_confirmed k trail)"

fun story :: "command \<Rightarrow> phase \<Rightarrow> (hub \<times> event) list \<Rightarrow> bool" where
  "story k Queued trail \<longleftrightarrow> trail = []"
| "story k Fetching trail \<longleftrightarrow> trail = []"
| "story k Posting trail \<longleftrightarrow> trail = []"
| "story k (Sending n) trail \<longleftrightarrow> sent_only k n trail"
| "story k (AckLoop n) trail \<longleftrightarrow> sent_only k n trail \<and> k_ack k \<noteq> None"
| "story k (AckFetching n) trail \<longleftrightarrow> sent_only k n trail \<and> k_ack k \<noteq> None"
| "story k (AckSeen n) trail \<longleftrightarrow> sent_only k n trail \<and> k_ack k \<noteq> None"
| "story k Closing trail \<longleftrightarrow> completed k trail"
| "story k (Ended True) trail \<longleftrightarrow> completed k trail"
| "story k (Ended False) trail \<longleftrightarrow> trail = [] \<or> (\<exists>n. sent_only k n trail) \<or> sent_and_confirmed k trail"

fun tells :: "command \<Rightarrow> (hub \<times> event) list \<Rightarrow> segment \<Rightarrow> bool" where
  "tells k trail (h, p, None) \<longleftrightarrow> story k p trail"
| "tells k trail (h, p, Some x) \<longleftrightarrow> story k p (trail @ [(h, x)])"

lemma tells_failed [simp]: "tells k trail (failed h) \<longleftrightarrow> story k (Ended False) trail"
  by (simp add: failed_def)

lemma story_ends: "story k p trail \<Longrightarrow> story k (Ended False) trail"
  by (cases "(k, p, trail)" rule: story.cases) (auto simp: completed_def split: if_splits)

lemma tells_checked:
  assumes "uses k" and "story k p trail" and "on_source (k_sel k) h \<Longrightarrow> authority h \<Longrightarrow> tells k trail (go h)"
  shows "tells k trail (checked k h go)"
proof -
  obtain h1 ok where c: "k_check k h = (h1, ok)" by fastforce
  show ?thesis
  proof (cases ok)
    case True
    with c assms(1) have check: "check (k_sel k) h = (h1, True)" by (simp add: uses_def)
    from check_same [OF check] c True have "checked k h go = go h" by (simp add: checked_def)
    with assms(3) check_source [OF check] check_authority [OF check] show ?thesis by simp
  next
    case False
    with c story_ends [OF assms(2)] show ?thesis by (simp add: checked_def del: story.simps)
  qed
qed

lemma tells_write:
  assumes "on_source (k_sel k) h" and "authority h"
  shows "tells k [] (write_message k h)"
proof (cases "k_message k")
  case (Some m)
  with assms have "sent_only k (observation k h) [(h, Sent m)]" by (simp add: sent_only_def sent_well_def)
  with Some show ?thesis by (simp add: write_message_def)
qed (simp add: write_message_def)

lemma tells_read_ack:
  assumes sent: "sent_only k n trail" and "k_ack k \<noteq> None" and "on_source (k_sel k) h" and "authority h"
  shows "tells k trail (read_ack k n h)"
proof -
  from sent obtain h0 m where h0: "trail = [(h0, Sent m)]" "sent_well k h0 m" "n = observation k h0"
    by (auto simp: sent_only_def)
  have "completed k (trail @ [(h, Confirmed)])"
    if "k_ack k = Some (request, v)" "override_status (py_get (owner_state (k_sel k) h) ''setpoint_override'' PyNone) = Some st"
      "observation k h > n" "o_request st = request" "o_error st = PyNone" "o_value st = v" for request v st
  proof -
    from that have "confirmed k n h" by (cases st) (simp add: confirmed_def)
    with h0 assms(3,4) that(1) show ?thesis by (simp add: completed_def sent_and_confirmed_def)
  qed
  with sent assms(2) show ?thesis
    by (auto simp: read_ack_def split: option.splits)
qed

lemma tells_ack_turn:
  assumes "uses k" and "sent_only k n trail" and "k_ack k \<noteq> None"
  shows "tells k trail (ack_turn k n h)"
  unfolding ack_turn_def
proof (rule tells_checked [of _ "AckLoop n"])
  assume "on_source (k_sel k) h" "authority h"
  with tells_read_ack [OF assms(2,3)] assms(2,3)
  show "tells k trail (if sel_remote (k_sel k) then (h, AckFetching n, None) else read_ack k n h)" by simp
qed (use assms in simp_all)

lemma tells_segment:
  assumes "uses k" and "story k p trail"
  shows "tells k trail (segment k a h p)"
proof (cases "a_cancelled a \<and> p \<noteq> Ended True")
  case True
  with story_ends [OF assms(2)] show ?thesis by (simp add: segment_def del: story.simps)
next
  case False
  note ends = story_ends [OF assms(2)] and go = tells_checked [OF assms]
  show ?thesis
  proof (cases p)
    case Queued
    with assms(2) have "trail = []" by simp
    moreover have "tells k trail (checked k h (\<lambda>h1.
        if \<not> sel_remote (k_sel k) then write_message k h1
        else if k_preflight k \<noteq> None then (h1, Fetching, None)
        else if k_message k = None then failed h1 else (h1, Posting, None)))"
      using \<open>trail = []\<close> tells_write by (intro go) auto
    ultimately show ?thesis using False Queued by (simp add: segment_def)
  next
    case Fetching
    have "tells k trail (checked k h (\<lambda>h1. (h1, Posting, None)))"
      by (intro go) (use assms(2) Fetching in simp)
    with False Fetching ends show ?thesis
      by (simp add: segment_def del: story.simps split: option.splits)
  next
    case Posting
    with assms(2) have "trail = []" by simp
    have "tells k trail (checked k h (write_message k))"
      unfolding \<open>trail = []\<close> by (rule tells_checked [OF assms(1), of Posting]) (simp_all add: tells_write)
    with False Posting ends show ?thesis by (simp add: segment_def del: story.simps)
  next
    case (Sending n)
    with assms(2) have sent: "sent_only k n trail" by simp
    show ?thesis
    proof (cases "k_ack k = None")
      case True
      with sent have "completed k trail" by (auto simp: completed_def)
      moreover from this have "tells k trail (checked k h (\<lambda>h1. (h1, Closing, None)))" by (intro go) simp
      ultimately show ?thesis
        using False Sending ends True by (simp add: segment_def del: story.simps(10))
    next
      case ack: False
      with False Sending ends tells_ack_turn [OF assms(1) sent ack]
      show ?thesis by (simp add: segment_def del: story.simps(10))
    qed
  next
    case (AckLoop n)
    with assms False tells_ack_turn show ?thesis by (simp add: segment_def)
  next
    case (AckFetching n)
    with assms(2) have "sent_only k n trail" "k_ack k \<noteq> None" by simp_all
    then have "tells k trail (checked k h (\<lambda>h1.
        case validate_controller_snapshot ''setpoint_override'' snapshot of
          None \<Rightarrow> failed h1 | Some c \<Rightarrow> (observe_snapshot k c h1, AckSeen n, None)))" for snapshot
      by (intro go) (auto split: option.splits)
    with False AckFetching ends show ?thesis
      by (simp add: segment_def del: story.simps split: option.splits)
  next
    case (AckSeen n)
    have "tells k trail (checked k h (read_ack k n))"
      by (intro go) (use assms(2) AckSeen tells_read_ack in simp)
    with False AckSeen show ?thesis by (simp add: segment_def)
  next
    case Closing
    have "tells k trail (checked k h (\<lambda>h1. (h1, Ended True, None)))"
      by (intro go) (use assms(2) Closing in simp)
    with False Closing ends assms(2) show ?thesis by (simp add: segment_def)
  next
    case (Ended b)
    with False assms(2) show ?thesis by (cases b) (auto simp: segment_def)
  qed
qed

lemma run_story: "command_run k h p trail \<Longrightarrow> uses k \<Longrightarrow> story k p trail"
proof (induction rule: command_run.induct)
  case (segment h p trail a h1 p1 e)
  from tells_segment [OF segment.prems segment.IH [OF segment.prems], of a h] segment.hyps(2)
  show ?case by (cases e) simp_all
qed simp_all

lemma run_sent:
  assumes "command_run k h p trail" and "uses k"
  shows "length [x \<leftarrow> trail. snd x \<noteq> Confirmed] \<le> 1"
    and "(h0, Sent m) \<in> set trail \<Longrightarrow> k_message k = Some m \<and> on_source (k_sel k) h0 \<and> authority h0"
    and "p = Ended True \<Longrightarrow> completed k trail"
  using run_story [OF assms]
  by (cases "(k, p, trail)" rule: story.cases;
      auto simp: sent_only_def sent_well_def completed_def sent_and_confirmed_def split: if_splits)+

end

end
