(* ===== verification/WaterCommands.thy ===== *)
theory WaterCommands
  imports CommandDispatch
begin

text \<open>
  The water mode command (\<open>_water_context\<close> to \<open>_set_water_mode\<close>, \<open>websocket_handler.py\<close>, lines
  263-374): the device it may write to, the check it makes at its start and before every write, and
  the snapshot it asks of the gateway first. A \<open>RuntimeError\<close> of these checks is a \<open>ValueError\<close>
  here; the handler of the WebSocket answers every exception the same.
\<close>

text \<open>What the commands read of the configuration and of the Home Assistant client.\<close>

record dashboard_config =
  power_min :: pyval
  power_max :: pyval
  loop_interval :: pyval
  pump_instance :: int
  valve_instance :: int
  direct_mode :: bool
  toggle_allowed :: "pystring \<Rightarrow> bool"

section \<open>Device and connection\<close>

definition water_portal_ok :: "pystring \<Rightarrow> bool" where
  "water_portal_ok p \<longleftrightarrow> p \<noteq> [] \<and> \<not> list_ex (\<lambda>c. c \<in> {0x2F, 0x2B, 0x23, 0} \<or> is_space c) p"

text \<open>The client, the state and the portal; no client and no portal for the gateway.\<close>

definition water_context :: "hub \<Rightarrow> (nat option \<times> nat \<times> pystring option) option" where
  "water_context h =
     (case owner h of
        None \<Rightarrow> None
      | Some i \<Rightarrow>
          if prefer_gateway h then
            (if data_source h \<noteq> ''igw'' \<or> \<not> gateway_up h then None
             else if py_get (capabilities (controllers h i)) ''water_mode'' PyNone \<noteq> PyBool True then None
             else Some (None, i, None))
          else if data_source h \<noteq> ''mqtt'' then None
          else if \<not> mqtt_up h \<or> mqtt_client h = None then None
          else if \<not> water_portal_ok (portal_id h) then None
          else Some (mqtt_client h, i, Some (portal_id h)))"

definition water_instance :: "dashboard_config \<Rightarrow> string \<Rightarrow> int option" where
  "water_instance cfg which =
     (let i = (if which = ''pump'' then pump_instance cfg else valve_instance cfg) in if i < 0 then None else Some i)"

definition water_device_available :: "dashboard_config \<Rightarrow> string \<Rightarrow> nat \<Rightarrow> hub \<Rightarrow> bool" where
  "water_device_available cfg which i h =
     (case water_instance cfg which of
        None \<Rightarrow> False
      | Some n \<Rightarrow>
          valid_mode (leaf_value (find_leaves (devices_of (caches h i) ''pump'') (int_text n)) ''Mode'')
          \<and> water_mode_fresh (int_text n) (mono_now h) (caches h i))"

definition validate_water_snapshot :: "int \<Rightarrow> pyval \<Rightarrow> bool" where
  "validate_water_snapshot n snapshot =
     (let caps = py_get snapshot ''capabilities'' PyNone; pumps = py_get snapshot ''pump'' PyNone;
          value = (\<lambda>leaf. map_of (py_items pumps) (int_text n @ py leaf))
      in is_dict caps \<and> py_get caps ''water_mode'' PyNone = PyBool True
         \<and> is_dict pumps \<and> valid_mode (case value ''/Mode'' of None \<Rightarrow> PyNone | Some v \<Rightarrow> v)
         \<and> (case value ''/Connected'' of None \<Rightarrow> True | Some v \<Rightarrow> number v = Some 1))"

section \<open>The command\<close>

text \<open>\<open>current\<close>: the portal \<open>p\<close> was captured with the selection.\<close>

definition check_water :: "dashboard_config \<Rightarrow> string \<Rightarrow> pystring \<Rightarrow> selection \<Rightarrow> hub \<Rightarrow> hub \<times> bool" where
  "check_water cfg which p sel h =
     (h, case water_context h of
           None \<Rightarrow> False
         | Some (client, i, live_portal) \<Rightarrow>
             sel_generation sel = generation h \<and> Some i = sel_owner sel
             \<and> live_portal = (if sel_remote sel then None else Some p)
             \<and> (live_portal = None \<or> client = sel_client sel)
             \<and> water_device_available cfg which i h)"

definition water_command :: "dashboard_config \<Rightarrow> string \<Rightarrow> int \<Rightarrow> int \<Rightarrow> pystring \<Rightarrow> selection \<Rightarrow> command" where
  "water_command cfg which n mode p sel =
     \<lparr>k_sel = sel, k_check = check_water cfg which p sel,
      k_preflight = Some (\<lambda>_. validate_water_snapshot n),
      k_message = Some (if sel_remote sel
         then PostCommand ''water_mode'' (PyDict [(py ''instance'', PyInt n), (py ''mode'', PyInt mode)])
         else Publish (py ''W/'' @ p @ py ''/pump/'' @ int_text n @ py ''/Mode'') (Some (PyDict [(py ''value'', PyInt mode)]))),
      k_ack = None, k_recheck = False\<rparr>"

text \<open>What a command comes to after its first check, the one that runs with the selection it captures.\<close>

definition begin_command :: "command \<Rightarrow> hub \<Rightarrow> hub \<times> command outcome" where
  "begin_command k h = (case k_check k h of (h1, ok) \<Rightarrow> (h1, if ok then Inr k else Inl ValueError))"

definition water_request :: "pyval \<Rightarrow> (string \<times> int) option" where
  "water_request data =
     (let which = py_get data ''which'' PyNone in
      case py_get data ''mode'' PyNone of
        PyInt mode \<Rightarrow>
          if mode \<notin> {0, 1, 2} then None
          else if which = pylit ''pump'' then Some (''pump'', mode)
          else if which = pylit ''valve'' then Some (''valve'', mode) else None
      | _ \<Rightarrow> None)"

definition set_water_mode :: "dashboard_config \<Rightarrow> pyval \<Rightarrow> nat option \<Rightarrow> hub \<Rightarrow> hub \<times> command outcome" where
  "set_water_mode cfg data client h =
     (case water_request data of
        None \<Rightarrow> (h, Inl ValueError)
      | Some (which, mode) \<Rightarrow>
          (case (water_context h, water_instance cfg which) of
             (Some (_, _, live_portal), Some n) \<Rightarrow>
               begin_command (water_command cfg which n mode (case live_portal of None \<Rightarrow> [] | Some p \<Rightarrow> p)
                 (select client h)) h
           | _ \<Rightarrow> (h, Inl ValueError)))"

section \<open>Authority\<close>

text \<open>The device is connected and showed a valid mode, in a live report, less than 30 seconds ago.\<close>

definition water_authority :: "dashboard_config \<Rightarrow> string \<Rightarrow> hub \<Rightarrow> bool" where
  "water_authority cfg which h \<longleftrightarrow>
     (\<exists>i n ls. owner h = Some i \<and> water_instance cfg which = Some n
       \<and> map_of (devices_of (caches h i) ''pump'') (int_text n) = Some ls \<and> connected ls \<and> valid_mode (leaf_value ls ''Mode'')
       \<and> water_mode_fresh (int_text n) (mono_now h) (caches h i)
       \<and> (prefer_gateway h \<longrightarrow> py_get (capabilities (controllers h i)) ''water_mode'' PyNone = PyBool True))"

lemma available_device:
  assumes "water_device_available cfg which i h"
  obtains n ls where "water_instance cfg which = Some n" "map_of (devices_of (caches h i) ''pump'') (int_text n) = Some ls"
    "connected ls" "valid_mode (leaf_value ls ''Mode'')" "water_mode_fresh (int_text n) (mono_now h) (caches h i)"
proof -
  from assms obtain n where n: "water_instance cfg which = Some n"
    "valid_mode (leaf_value (find_leaves (devices_of (caches h i) ''pump'') (int_text n)) ''Mode'')"
    "water_mode_fresh (int_text n) (mono_now h) (caches h i)"
    by (auto simp: water_device_available_def split: option.splits)
  from n(2) obtain ls where ls: "map_of (devices_of (caches h i) ''pump'') (int_text n) = Some ls"
    "valid_mode (leaf_value ls ''Mode'')"
    by (auto simp: find_leaves_def leaf_value_def valid_mode_def split: option.splits)
  from map_of_SomeD [OF ls(1)] have "connected ls" by (auto simp: devices_of_def devices_in_def)
  with n ls that show thesis by blast
qed

lemma check_water_True:
  assumes "check_water cfg which p sel h = (h1, True)"
  shows "h1 = h \<and> on_source sel h \<and> water_authority cfg which h"
proof -
  from assms have "water_context h \<noteq> None" by (cases "water_context h") (simp_all add: check_water_def)
  then obtain client i live where ctx: "water_context h = Some (client, i, live)" by auto
  from assms have all: "h = h1 \<and> sel_generation sel = generation h \<and> Some i = sel_owner sel
      \<and> live = (if sel_remote sel then None else Some p) \<and> (live = None \<or> client = sel_client sel)
      \<and> water_device_available cfg which i h"
    unfolding check_water_def ctx option.case prod.case prod.inject by blast
  then have same: "h1 = h" "sel_generation sel = generation h" "sel_owner sel = Some i"
      "live = (if sel_remote sel then None else Some p)" "live = None \<or> client = sel_client sel"
    and dev: "water_device_available cfg which i h"
    by metis+
  have owner: "owner h = Some i"
    using ctx by (auto simp: water_context_def split: option.splits if_splits)
  have src: "(sel_remote sel \<longrightarrow> prefer_gateway h \<and> data_source h = ''igw'' \<and> gateway_up h
      \<and> py_get (capabilities (controllers h i)) ''water_mode'' PyNone = PyBool True)
    \<and> (\<not> sel_remote sel \<longrightarrow> \<not> prefer_gateway h \<and> data_source h = ''mqtt'' \<and> mqtt_up h
      \<and> sel_client sel = mqtt_client h \<and> mqtt_client h \<noteq> None)"
    using ctx same(4,5) owner by (cases "sel_remote sel") (auto simp: water_context_def split: if_splits)
  then have "on_source sel h"
    using same(2,3) owner
    by (cases "sel_remote sel") (simp_all add: on_source_def current_source_def transport_connected_def current_mqtt_client_def)
  moreover have "water_authority cfg which h"
    using available_device [OF dev] owner src unfolding water_authority_def by metis
  ultimately show ?thesis using same(1) by blast
qed

interpretation water_guard: command_guard "check_water cfg which p" "water_authority cfg which" for cfg which p
  by unfold_locales (use check_water_True in blast)+

end
