(* ===== verification/ControllerCommands.thy ===== *)
theory ControllerCommands
  imports WaterCommands
begin

text \<open>
  The commands of a WebSocket client for the inverter controller (\<open>_dispatch_action\<close> and what it
  calls, \<open>websocket_handler.py\<close>): the setpoint override, the electricity tariff, the ESS mode, the
  five scalar actions, the controller flags, the presses that Home Assistant does not get, and the
  acknowledgement of native notifications. Each
  is a \<open>command\<close> of \<open>CommandDispatch\<close>, and each check is an interpretation of \<open>command_guard\<close>.
\<close>

section \<open>Bodies\<close>

definition without_action :: "pyval \<Rightarrow> pyval" where
  "without_action data = PyDict (filter (\<lambda>(k, v). k \<noteq> py ''action'') (py_items data))"

definition control_flags :: "pystring set" where
  "control_flags = py ` {''only_charging'', ''no_feed'', ''house_support'', ''charge_battery'',
     ''do_not_supply_charger'', ''set_limit_to_ev_charger'', ''minimize_charging''}"

definition control_flag_key :: "pyval \<Rightarrow> pystring option" where
  "control_flag_key entity =
     (case as_str entity of
        None \<Rightarrow> None
      | Some s \<Rightarrow>
          let raw = strip s; prefix = py ''input_boolean.'';
              key = (if take (length prefix) raw = prefix then drop (length prefix) raw else raw)
          in if key \<in> control_flags then Some key else None)"

text \<open>The gateway knows three of the older actions; every other one raises.\<close>

definition gateway_command_body :: "string \<Rightarrow> pyval \<Rightarrow> pyval outcome" where
  "gateway_command_body action body =
     (if action = ''toggle'' then
        (case (control_flag_key (py_get body ''entity'' PyNone), control_boolean (py_get body ''state'' PyNone)) of
           (Some flag, PyBool b) \<Rightarrow>
             Inr (PyDict [(py ''entity'', PyStr flag), (py ''state'', if b then pylit ''on'' else pylit ''off'')])
         | _ \<Rightarrow> Inl ValueError)
      else if action = ''dry_run'' then (if is_bool (py_get body ''value'' PyNone) then Inr body else Inl ValueError)
      else if action = ''ess_mode'' then (if py_items body \<noteq> [] then Inl ValueError else Inr body)
      else Inl ValueError)"

section \<open>Commands\<close>

definition topic :: "string \<Rightarrow> pystring" where
  "topic name = py ''inverter/cmd/'' @ py name"

definition controller_command :: "string \<Rightarrow> pyval \<Rightarrow> selection \<Rightarrow> command" where
  "controller_command name body sel =
     \<lparr>k_sel = sel, k_check = check_controller_command name body sel,
      k_preflight = Some (\<lambda>_. controller_preflight name body),
      k_message = Some (if sel_remote sel then PostCommand name body else Publish (topic name) (Some body)),
      k_ack = (if name = ''setpoint_override'' then Some (py_item body ''request_id'', py_item body ''value'') else None),
      k_recheck = False\<rparr>"

definition send_controller_command ::
  "runtime \<Rightarrow> string \<Rightarrow> pyval \<Rightarrow> nat option \<Rightarrow> hub \<Rightarrow> hub \<times> command outcome" where
  "send_controller_command rt name data client h =
     (case (if name = ''setpoint_override'' then validate_override (without_action data)
            else validate_tariff rt (without_action data)) of
        Inl e \<Rightarrow> (h, Inl e)
      | Inr body \<Rightarrow> begin_command (controller_command name body (select client h)) h)"

definition ess_command :: "pyval \<Rightarrow> selection \<Rightarrow> command" where
  "ess_command body sel =
     \<lparr>k_sel = sel, k_check = check_ess_mode sel,
      k_preflight = Some (\<lambda>h. ess_preflight (wall_now h)),
      k_message = Some (if sel_remote sel then PostCommand ''set_ess_mode'' body
                        else Publish (topic ''set_ess_mode'') (Some body)),
      k_ack = None, k_recheck = False\<rparr>"

definition select_ess_mode :: "pyval \<Rightarrow> nat option \<Rightarrow> hub \<Rightarrow> hub \<times> command outcome" where
  "select_ess_mode data client h =
     (case validate_selection (without_action data) of
        Inl e \<Rightarrow> (h, Inl e)
      | Inr body \<Rightarrow> begin_command (ess_command body (select client h)) h)"

definition legacy_command :: "string \<Rightarrow> pyval \<Rightarrow> selection \<Rightarrow> command" where
  "legacy_command action payload sel =
     \<lparr>k_sel = sel, k_check = check_controller_transport sel, k_preflight = None,
      k_message =
        (if sel_remote sel
         then (case gateway_command_body action payload of Inl _ \<Rightarrow> None | Inr body \<Rightarrow> Some (PostCommand action body))
         else Some (Publish (topic action) (if py_items payload = [] then None else Some payload))),
      k_ack = None, k_recheck = False\<rparr>"

definition mqtt_publish :: "string \<Rightarrow> pyval \<Rightarrow> nat option \<Rightarrow> hub \<Rightarrow> hub \<times> command outcome" where
  "mqtt_publish action payload client h = begin_command (legacy_command action payload (select client h)) h"

text \<open>\<open>_native_notification_command\<close>: over MQTT only the acknowledgement exists.\<close>

definition notification_command :: "string \<Rightarrow> pystring \<Rightarrow> selection \<Rightarrow> command" where
  "notification_command name captured sel =
     \<lparr>k_sel = sel, k_check = check_notification captured sel, k_preflight = None,
      k_message =
        (if sel_remote sel then Some (PostCommand name (PyDict []))
         else if name = ''acknowledge_all_notifications''
         then Some (Publish (py ''W/'' @ captured @ py ''/platform/0/Notifications/AcknowledgeAll'')
                (Some (PyDict [(py ''value'', PyInt 1)])))
         else None),
      k_ack = None, k_recheck = True\<rparr>"

definition native_notification_command :: "string \<Rightarrow> nat option \<Rightarrow> hub \<Rightarrow> hub \<times> command outcome" where
  "native_notification_command name client h =
     begin_command (notification_command name (notification_portal h) (select client h)) h"

definition starts :: "pystring \<Rightarrow> string \<Rightarrow> bool" where
  "starts s prefix \<longleftrightarrow> take (length prefix) s = py prefix"

text \<open>\<open>_dismiss_native_notification\<close>; \<open>None\<close> when the dismissal stays local.\<close>

definition dismiss_native_notification :: "pystring \<Rightarrow> nat option \<Rightarrow> hub \<Rightarrow> (hub \<times> command outcome) option" where
  "dismiss_native_notification nid client h =
     (if starts nid ''victron-platform-''
      then Some (native_notification_command ''acknowledge_all_notifications'' client h)
      else if starts nid ''victron-'' \<and> prefer_gateway h
      then Some (native_notification_command ''silence_alarm'' client h)
      else None)"

section \<open>Dispatch\<close>

text \<open>The payloads of the five older actions.\<close>

definition dispatch_legacy :: "dashboard_config \<Rightarrow> string \<Rightarrow> pyval \<Rightarrow> pyval" where
  "dispatch_legacy cfg action data =
     (if action = ''setpoint'' then PyDict [(py ''value'', py_get data ''value'' PyNone)]
      else if action = ''dry_run'' then
        PyDict (case map_of (py_items data) (py ''value'') of None \<Rightarrow> [] | Some v \<Rightarrow> [(py ''value'', v)])
      else if action = ''limits'' then
        PyDict [(py ''min'', py_get data ''min'' (power_min cfg)), (py ''max'', py_get data ''max'' (power_max cfg))]
      else if action = ''ess_mode'' then PyDict []
      else PyDict [(py ''interval'', py_get data ''interval'' (loop_interval cfg))])"

text \<open>A toggle and a press: \<open>None\<close> when Home Assistant gets it.\<close>

definition dispatch_toggle :: "dashboard_config \<Rightarrow> pyval \<Rightarrow> nat option \<Rightarrow> hub \<Rightarrow> (hub \<times> command outcome) option" where
  "dispatch_toggle cfg data client h =
     (case as_str (py_get data ''entity'' PyNone) of
        None \<Rightarrow> Some (h, Inl ValueError)
      | Some entity \<Rightarrow>
          if entity = [] then Some (h, Inl ValueError)
          else case control_flag_key (PyStr entity) of
              Some flag \<Rightarrow>
                Some (mqtt_publish ''toggle''
                  (PyDict ((py ''entity'', PyStr flag) #
                     (case map_of (py_items data) (py ''state'') of None \<Rightarrow> [] | Some v \<Rightarrow> [(py ''state'', v)]))) client h)
            | None \<Rightarrow>
                if 0x2E \<in> set entity \<and> (\<not> direct_mode cfg \<or> \<not> toggle_allowed cfg entity) then Some (h, Inl ValueError)
                else if direct_mode cfg \<and> toggle_allowed cfg entity then None
                else Some (mqtt_publish ''toggle'' (PyDict [(py ''entity'', PyStr entity)]) client h))"

definition dispatch_press :: "dashboard_config \<Rightarrow> pyval \<Rightarrow> nat option \<Rightarrow> hub \<Rightarrow> (hub \<times> command outcome) option" where
  "dispatch_press cfg data client h =
     (let entity = py_get data ''entity'' PyNone;
          dotted = (case as_str entity of None \<Rightarrow> False | Some e \<Rightarrow> 0x2E \<in> set e)
      in if dotted \<and> \<not> direct_mode cfg then Some (h, Inl ValueError)
         else if direct_mode cfg then None
         else Some (mqtt_publish ''press'' (PyDict [(py ''entity'', entity)]) client h))"

text \<open>\<open>_dispatch_action\<close>; \<open>None\<close> is an action of Home Assistant, of the settings or of the banners,
  which writes nothing here.\<close>

definition dispatch_action ::
  "runtime \<Rightarrow> dashboard_config \<Rightarrow> string \<Rightarrow> pyval \<Rightarrow> nat option \<Rightarrow> hub \<Rightarrow> (hub \<times> command outcome) option" where
  "dispatch_action rt cfg action data client h =
     (if action = ''set_setpoint_override'' then Some (send_controller_command rt ''setpoint_override'' data client h)
      else if action = ''electricity_tariff'' then Some (send_controller_command rt action data client h)
      else if action = ''set_ess_mode'' then Some (select_ess_mode data client h)
      else if action = ''water_mode'' then Some (set_water_mode cfg data client h)
      else if action \<in> {''number_set'', ''set_cover_position'', ''media_player'', ''scene_activate''} then None
      else if action = ''toggle'' then dispatch_toggle cfg data client h
      else if action = ''press'' then dispatch_press cfg data client h
      else if action \<in> {''setpoint'', ''dry_run'', ''limits'', ''ess_mode'', ''loop_interval''}
        then Some (mqtt_publish action (dispatch_legacy cfg action data) client h)
      else if action \<in> {''set_settings'', ''dismiss_notification''} then None
      else Some (h, Inl ValueError))"

section \<open>Authority\<close>

text \<open>What must be known of the controller at the moment of a write.\<close>

definition heard_within :: "rat \<Rightarrow> hub \<Rightarrow> controller \<Rightarrow> bool" where
  "heard_within limit h c \<longleftrightarrow> (\<exists>t. daemon_at c = Some t \<and> mono_now h - t \<le> limit)"

definition controller_authority :: "string \<Rightarrow> pyval \<Rightarrow> hub \<Rightarrow> bool" where
  "controller_authority name body h \<longleftrightarrow>
     (\<exists>i. owner h = Some i \<and> heard_within 120 h (controllers h i) \<and> capable name h (controllers h i)
       \<and> (name = ''setpoint_override'' \<longrightarrow>
            override_status (py_get (get_state (controllers h i)) name PyNone) \<noteq> None
            \<and> recent (wall_now h) (override_at (controllers h i)))
       \<and> (name = ''electricity_tariff'' \<longrightarrow>
            py_get (tariff_status (get_state (controllers h i))) ''writable'' PyNone = PyBool True
            \<and> recent (wall_now h) (tariff_at (controllers h i))
            \<and> py_get (tariff_status (get_state (controllers h i))) ''revision'' PyNone = py_item body ''revision''))"

definition ess_authority :: "hub \<Rightarrow> bool" where
  "ess_authority h \<longleftrightarrow>
     (\<exists>i mode. owner h = Some i \<and> heard_within 120 h (controllers h i) \<and> capable ''set_ess_mode'' h (controllers h i)
       \<and> ess (controllers h i) = Some mode \<and> py_get mode ''selection_supported'' PyNone = PyBool True
       \<and> recent (wall_now h) (ess_at (controllers h i))
       \<and> py_get (get_state (controllers h i)) ''dry_run'' PyNone = PyBool False)"

definition transport_authority :: "hub \<Rightarrow> bool" where
  "transport_authority h \<longleftrightarrow>
     (\<exists>i t. owner h = Some i \<and> heard_within 120 h (controllers h i) \<and> command_at (controllers h i) = Some t
       \<and> 0 \<le> mono_now h - t \<and> mono_now h - t \<le> 30)"

lemma controller_available_True:
  "controller_available m c = (c1, True) \<Longrightarrow> c1 = c \<and> (\<exists>t. daemon_at c = Some t \<and> m - t \<le> 120)"
  by (auto simp: controller_available_def split: option.splits if_splits)

lemma with_controller_Some:
  assumes "with_controller h check = (h1, Some (i, c))"
    and "\<And>c c1. check c = (c1, True) \<Longrightarrow> c1 = c"
  shows "h1 = h \<and> owner h = Some i \<and> c = controllers h i \<and> check c = (c, True)"
  using assms(1) assms(2) [of "controllers h i" c]
  by (auto simp: with_controller_def split: option.splits prod.splits if_splits)

lemma available_controller:
  assumes "with_controller h (controller_available (mono_now h)) = (h1, Some (i, c))"
  shows "h1 = h \<and> owner h = Some i \<and> c = controllers h i \<and> heard_within 120 h c"
  using with_controller_Some [OF assms] controller_available_True
  unfolding heard_within_def by blast

lemma commandable_controller:
  assumes "with_controller h (controller_commands_available (mono_now h)) = (h1, Some (i, c))"
  shows "h1 = h \<and> transport_authority h"
proof -
  have same: "c1 = c0" if "controller_commands_available (mono_now h) c0 = (c1, True)" for c0 c1
    using that controller_available_True
    by (fastforce simp: controller_commands_available_def split: prod.splits)
  note c = with_controller_Some [OF assms, OF same]
  then have "controller_commands_available (mono_now h) c = (c, True)" by blast
  then have "heard_within 120 h c" "\<exists>t. command_at c = Some t \<and> 0 \<le> mono_now h - t \<and> mono_now h - t \<le> 30"
    using controller_available_True
    by (fastforce simp: controller_commands_available_def heard_within_def split: prod.splits option.splits)+
  with c show ?thesis unfolding transport_authority_def by blast
qed

section \<open>The checks keep the contract\<close>

lemma check_controller_command_True:
  assumes "check_controller_command name body sel h = (h1, True)"
  shows "h1 = h \<and> on_source sel h \<and> controller_authority name body h"
proof -
  from assms obtain i c where src: "current_source sel h"
    and c: "with_controller h (controller_available (mono_now h)) = (h1, Some (i, c))"
    by (auto simp: check_controller_command_def can_controller_command_def split: if_splits prod.splits option.splits)
  note ctrl = available_controller [OF c]
  from src ctrl have sel: "sel_owner sel = Some i" "sel_remote sel = prefer_gateway h"
    by (simp_all add: current_source_def)
  from assms src c have "transport_connected (prefer_gateway h) h" "capable name h c"
    "sel_remote sel \<or> current_mqtt_client (sel_client sel) h"
    "if name = ''setpoint_override''
     then override_status (py_get (get_state c) name PyNone) \<noteq> None \<and> recent (wall_now h) (override_at c)
     else py_get (tariff_status (get_state c)) ''writable'' PyNone = PyBool True \<and> recent (wall_now h) (tariff_at c)"
    "name = ''electricity_tariff'' \<longrightarrow>
       py_get (tariff_status (owner_state sel h1)) ''revision'' PyNone = py_item body ''revision''"
    by (auto simp: check_controller_command_def can_controller_command_def)
  with ctrl sel src show ?thesis
    by (auto simp: on_source_def controller_authority_def owner_state_def)
qed

lemma check_ess_mode_True:
  assumes "check_ess_mode sel h = (h1, True)"
  shows "h1 = h \<and> on_source sel h \<and> ess_authority h"
proof -
  from assms obtain i c where src: "current_source sel h" "transport_connected (sel_remote sel) h"
    and c: "with_controller h (controller_available (mono_now h)) = (h1, Some (i, c))"
    by (auto simp: check_ess_mode_def can_select_ess_mode_def split: if_splits prod.splits option.splits)
  from assms src c have "capable ''set_ess_mode'' h c" "sel_remote sel \<or> current_mqtt_client (sel_client sel) h"
    "telemetry_ready (case ess c of None \<Rightarrow> PyNone | Some m \<Rightarrow> m) (ess_at c) (py_get (get_state c) ''dry_run'' PyNone) (wall_now h)"
    by (auto simp: check_ess_mode_def can_select_ess_mode_def)
  with available_controller [OF c] src show ?thesis
    by (auto simp: on_source_def ess_authority_def telemetry_ready_def split: option.splits)
qed

lemma check_controller_transport_True:
  assumes "check_controller_transport sel h = (h1, True)"
  shows "h1 = h \<and> on_source sel h \<and> transport_authority h"
proof -
  from assms obtain i c where src: "current_source sel h"
    and c: "with_controller h (controller_commands_available (mono_now h)) = (h1, Some (i, c))"
    by (auto simp: check_controller_transport_def split: if_splits prod.splits option.splits)
  from assms src c have "transport_connected (sel_remote sel) h" "sel_remote sel \<or> current_mqtt_client (sel_client sel) h"
    by (auto simp: check_controller_transport_def)
  with commandable_controller [OF c] src show ?thesis by (simp add: on_source_def)
qed

interpretation controller_guard: command_guard "check_controller_command name body" "controller_authority name body"
  for name body
  by unfold_locales (use check_controller_command_True in blast)+

interpretation ess_guard: command_guard check_ess_mode ess_authority
  by unfold_locales (use check_ess_mode_True in blast)+

interpretation transport_guard: command_guard check_controller_transport transport_authority
  by unfold_locales (use check_controller_transport_True in blast)+

interpretation notification_guard: command_guard "check_notification captured" "\<lambda>h. owner h \<noteq> None \<and> captured = notification_portal h"
  for captured
  by unfold_locales (auto simp: check_notification_def on_source_def)

section \<open>Properties\<close>

lemma begin_command_Inr: "begin_command k h = (h1, Inr k1) \<Longrightarrow> k1 = k"
  by (auto simp: begin_command_def split: prod.splits if_splits)

text \<open>The authority that each action needs.\<close>

definition action_authority :: "dashboard_config \<Rightarrow> string \<Rightarrow> pyval \<Rightarrow> hub \<Rightarrow> bool" where
  "action_authority cfg action data =
     (if action = ''set_setpoint_override'' then controller_authority ''setpoint_override'' (without_action data)
      else if action = ''electricity_tariff'' then controller_authority action (without_action data)
      else if action = ''set_ess_mode'' then ess_authority
      else if action = ''water_mode''
      then water_authority cfg (if py_get data ''which'' PyNone = pylit ''pump'' then ''pump'' else ''valve'')
      else transport_authority)"

lemma validated_body:
  "validate_override v = Inr b \<Longrightarrow> b = v" "validate_tariff rt v = Inr b \<Longrightarrow> b = v" "validate_selection v = Inr b \<Longrightarrow> b = v"
  by (auto simp: validate_override_def validate_tariff_def validate_selection_def split: if_splits sum.splits)

lemma published:
  "mqtt_publish action payload client h = (h1, Inr k) \<Longrightarrow> k = legacy_command action payload (select client h)"
  by (auto simp: mqtt_publish_def dest: begin_command_Inr)

lemma dispatch_action_cases:
  assumes "dispatch_action rt cfg action data client h = Some (h1, Inr k)"
  obtains (controller) name where "k = controller_command name (without_action data) (select client h)"
      "action_authority cfg action data = controller_authority name (without_action data)"
  | (ess) "k = ess_command (without_action data) (select client h)" "action_authority cfg action data = ess_authority"
  | (water) which n mode p where "k = water_command cfg which n mode p (select client h)"
      "action_authority cfg action data = water_authority cfg which"
  | (legacy) payload where "k = legacy_command action payload (select client h)"
      "action_authority cfg action data = transport_authority"
proof -
  consider "action = ''set_setpoint_override''" | "action = ''electricity_tariff''" | "action = ''set_ess_mode''"
    | "action = ''water_mode''"
    | payload where "mqtt_publish action payload client h = (h1, Inr k)"
        "action \<notin> {''set_setpoint_override'', ''electricity_tariff'', ''set_ess_mode'', ''water_mode''}"
    using assms
    by (auto simp: dispatch_action_def dispatch_toggle_def dispatch_press_def Let_def split: if_splits option.splits)
  then show thesis
  proof cases
    case 1
    with assms show thesis
      by (intro controller [of "''setpoint_override''"])
         (auto simp: dispatch_action_def send_controller_command_def action_authority_def
           dest!: validated_body begin_command_Inr split: sum.splits)
  next
    case 2
    with assms show thesis
      by (intro controller [of action])
         (auto simp: dispatch_action_def send_controller_command_def action_authority_def
           dest!: validated_body begin_command_Inr split: sum.splits)
  next
    case 3
    with assms show thesis
      by (intro ess)
         (auto simp: dispatch_action_def select_ess_mode_def action_authority_def
           dest!: validated_body begin_command_Inr split: sum.splits)
  next
    case 4
    with assms have set: "set_water_mode cfg data client h = (h1, Inr k)" by (simp add: dispatch_action_def)
    then obtain which mode where request: "water_request data = Some (which, mode)"
      by (auto simp: set_water_mode_def split: option.splits)
    have "which = (if py_get data ''which'' PyNone = pylit ''pump'' then ''pump'' else ''valve'')"
      using request by (auto simp: water_request_def Let_def split: pyval.splits if_splits)
    with 4 have "action_authority cfg action data = water_authority cfg which"
      by (simp add: action_authority_def)
    with set request show thesis
      by (auto simp: set_water_mode_def dest!: begin_command_Inr intro: water split: option.splits)
  next
    case 5
    then show thesis
      by (intro legacy [of payload]) (auto simp: action_authority_def dest: published)
  qed
qed

text \<open>C8: Whatever else the server does meanwhile, a command to the inverter controller or to a water
  device is written at most once, and only at a moment when the source it was given to is still the
  selected and connected one and the recent, live status of the controller or device permits it.\<close>

theorem controller_writes_are_authorised:
  assumes "dispatch_action rt cfg action data client h = Some (h1, Inr k)" and "command_run k hub p trail"
  shows "length [x \<leftarrow> trail. snd x \<noteq> Confirmed] \<le> 1
    \<and> (\<forall>h0 m. (h0, Sent m) \<in> set trail \<longrightarrow>
         k_message k = Some m \<and> on_source (select client h) h0 \<and> action_authority cfg action data h0)"
  using assms(1)
proof (cases rule: dispatch_action_cases)
  case (controller name)
  then have "controller_guard.uses name (without_action data) k" "k_sel k = select client h"
    by (simp_all add: controller_guard.uses_def controller_command_def)
  with controller_guard.run_sent [OF assms(2)] controller(2) show ?thesis by metis
next
  case ess
  then have "ess_guard.uses k" "k_sel k = select client h" by (simp_all add: ess_guard.uses_def ess_command_def)
  with ess_guard.run_sent [OF assms(2)] ess(2) show ?thesis by metis
next
  case (water which n mode captured)
  then have "water_guard.uses cfg which captured k" "k_sel k = select client h"
    by (simp_all add: water_guard.uses_def water_command_def)
  with water_guard.run_sent [OF assms(2)] water(2) show ?thesis by metis
next
  case (legacy payload)
  then have "transport_guard.uses k" "k_sel k = select client h"
    by (simp_all add: transport_guard.uses_def legacy_command_def)
  with transport_guard.run_sent [OF assms(2)] legacy(2) show ?thesis by metis
qed

text \<open>C9: A setpoint override that is answered as accepted was written exactly once, and afterwards, while
  the same source was selected and connected, a newer status of the same controller named its
  request, its value and no error.\<close>

theorem accepted_override_is_confirmed:
  assumes "send_controller_command rt ''setpoint_override'' data client h = (h1, Inr k)"
    and "command_run k hub (Ended True) trail"
  shows "\<exists>i h0 m h2. owner h = Some i \<and> trail = [(h0, Sent m), (h2, Confirmed)] \<and> k_message k = Some m
    \<and> on_source (select client h) h0 \<and> on_source (select client h) h2
    \<and> sequence (controllers h0 i) < sequence (controllers h2 i)
    \<and> override_status (py_get (get_state (controllers h2 i)) ''setpoint_override'' PyNone)
        = Some \<lparr>o_value = py_item (without_action data) ''value'', o_error = PyNone,
                o_request = py_item (without_action data) ''request_id''\<rparr>"
proof -
  let ?body = "without_action data"
  from assms(1) have k: "k = controller_command ''setpoint_override'' ?body (select client h)"
    by (auto simp: send_controller_command_def dest!: validated_body begin_command_Inr split: sum.splits)
  then have uses: "controller_guard.uses ''setpoint_override'' ?body k"
    and fields: "k_sel k = select client h" "k_ack k = Some (py_item ?body ''request_id'', py_item ?body ''value'')"
    by (simp_all add: controller_guard.uses_def controller_command_def)
  from controller_guard.run_sent(3) [OF assms(2) uses refl] fields obtain h0 m h2 where
    trail: "trail = [(h0, Sent m), (h2, Confirmed)]" "k_message k = Some m"
    and src: "on_source (select client h) h0" "on_source (select client h) h2"
    and auth: "controller_authority ''setpoint_override'' ?body h0" and conf: "confirmed k (observation k h0) h2"
    by (auto simp: controller_guard.completed_def controller_guard.sent_and_confirmed_def controller_guard.sent_well_def)
  from auth src(1) obtain i where "owner h = Some i"
    by (auto simp: controller_authority_def on_source_def current_source_def select_def)
  with trail src conf fields show ?thesis
    by (auto simp: confirmed_def observation_def owner_state_def select_def)
qed

section \<open>Witnesses\<close>

definition demo_status :: "string \<Rightarrow> pyval" where
  "demo_status request = PyDict [(py ''value'', PyInt 50), (py ''last_error'', PyNone), (py ''request_id'', pylit request)]"

definition demo_hub :: "string \<Rightarrow> nat \<Rightarrow> hub" where
  "demo_hub request n = \<lparr>generation = 1, active = ''mqtt'', gateway_only = False, data_source = ''mqtt'', mqtt_up = True,
     gateway_up = False, mqtt_client = Some 7, owner = Some 0,
     controllers = (\<lambda>_. controller_init\<lparr>daemon_at := Some 10, tiles := [(py ''setpoint_override'', demo_status request)],
       override_at := Some 100, sequence := n\<rparr>),
     caches = (\<lambda>_. cache_init), portal_id = [], config_portal = [], wall_now = 101, mono_now = 11\<rparr>"

definition demo_data :: pyval where
  "demo_data = PyDict [(py ''action'', pylit ''set_setpoint_override''), (py ''value'', PyInt 50), (py ''request_id'', pylit ''b'')]"

definition demo_command :: command where
  "demo_command = controller_command ''setpoint_override'' (without_action demo_data) (select (Some 7) (demo_hub ''a'' 3))"

lemma demo_parts:
  "without_action demo_data = PyDict [(py ''value'', PyInt 50), (py ''request_id'', pylit ''b'')]"
  "override_status (demo_status r) = Some \<lparr>o_value = PyInt 50, o_error = PyNone, o_request = pylit r\<rparr>"
  by (simp_all add: without_action_def demo_data_def override_status_def demo_status_def py_item_def)

lemma demo_check: "k_check demo_command (demo_hub r n) = (demo_hub r n, True)"
  by (simp add: demo_command_def controller_command_def check_controller_command_def current_source_def select_def
      demo_hub_def prefer_gateway_def can_controller_command_def with_controller_def controller_available_def
      transport_connected_def capable_def get_state_def py_get_def demo_parts recent_def current_mqtt_client_def fun_upd_idem_iff)

lemma demo_start:
  "send_controller_command rt ''setpoint_override'' demo_data (Some 7) (demo_hub ''a'' 3) = (demo_hub ''a'' 3, Inr demo_command)"
proof -
  have "validate_override (without_action demo_data) = Inr (without_action demo_data)"
    by (simp add: demo_parts validate_override_def body_has_def py_item_def py_def id_char_def is_alpha_def)
  then show ?thesis
    using demo_check [of "''a''" 3] by (simp add: send_controller_command_def begin_command_def demo_command_def)
qed

definition network_ok :: net_answer where
  "network_ok = \<lparr>a_cancelled = False, a_reply = Some PyNone\<rparr>"

lemma demo_segments:
  "segment demo_command network_ok (demo_hub ''a'' 3) Queued
     = (demo_hub ''a'' 3, Sending 3, Some (Sent (Publish (topic ''setpoint_override'') (Some (without_action demo_data)))))"
  "segment demo_command network_ok (demo_hub ''b'' 4) (Sending 3) = (demo_hub ''b'' 4, Closing, Some Confirmed)"
  "segment demo_command network_ok (demo_hub ''b'' 4) Closing = (demo_hub ''b'' 4, Ended True, None)"
proof -
  have fields: "\<not> sel_remote (k_sel demo_command)" "sel_owner (k_sel demo_command) = Some 0" "sel_generation (k_sel demo_command) = 1"
    "k_message demo_command = Some (Publish (topic ''setpoint_override'') (Some (without_action demo_data)))"
    "k_ack demo_command = Some (pylit ''b'', PyInt 50)" "\<not> k_recheck demo_command"
    by (simp_all add: demo_command_def controller_command_def select_def demo_hub_def prefer_gateway_def demo_parts py_item_def)
  have hub: "sequence (controllers (demo_hub r n) i) = n" "generation (demo_hub r n) = 1"
    "py_get (get_state (controllers (demo_hub r n) i)) ''setpoint_override'' PyNone = demo_status r" for r n i
    by (simp_all add: demo_hub_def get_state_def py_get_def)
  show "segment demo_command network_ok (demo_hub ''a'' 3) Queued
     = (demo_hub ''a'' 3, Sending 3, Some (Sent (Publish (topic ''setpoint_override'') (Some (without_action demo_data)))))"
    by (simp add: segment_def network_ok_def checked_def demo_check write_message_def fields observation_def hub)
  show "segment demo_command network_ok (demo_hub ''b'' 4) (Sending 3) = (demo_hub ''b'' 4, Closing, Some Confirmed)"
    by (simp add: segment_def network_ok_def ack_turn_def checked_def demo_check read_ack_def fields observation_def hub
        owner_state_def demo_parts)
  show "segment demo_command network_ok (demo_hub ''b'' 4) Closing = (demo_hub ''b'' 4, Ended True, None)"
    by (simp add: segment_def network_ok_def fields hub)
qed

lemma demo_run: "\<exists>trail. command_run demo_command (demo_hub ''b'' 4) (Ended True) trail"
proof -
  note begun = command_run.begun [OF demo_check [of "''a''" 3]]
  note written = command_run.segment [OF begun demo_segments(1)]
  note answered = command_run.segment [OF command_run.environment [OF written, of "demo_hub ''b'' 4"] demo_segments(2)]
  note ended = command_run.segment [OF answered demo_segments(3)]
  show ?thesis using ended by blast
qed

lemma accepted_override_is_confirmed_witness:
  "\<exists>trail h0 h2 m. command_run demo_command (demo_hub ''b'' 4) (Ended True) trail \<and> trail = [(h0, Sent m), (h2, Confirmed)]"
proof -
  from demo_run obtain trail where run: "command_run demo_command (demo_hub ''b'' 4) (Ended True) trail" ..
  from accepted_override_is_confirmed [OF demo_start run] run show ?thesis by blast
qed

lemma controller_writes_are_authorised_witness:
  "\<exists>trail. command_run demo_command (demo_hub ''b'' 4) (Ended True) trail \<and> length [x \<leftarrow> trail. snd x \<noteq> Confirmed] \<le> 1"
proof -
  from demo_run obtain trail where run: "command_run demo_command (demo_hub ''b'' 4) (Ended True) trail" ..
  have "dispatch_action rt dflt ''set_setpoint_override'' demo_data (Some 7) (demo_hub ''a'' 3)
      = Some (demo_hub ''a'' 3, Inr demo_command)" for rt dflt
    by (simp add: dispatch_action_def demo_start)
  from controller_writes_are_authorised [OF this run] run show ?thesis by blast
qed

end
