(* ===== verification/DataSources.thy ===== *)
theory DataSources
  imports WaterCommands
begin

text \<open>
  Which data source the server runs (\<open>server.py\<close>, lines 606-651 and 747-968, \<open>gateway.py\<close>, lines 43-127):
  the choice at the start, the loops of MQTT and of the gateway, the watchdog and the recovery that
  switch between them, and the end of the server. Each is an asyncio task whose stretches between
  awaits run atomically. A switch cancels the tasks on the list of the server, waits for them and
  starts the other source; a cancelled task runs no more code but its clean-up. What the loops do with
  a message or a snapshot is modelled elsewhere; here they set the connection flags.
\<close>

record source_config =
  mqtt_configured :: bool
  gateway_configured :: bool

text \<open>A loop captures the number of its source when it starts.\<close>

datatype job = MqttLoop nat | GatewayLoop nat | Watchdog | Recovery

datatype phase = Going | Switching "nat list" | Over

record process =
  pr_job :: job
  pr_phase :: phase
  pr_cancelled :: bool

record switchboard =
  sb_hub :: hub
  dual_path :: bool
  source_generation :: nat
  task_list :: "nat list"
  processes :: "process list"

section \<open>Selecting a source\<close>

definition choose_startup_source :: "bool \<Rightarrow> bool \<Rightarrow> bool \<Rightarrow> string" where
  "choose_startup_source mqtt igw probed =
     (if mqtt \<and> igw then (if probed then ''mqtt'' else ''igw'')
      else if mqtt then ''mqtt''
      else if igw then ''igw''
      else ''none'')"

definition select_source :: "string \<Rightarrow> bool \<Rightarrow> switchboard \<Rightarrow> switchboard" where
  "select_source source dual sb =
     sb\<lparr>sb_hub := set_active_source source (sb_hub sb), dual_path := dual \<and> source \<in> {''mqtt'', ''igw''}\<rparr>"

definition retire_source :: "switchboard \<Rightarrow> switchboard" where
  "retire_source sb = sb\<lparr>source_generation := Suc (source_generation sb)\<rparr>"

text \<open>\<open>asyncio.create_task\<close>, and the append to the list of the server.\<close>

definition spawn :: "job \<Rightarrow> switchboard \<Rightarrow> switchboard" where
  "spawn j sb =
     sb\<lparr>processes := processes sb @ [\<lparr>pr_job = j, pr_phase = Going, pr_cancelled = False\<rparr>],
        task_list := task_list sb @ [length (processes sb)]\<rparr>"

text \<open>\<open>_start_mqtt_client\<close> and \<open>_start_gateway_client\<close>: the number of the source names its state object
  and its MQTT client.\<close>

definition start_source :: "string \<Rightarrow> switchboard \<Rightarrow> switchboard" where
  "start_source source sb =
     (let sb1 = retire_source sb; g = source_generation sb1;
          h = new_source_state source g (sb_hub sb1)
      in if source = ''mqtt'' then spawn (MqttLoop g) (sb1\<lparr>sb_hub := h\<lparr>mqtt_client := Some g\<rparr>\<rparr>)
         else spawn (GatewayLoop g) (sb1\<lparr>sb_hub := h\<lparr>mqtt_client := None\<rparr>\<rparr>))"

definition start_supervised :: "string \<Rightarrow> bool \<Rightarrow> switchboard \<Rightarrow> switchboard" where
  "start_supervised source dual sb =
     (let sb1 = start_source source sb
      in if dual then spawn (if source = ''mqtt'' then Watchdog else Recovery) sb1 else sb1)"

definition fresh_board :: "hub \<Rightarrow> switchboard" where
  "fresh_board h = \<lparr>sb_hub = h, dual_path = False, source_generation = 0, task_list = [], processes = []\<rparr>"

definition select_and_start :: "source_config \<Rightarrow> bool \<Rightarrow> switchboard \<Rightarrow> switchboard" where
  "select_and_start cfg probed sb =
     (let dual = mqtt_configured cfg \<and> gateway_configured cfg;
          source = choose_startup_source (mqtt_configured cfg) (gateway_configured cfg)
            (if dual then probed else mqtt_configured cfg)
      in if source = ''none'' then
           (let sb1 = select_source ''none'' False (select_source ''none'' dual sb); h = sb_hub sb1
            in sb1\<lparr>sb_hub := new_source_state (data_source h) 0 h\<rparr>)
         else start_supervised source dual (select_source source dual sb))"

section \<open>Switching\<close>

definition set_phase :: "nat \<Rightarrow> phase \<Rightarrow> switchboard \<Rightarrow> switchboard" where
  "set_phase i ph sb = sb\<lparr>processes := (processes sb)[i := (processes sb ! i)\<lparr>pr_phase := ph\<rparr>]\<rparr>"

definition cancel_tasks :: "nat list \<Rightarrow> switchboard \<Rightarrow> switchboard" where
  "cancel_tasks ws sb =
     sb\<lparr>processes := map (\<lambda>(i, p). if i \<in> set ws then p\<lparr>pr_cancelled := True\<rparr> else p)
       (enumerate 0 (processes sb))\<rparr>"

definition invalidate_commands :: "switchboard \<Rightarrow> switchboard" where
  "invalidate_commands sb = sb\<lparr>sb_hub := (sb_hub sb)\<lparr>generation := Suc (generation (sb_hub sb))\<rparr>\<rparr>"

text \<open>\<open>_cancel_data_source_tasks\<close> up to its await; with no other task on the list it does not wait.\<close>

definition begin_switch :: "nat \<Rightarrow> switchboard \<Rightarrow> switchboard" where
  "begin_switch self sb =
     (let others = filter (\<lambda>i. i \<noteq> self) (task_list sb)
      in set_phase self (Switching others) (cancel_tasks others
           ((retire_source (invalidate_commands sb))\<lparr>task_list := []\<rparr>)))"

fun switch_target :: "job \<Rightarrow> string" where
  "switch_target Recovery = ''mqtt''"
| "switch_target _ = ''igw''"

text \<open>From there to the end of the task that switched.\<close>

definition finish_switch :: "nat \<Rightarrow> switchboard \<Rightarrow> switchboard" where
  "finish_switch self sb =
     (let target = switch_target (pr_job (processes sb ! self));
          sb1 = set_phase self Over sb;
          sb2 = sb1\<lparr>sb_hub := (sb_hub sb1)\<lparr>mqtt_up := False, gateway_up := False, mqtt_client := None\<rparr>\<rparr>
      in start_supervised target True (select_source target True sb2))"

definition task_over :: "switchboard \<Rightarrow> nat \<Rightarrow> bool" where
  "task_over sb i \<longleftrightarrow> pr_phase (processes sb ! i) = Over"

definition switch_turn :: "nat \<Rightarrow> switchboard \<Rightarrow> switchboard" where
  "switch_turn self sb =
     (let sb1 = begin_switch self sb
      in if filter (\<lambda>i. i \<noteq> self) (task_list sb) = [] then finish_switch self sb1 else sb1)"

text \<open>\<open>_failover_to_igw\<close> up to its await, from a task that ends when it returns.\<close>

definition failover_turn :: "source_config \<Rightarrow> nat \<Rightarrow> switchboard \<Rightarrow> switchboard" where
  "failover_turn cfg self sb =
     (if \<not> dual_path sb \<or> active (sb_hub sb) = ''igw'' \<or> \<not> gateway_configured cfg then set_phase self Over sb
      else switch_turn self sb)"

section \<open>The tasks\<close>

text \<open>\<open>current()\<close> of a source.\<close>

definition current_loop :: "string \<Rightarrow> nat \<Rightarrow> switchboard \<Rightarrow> bool" where
  "current_loop source g sb \<longleftrightarrow>
     source_generation sb = g \<and> owner (sb_hub sb) = Some g \<and> data_source (sb_hub sb) = source"

definition set_flags :: "bool \<Rightarrow> bool \<Rightarrow> switchboard \<Rightarrow> switchboard" where
  "set_flags mqtt gateway sb = sb\<lparr>sb_hub := (sb_hub sb)\<lparr>mqtt_up := mqtt, gateway_up := gateway\<rparr>\<rparr>"

text \<open>What can wake a task; a retry makes a new client.\<close>

datatype wake = Connected | Failed | Retried nat | PollAnswered | PollFailed | TimeIsUp | Reached

fun mqtt_turn :: "source_config \<Rightarrow> nat \<Rightarrow> wake \<Rightarrow> nat \<Rightarrow> switchboard \<Rightarrow> switchboard" where
  "mqtt_turn cfg self Connected g sb = set_flags True (gateway_up (sb_hub sb)) sb"
| "mqtt_turn cfg self Failed g sb =
     (if dual_path sb \<and> gateway_configured cfg then failover_turn cfg self sb
      else set_flags False (gateway_up (sb_hub sb)) sb)"
| "mqtt_turn cfg self (Retried client) g sb = sb\<lparr>sb_hub := (sb_hub sb)\<lparr>mqtt_up := False, mqtt_client := Some client\<rparr>\<rparr>"
| "mqtt_turn cfg self _ g sb = sb"

fun gateway_turn :: "wake \<Rightarrow> switchboard \<Rightarrow> switchboard" where
  "gateway_turn PollAnswered sb = set_flags False True sb"
| "gateway_turn PollFailed sb = set_flags False False sb"
| "gateway_turn _ sb = sb"

definition watchdog_turn :: "source_config \<Rightarrow> nat \<Rightarrow> switchboard \<Rightarrow> switchboard" where
  "watchdog_turn cfg self sb =
     (if dual_path sb \<and> active (sb_hub sb) = ''mqtt'' \<and> \<not> mqtt_up (sb_hub sb) then failover_turn cfg self sb
      else set_phase self Over sb)"

text \<open>The recovery wakes after its sleep, or after a probe that reached the broker; the condition of its
  loop is tested before it sleeps again.\<close>

definition recovery_turn :: "source_config \<Rightarrow> nat \<Rightarrow> wake \<Rightarrow> switchboard \<Rightarrow> switchboard" where
  "recovery_turn cfg self w sb =
     (if w = Reached \<and> mqtt_configured cfg then switch_turn self sb
      else if dual_path sb \<and> active (sb_hub sb) = ''igw'' then sb
      else set_phase self Over sb)"

definition process_turn :: "source_config \<Rightarrow> nat \<Rightarrow> wake \<Rightarrow> switchboard \<Rightarrow> switchboard" where
  "process_turn cfg i w sb =
     (let p = processes sb ! i in
      if pr_cancelled p then set_phase i Over sb
      else case pr_phase p of
          Over \<Rightarrow> sb
        | Switching ws \<Rightarrow> if list_all (task_over sb) ws then finish_switch i sb else sb
        | Going \<Rightarrow>
            (case pr_job p of
               MqttLoop g \<Rightarrow> if current_loop ''mqtt'' g sb then mqtt_turn cfg i w g sb else set_phase i Over sb
             | GatewayLoop g \<Rightarrow> if current_loop ''igw'' g sb then gateway_turn w sb else set_phase i Over sb
             | Watchdog \<Rightarrow> watchdog_turn cfg i sb
             | Recovery \<Rightarrow> recovery_turn cfg i w sb))"

text \<open>\<open>_shutdown_tasks\<close> up to its await, and \<open>_clear_mqtt_client\<close>.\<close>

definition shut_down :: "switchboard \<Rightarrow> switchboard" where
  "shut_down sb =
     (let sb1 = (cancel_tasks (task_list sb) (retire_source (invalidate_commands sb)))\<lparr>task_list := []\<rparr>
      in sb1\<lparr>sb_hub := (sb_hub sb1)\<lparr>mqtt_up := False, mqtt_client := None\<rparr>\<rparr>)"

inductive running :: "source_config \<Rightarrow> switchboard \<Rightarrow> bool" for cfg where
  started: "running cfg (select_and_start cfg probed (fresh_board h))"
| woken: "running cfg sb \<Longrightarrow> i < length (processes sb) \<Longrightarrow> running cfg (process_turn cfg i w sb)"

section \<open>Live tasks\<close>

definition live :: "switchboard \<Rightarrow> nat \<Rightarrow> bool" where
  "live sb i \<longleftrightarrow> i < length (processes sb) \<and> \<not> pr_cancelled (processes sb ! i) \<and> \<not> task_over sb i"

fun loop_of :: "job \<Rightarrow> (string \<times> nat) option" where
  "loop_of (MqttLoop g) = Some (''mqtt'', g)"
| "loop_of (GatewayLoop g) = Some (''igw'', g)"
| "loop_of _ = None"

text \<open>A loop that takes messages or snapshots, and a task in the middle of a switch.\<close>

definition source_runs :: "switchboard \<Rightarrow> nat \<Rightarrow> bool" where
  "source_runs sb i \<longleftrightarrow> live sb i \<and> pr_phase (processes sb ! i) = Going \<and> loop_of (pr_job (processes sb ! i)) \<noteq> None"

definition switches :: "switchboard \<Rightarrow> nat \<Rightarrow> bool" where
  "switches sb i \<longleftrightarrow> live sb i \<and> (\<exists>ws. pr_phase (processes sb ! i) = Switching ws)"

definition steady :: "switchboard \<Rightarrow> bool" where
  "steady sb \<longleftrightarrow> (\<exists>l source g. live sb l \<and> loop_of (pr_job (processes sb ! l)) = Some (source, g)
     \<and> current_loop source g sb \<and> active (sb_hub sb) = source
     \<and> (\<forall>i. live sb i \<longrightarrow> i \<in> set (task_list sb) \<and> pr_phase (processes sb ! i) = Going
          \<and> (i = l \<or> loop_of (pr_job (processes sb ! i)) = None)))"

definition switching :: "nat \<Rightarrow> switchboard \<Rightarrow> bool" where
  "switching s sb \<longleftrightarrow> (\<forall>i. live sb i \<longleftrightarrow> i = s) \<and> task_list sb = []
     \<and> (\<exists>ws. pr_phase (processes sb ! s) = Switching ws
          \<and> (\<forall>w \<in> set ws. w < length (processes sb) \<and> w \<noteq> s))"

lemma processes_simps [simp]:
  "processes (select_source source dual sb) = processes sb" "processes (retire_source sb) = processes sb"
  "processes (invalidate_commands sb) = processes sb" "processes (set_flags m g sb) = processes sb"
  "task_list (select_source source dual sb) = task_list sb" "task_list (retire_source sb) = task_list sb"
  "task_list (invalidate_commands sb) = task_list sb" "task_list (set_flags m g sb) = task_list sb"
  "task_list (set_phase i ph sb) = task_list sb" "task_list (cancel_tasks ws sb) = task_list sb"
  "length (processes (set_phase i ph sb)) = length (processes sb)"
  "length (processes (cancel_tasks ws sb)) = length (processes sb)"
  by (simp_all add: select_source_def retire_source_def invalidate_commands_def set_flags_def set_phase_def cancel_tasks_def)

lemma nth_set_phase:
  "j < length (processes sb) \<Longrightarrow> processes (set_phase i ph sb) ! j =
     (if j = i then (processes sb ! i)\<lparr>pr_phase := ph\<rparr> else processes sb ! j)"
  by (simp add: set_phase_def nth_list_update)

lemma nth_cancel_tasks:
  "j < length (processes sb) \<Longrightarrow> processes (cancel_tasks ws sb) ! j =
     (if j \<in> set ws then (processes sb ! j)\<lparr>pr_cancelled := True\<rparr> else processes sb ! j)"
  by (simp add: cancel_tasks_def nth_enumerate_eq)

lemma live_cong: "processes sb1 = processes sb \<Longrightarrow> live sb1 = live sb"
  by (simp add: live_def task_over_def fun_eq_iff)

lemma live_set_phase:
  "live (set_phase i ph sb) j \<longleftrightarrow> (if j = i then i < length (processes sb) \<and> \<not> pr_cancelled (processes sb ! i) \<and> ph \<noteq> Over else live sb j)"
  by (auto simp: live_def task_over_def nth_set_phase)

lemma live_cancel_tasks: "live (cancel_tasks ws sb) j \<longleftrightarrow> live sb j \<and> j \<notin> set ws"
  by (cases "j \<in> set ws") (auto simp: live_def task_over_def nth_cancel_tasks)

text \<open>Starting a source after a switch, or at the start of the server.\<close>

lemma start_supervised_parts:
  assumes "source \<in> {''mqtt'', ''igw''}"
  shows "\<exists>j js. loop_of j = Some (source, Suc (source_generation sb)) \<and> (\<forall>x \<in> set js. loop_of x = None) \<and> length js \<le> 1
    \<and> processes (start_supervised source dual sb) = processes sb @ map (\<lambda>x. \<lparr>pr_job = x, pr_phase = Going, pr_cancelled = False\<rparr>) (j # js)
    \<and> task_list (start_supervised source dual sb) = task_list sb @ [length (processes sb)..<length (processes sb) + Suc (length js)]
    \<and> current_loop source (Suc (source_generation sb)) (start_supervised source dual sb)
    \<and> active (sb_hub (start_supervised source dual sb)) = active (sb_hub sb)"
proof -
  let ?j = "if source = ''mqtt'' then MqttLoop (Suc (source_generation sb)) else GatewayLoop (Suc (source_generation sb))"
  let ?js = "if dual then [if source = ''mqtt'' then Watchdog else Recovery] else []"
  show ?thesis
    using assms
    by (intro exI [of _ ?j] exI [of _ ?js])
       (auto simp: start_supervised_def start_source_def spawn_def retire_source_def new_source_state_def current_loop_def Let_def)
qed

lemma start_supervised_steady:
  assumes "\<And>i. \<not> live sb i" and "source \<in> {''mqtt'', ''igw''}" and "active (sb_hub sb) = source"
  shows "steady (start_supervised source dual sb)"
    and "i < length (processes sb) \<Longrightarrow> processes (start_supervised source dual sb) ! i = processes sb ! i"
proof -
  let ?sb = "start_supervised source dual sb" and ?n = "length (processes sb)"
  obtain j js where parts: "loop_of j = Some (source, Suc (source_generation sb))" "\<forall>x \<in> set js. loop_of x = None"
    "processes ?sb = processes sb @ map (\<lambda>x. \<lparr>pr_job = x, pr_phase = Going, pr_cancelled = False\<rparr>) (j # js)"
    "task_list ?sb = task_list sb @ [?n..<?n + Suc (length js)]"
    "current_loop source (Suc (source_generation sb)) ?sb" "active (sb_hub ?sb) = active (sb_hub sb)"
    using start_supervised_parts [OF assms(2), of sb dual] by blast
  show old: "i < ?n \<Longrightarrow> processes ?sb ! i = processes sb ! i" for i by (simp add: parts(3) nth_append)
  have new: "live ?sb ?n" "processes ?sb ! ?n = \<lparr>pr_job = j, pr_phase = Going, pr_cancelled = False\<rparr>"
    by (simp_all add: live_def task_over_def parts(3) nth_append)
  have others: "i \<in> set (task_list ?sb) \<and> pr_phase (processes ?sb ! i) = Going \<and> (i = ?n \<or> loop_of (pr_job (processes ?sb ! i)) = None)"
    if "live ?sb i" for i
  proof -
    have above: "i \<ge> ?n"
    proof (rule ccontr)
      assume "\<not> i \<ge> ?n"
      with that old [of i] assms(1) [of i] show False by (simp add: live_def task_over_def)
    qed
    from that have below: "i < ?n + Suc (length js)" by (simp add: live_def parts(3))
    with above have i: "processes ?sb ! i = \<lparr>pr_job = (j # js) ! (i - ?n), pr_phase = Going, pr_cancelled = False\<rparr>"
      by (simp add: parts(3) nth_append del: list.map)
    have "i = ?n \<or> loop_of ((j # js) ! (i - ?n)) = None"
    proof (cases "i = ?n")
      case False
      with above below have "(j # js) ! (i - ?n) = js ! (i - ?n - 1)" "i - ?n - 1 < length js" by auto
      with parts(2) show ?thesis by simp
    qed simp
    with above below i show ?thesis by (auto simp: parts(4))
  qed
  with new parts(1,5,6) assms(3) show "steady ?sb"
    unfolding steady_def by (intro exI [of _ ?n] exI [of _ source] exI [of _ "Suc (source_generation sb)"]) auto
qed

section \<open>One source at a time\<close>

lemma begin_switch_switching:
  assumes "live sb self" and "\<And>i. live sb i \<Longrightarrow> i \<in> set (task_list sb)" and "\<forall>i \<in> set (task_list sb). i < length (processes sb)"
  shows "switching self (begin_switch self sb)"
proof -
  let ?others = "filter (\<lambda>i. i \<noteq> self) (task_list sb)"
  let ?sb = "(retire_source (invalidate_commands sb))\<lparr>task_list := []\<rparr>"
  have same: "processes ?sb = processes sb" by simp
  have unfolded: "begin_switch self sb = set_phase self (Switching ?others) (cancel_tasks ?others ?sb)"
    by (simp add: begin_switch_def Let_def)
  have self: "self < length (processes sb)" "\<not> pr_cancelled (processes sb ! self)" using assms(1) by (simp_all add: live_def)
  then have "\<not> pr_cancelled (processes (cancel_tasks ?others ?sb) ! self)"
    by (simp add: nth_cancel_tasks same)
  then have live: "live (begin_switch self sb) i \<longleftrightarrow> i = self" for i
    using self assms(2) [of i]
    by (cases "i = self") (simp_all add: unfolded live_set_phase live_cancel_tasks live_cong [OF same])
  have "pr_phase (processes (begin_switch self sb) ! self) = Switching ?others"
    using assms(1) by (simp add: begin_switch_def Let_def nth_set_phase live_def)
  with live assms(3) show ?thesis
    by (auto simp: switching_def) (simp_all add: begin_switch_def Let_def)
qed

lemma finish_switch_steady:
  assumes "switching s sb"
  shows "steady (finish_switch s sb)"
proof -
  let ?target = "switch_target (pr_job (processes sb ! s))"
  let ?sb1 = "set_phase s Over sb"
  let ?sb2 = "?sb1\<lparr>sb_hub := (sb_hub ?sb1)\<lparr>mqtt_up := False, gateway_up := False, mqtt_client := None\<rparr>\<rparr>"
  have "\<not> live (select_source ?target True ?sb2) i" for i
  proof -
    have "live (select_source ?target True ?sb2) = live ?sb1" by (rule live_cong) simp
    with assms show ?thesis by (simp add: live_set_phase switching_def)
  qed
  moreover have "?target \<in> {''mqtt'', ''igw''}" by (cases "pr_job (processes sb ! s)") simp_all
  moreover have "active (sb_hub (select_source ?target True ?sb2)) = ?target"
    by (simp add: select_source_def set_active_source_def)
  ultimately have "steady (start_supervised ?target True (select_source ?target True ?sb2))"
    by (rule start_supervised_steady(1))
  then show ?thesis by (simp add: finish_switch_def Let_def)
qed

text \<open>The list holds numbers of tasks.\<close>

definition listed :: "switchboard \<Rightarrow> bool" where
  "listed sb \<longleftrightarrow> (\<forall>i \<in> set (task_list sb). i < length (processes sb))"

lemma listed_spawn: "listed sb \<Longrightarrow> listed (spawn j sb)"
  by (auto simp: listed_def spawn_def)

lemma listed_cong: "task_list sb1 = task_list sb \<Longrightarrow> length (processes sb1) = length (processes sb) \<Longrightarrow> listed sb1 = listed sb"
  by (simp add: listed_def)

lemma listed_start: "listed sb \<Longrightarrow> listed (start_supervised source dual sb)"
proof -
  assume sb: "listed sb"
  have "listed (start_source source sb)"
    using sb by (auto simp: start_source_def Let_def retire_source_def intro!: listed_spawn) (simp_all add: listed_def)
  then show ?thesis by (simp add: start_supervised_def Let_def listed_spawn)
qed

lemma listed_begin: "listed (begin_switch self sb)"
  by (simp add: listed_def begin_switch_def Let_def)

lemma listed_finish: "listed sb \<Longrightarrow> listed (finish_switch self sb)"
  by (auto simp: finish_switch_def Let_def intro!: listed_start) (simp add: listed_def)

lemma listed_turn: "listed sb \<Longrightarrow> listed (process_turn cfg i w sb)"
proof -
  assume sb: "listed sb"
  have phase: "listed (set_phase i ph sb)" for ph using sb by (simp add: listed_def)
  have switch: "listed (switch_turn i sb)"
    by (simp add: switch_turn_def Let_def listed_begin listed_finish)
  have hub: "listed (sb\<lparr>sb_hub := h\<rparr>)" "listed (set_flags a b sb)" for h a b using sb by (simp_all add: listed_def)
  have "listed (mqtt_turn cfg i w g sb)" "listed (gateway_turn w sb)" for g
    using sb phase switch hub by (cases w; simp add: failover_turn_def)+
  then show ?thesis
    using sb phase switch
    by (auto simp: process_turn_def watchdog_turn_def recovery_turn_def failover_turn_def Let_def listed_finish
        split: phase.split job.split)
qed

lemma steady_cong:
  assumes "processes sb1 = processes sb" "task_list sb1 = task_list sb" "source_generation sb1 = source_generation sb"
    "owner (sb_hub sb1) = owner (sb_hub sb)" "data_source (sb_hub sb1) = data_source (sb_hub sb)" "active (sb_hub sb1) = active (sb_hub sb)"
  shows "steady sb1 = steady sb"
  by (simp add: steady_def live_cong [OF assms(1)] current_loop_def assms)

text \<open>A task that ends changes nothing for the others.\<close>

lemma steady_ends:
  assumes "steady sb" and "\<not> (live sb i \<and> loop_of (pr_job (processes sb ! i)) \<noteq> None)"
  shows "steady (set_phase i Over sb)"
proof -
  from assms(1) obtain l source g where l: "live sb l" "loop_of (pr_job (processes sb ! l)) = Some (source, g)"
    "current_loop source g sb" "active (sb_hub sb) = source"
    "\<And>i. live sb i \<Longrightarrow> i \<in> set (task_list sb) \<and> pr_phase (processes sb ! i) = Going
      \<and> (i = l \<or> loop_of (pr_job (processes sb ! i)) = None)"
    by (auto simp: steady_def)
  from l(1,2) assms(2) have "l \<noteq> i" by auto
  have same: "j \<noteq> i \<Longrightarrow> j < length (processes sb) \<Longrightarrow> processes (set_phase i Over sb) ! j = processes sb ! j" for j
    by (simp add: nth_set_phase)
  have live: "live (set_phase i Over sb) j \<Longrightarrow> j \<noteq> i \<and> live sb j" for j
    by (simp add: live_set_phase split: if_splits)
  have hub: "sb_hub (set_phase i Over sb) = sb_hub sb" "source_generation (set_phase i Over sb) = source_generation sb"
    by (simp_all add: set_phase_def)
  show ?thesis
    unfolding steady_def
  proof (intro exI conjI allI impI)
    show "live (set_phase i Over sb) l" using l(1) \<open>l \<noteq> i\<close> by (simp add: live_set_phase)
    show "loop_of (pr_job (processes (set_phase i Over sb) ! l)) = Some (source, g)"
      using l(1,2) \<open>l \<noteq> i\<close> same by (simp add: live_def)
    show "current_loop source g (set_phase i Over sb)" "active (sb_hub (set_phase i Over sb)) = source"
      using l(3,4) by (simp_all add: current_loop_def hub)
    fix j
    assume "live (set_phase i Over sb) j"
    with live have j: "j \<noteq> i" "live sb j" by auto
    with same have "processes (set_phase i Over sb) ! j = processes sb ! j" by (simp add: live_def)
    with l(5) [OF j(2)] show "j \<in> set (task_list (set_phase i Over sb))" "pr_phase (processes (set_phase i Over sb) ! j) = Going"
      "j = l \<or> loop_of (pr_job (processes (set_phase i Over sb) ! j)) = None" by simp_all
  qed
qed

lemma steady_loop:
  assumes "steady sb" and "live sb i" and "loop_of (pr_job (processes sb ! i)) = Some (source, g)"
  shows "current_loop source g sb" and "active (sb_hub sb) = source"
  using assms by (auto simp: steady_def)

lemma steady_listed: "steady sb \<Longrightarrow> live sb i \<Longrightarrow> i \<in> set (task_list sb) \<and> pr_phase (processes sb ! i) = Going"
  by (auto simp: steady_def)

lemma switch_turn_steady:
  assumes "steady sb" and "listed sb" and "live sb i"
  shows "steady (switch_turn i sb) \<or> switching i (switch_turn i sb)"
proof -
  have "switching i (begin_switch i sb)"
    using assms(3) by (rule begin_switch_switching) (use assms steady_listed listed_def in auto)
  then show ?thesis by (auto simp: switch_turn_def Let_def finish_switch_steady)
qed

lemma failover_turn_steady:
  assumes "steady sb" and "listed sb" and "live sb i"
    and "loop_of (pr_job (processes sb ! i)) \<noteq> None \<Longrightarrow> dual_path sb \<and> active (sb_hub sb) \<noteq> ''igw'' \<and> gateway_configured cfg"
  shows "steady (failover_turn cfg i sb) \<or> switching i (failover_turn cfg i sb)"
proof (cases "\<not> dual_path sb \<or> active (sb_hub sb) = ''igw'' \<or> \<not> gateway_configured cfg")
  case True
  with assms(4) have "loop_of (pr_job (processes sb ! i)) = None" by blast
  with True assms(1) show ?thesis by (simp add: failover_turn_def steady_ends)
next
  case False
  with switch_turn_steady [OF assms(1-3)] show ?thesis by (simp add: failover_turn_def)
qed

lemma steady_turn:
  assumes "steady sb" and "listed sb" and "i < length (processes sb)"
  shows "steady (process_turn cfg i w sb) \<or> switching i (process_turn cfg i w sb)"
proof (cases "live sb i")
  case False
  with assms have "pr_cancelled (processes sb ! i) \<or> pr_phase (processes sb ! i) = Over"
    by (auto simp: live_def task_over_def)
  moreover have "steady (set_phase i Over sb)" using assms(1) False by (simp add: steady_ends)
  ultimately show ?thesis using assms(1) by (auto simp: process_turn_def Let_def)
next
  case True
  then have p: "\<not> pr_cancelled (processes sb ! i)" "pr_phase (processes sb ! i) = Going"
    using steady_listed [OF assms(1) True] by (simp_all add: live_def)
  have flags: "steady (set_flags a b sb)" for a b
    using assms(1) by (subst steady_cong [of _ sb]) (simp_all add: set_flags_def)
  have retried: "steady (sb\<lparr>sb_hub := (sb_hub sb)\<lparr>mqtt_up := False, mqtt_client := Some client\<rparr>\<rparr>)" for client
    using assms(1) by (subst steady_cong [of _ sb]) simp_all
  have ends: "loop_of (pr_job (processes sb ! i)) = None \<Longrightarrow> steady (set_phase i Over sb)"
    using assms(1) by (simp add: steady_ends)
  show ?thesis
  proof (cases "pr_job (processes sb ! i)")
    case (MqttLoop g)
    then have g: "current_loop ''mqtt'' g sb" "active (sb_hub sb) = ''mqtt''"
      using steady_loop [OF assms(1) True] by simp_all
    then have "process_turn cfg i w sb = mqtt_turn cfg i w g sb"
      using p MqttLoop by (simp add: process_turn_def)
    moreover have "steady (mqtt_turn cfg i w g sb) \<or> switching i (mqtt_turn cfg i w g sb)"
      using assms True g(2) flags retried failover_turn_steady [OF assms(1,2) True, of cfg] by (cases w) auto
    ultimately show ?thesis by simp
  next
    case (GatewayLoop g)
    then have "current_loop ''igw'' g sb" using steady_loop [OF assms(1) True] by simp
    then have "process_turn cfg i w sb = gateway_turn w sb"
      using p GatewayLoop by (simp add: process_turn_def)
    then show ?thesis using assms(1) flags by (cases w) simp_all
  next
    case Watchdog
    then have "process_turn cfg i w sb = watchdog_turn cfg i sb" using p by (simp add: process_turn_def)
    then show ?thesis
      using Watchdog ends failover_turn_steady [OF assms(1,2) True, of cfg] by (auto simp: watchdog_turn_def)
  next
    case Recovery
    then have "process_turn cfg i w sb = recovery_turn cfg i w sb" using p by (simp add: process_turn_def)
    then show ?thesis
      using Recovery ends assms(1) switch_turn_steady [OF assms(1,2) True] by (auto simp: recovery_turn_def)
  qed
qed

text \<open>While a task switches, the others can only end.\<close>

lemma switching_turn:
  assumes "switching s sb" and "i < length (processes sb)" and "i \<noteq> s"
  shows "switching s (process_turn cfg i w sb)" and "task_over (process_turn cfg i w sb) i"
    and "pr_job (processes (process_turn cfg i w sb) ! s) = pr_job (processes sb ! s)"
    and "pr_phase (processes (process_turn cfg i w sb) ! s) = pr_phase (processes sb ! s)"
    and "length (processes (process_turn cfg i w sb)) = length (processes sb)"
    and "task_over sb j \<Longrightarrow> j < length (processes sb) \<Longrightarrow> task_over (process_turn cfg i w sb) j"
proof -
  from assms have dead: "\<not> live sb i" and s: "s < length (processes sb)" by (auto simp: switching_def live_def)
  have ended: "switching s (set_phase i Over sb)"
    using assms s by (auto simp: switching_def live_set_phase nth_set_phase)
  consider (cancelled) "process_turn cfg i w sb = set_phase i Over sb"
    | (over) "process_turn cfg i w sb = sb" "task_over sb i"
    using dead assms(2)
    by (cases "pr_cancelled (processes sb ! i)") (auto simp: live_def task_over_def process_turn_def Let_def)
  then have "switching s (process_turn cfg i w sb) \<and> task_over (process_turn cfg i w sb) i
    \<and> pr_job (processes (process_turn cfg i w sb) ! s) = pr_job (processes sb ! s)
    \<and> pr_phase (processes (process_turn cfg i w sb) ! s) = pr_phase (processes sb ! s)
    \<and> length (processes (process_turn cfg i w sb)) = length (processes sb)
    \<and> (task_over sb j \<longrightarrow> j < length (processes sb) \<longrightarrow> task_over (process_turn cfg i w sb) j)" for j
    using ended assms s by cases (auto simp: task_over_def nth_set_phase)
  then show "switching s (process_turn cfg i w sb)" "task_over (process_turn cfg i w sb) i"
    "pr_job (processes (process_turn cfg i w sb) ! s) = pr_job (processes sb ! s)"
    "pr_phase (processes (process_turn cfg i w sb) ! s) = pr_phase (processes sb ! s)"
    "length (processes (process_turn cfg i w sb)) = length (processes sb)"
    "task_over sb j \<Longrightarrow> j < length (processes sb) \<Longrightarrow> task_over (process_turn cfg i w sb) j"
    by blast+
qed

lemma switching_own_turn:
  assumes "switching s sb"
  shows "process_turn cfg s w sb = sb \<or> steady (process_turn cfg s w sb)"
    and "(\<And>i. i < length (processes sb) \<Longrightarrow> i \<noteq> s \<Longrightarrow> task_over sb i) \<Longrightarrow> process_turn cfg s w sb = finish_switch s sb"
proof -
  from assms obtain ws where ws: "pr_phase (processes sb ! s) = Switching ws" "\<not> pr_cancelled (processes sb ! s)"
    "\<forall>w \<in> set ws. w < length (processes sb) \<and> w \<noteq> s"
    by (auto simp: switching_def live_def)
  then have turn: "process_turn cfg s w sb = (if list_all (task_over sb) ws then finish_switch s sb else sb)"
    by (simp add: process_turn_def Let_def)
  then show "process_turn cfg s w sb = sb \<or> steady (process_turn cfg s w sb)"
    using finish_switch_steady [OF assms] by simp
  assume "\<And>i. i < length (processes sb) \<Longrightarrow> i \<noteq> s \<Longrightarrow> task_over sb i"
  then show "process_turn cfg s w sb = finish_switch s sb" using ws(3) turn by (simp add: list_all_iff)
qed

definition in_order :: "switchboard \<Rightarrow> bool" where
  "in_order sb \<longleftrightarrow> listed sb \<and> (steady sb \<or> (\<exists>s. switching s sb))"

lemma in_order_start:
  assumes "mqtt_configured cfg \<or> gateway_configured cfg"
  shows "in_order (select_and_start cfg probed (fresh_board h))"
proof -
  let ?dual = "mqtt_configured cfg \<and> gateway_configured cfg"
  define source where "source = choose_startup_source (mqtt_configured cfg) (gateway_configured cfg)
    (if ?dual then probed else mqtt_configured cfg)"
  have source: "source \<in> {''mqtt'', ''igw''}" "source \<noteq> ''none''"
    using assms by (auto simp: source_def choose_startup_source_def)
  let ?sb = "select_source source ?dual (fresh_board h)"
  have "select_and_start cfg probed (fresh_board h) = start_supervised source ?dual ?sb"
    using source(2) by (simp add: select_and_start_def source_def [symmetric] Let_def)
  moreover have "steady (start_supervised source ?dual ?sb)"
    by (rule start_supervised_steady(1) [OF _ source(1)])
       (simp_all add: live_def select_source_def fresh_board_def set_active_source_def)
  moreover have "listed (start_supervised source ?dual ?sb)"
    by (rule listed_start) (simp add: listed_def fresh_board_def)
  ultimately show ?thesis by (simp add: in_order_def)
qed

lemma running_in_order:
  assumes "running cfg sb" and "mqtt_configured cfg \<or> gateway_configured cfg"
  shows "in_order sb"
  using assms(1)
proof induction
  case (started probed h)
  show ?case by (rule in_order_start [OF assms(2)])
next
  case (woken sb i w)
  have listed: "listed (process_turn cfg i w sb)" using woken by (simp add: in_order_def listed_turn)
  from woken.IH consider "steady sb" | s where "switching s sb" by (auto simp: in_order_def)
  then show ?case
  proof cases
    case 1
    then show ?thesis using woken listed steady_turn [of sb i] by (auto simp: in_order_def)
  next
    case 2
    then show ?thesis
      using woken listed switching_turn(1) [of s sb i] switching_own_turn(1) [of s sb cfg w]
      by (cases "i = s") (auto simp: in_order_def)
  qed
qed

section \<open>What a switch and a shutdown lead to\<close>

definition take_turns :: "source_config \<Rightarrow> (nat \<times> wake) list \<Rightarrow> switchboard \<Rightarrow> switchboard" where
  "take_turns cfg turns sb = fold (\<lambda>(i, w). process_turn cfg i w) turns sb"

lemma take_turns_simps [simp]:
  "take_turns cfg [] sb = sb" "take_turns cfg ((i, w) # turns) sb = take_turns cfg turns (process_turn cfg i w sb)"
  by (simp_all add: take_turns_def)

lemma take_turns_append: "take_turns cfg (ts @ us) sb = take_turns cfg us (take_turns cfg ts sb)"
  by (simp add: take_turns_def)

lemma steady_source: "steady sb \<Longrightarrow> \<exists>i. source_runs sb i"
  by (auto simp: steady_def source_runs_def)

lemma active_finish_switch: "active (sb_hub (finish_switch s sb)) = switch_target (pr_job (processes sb ! s))"
proof -
  let ?target = "switch_target (pr_job (processes sb ! s))"
  have "?target \<in> {''mqtt'', ''igw''}" by (cases "pr_job (processes sb ! s)") simp_all
  then have "active (sb_hub (start_supervised ?target True sb1)) = active (sb_hub sb1)" for sb1
    using start_supervised_parts by blast
  then show ?thesis by (simp add: finish_switch_def Let_def select_source_def set_active_source_def)
qed

lemma others_end:
  assumes "switching s sb" and "\<forall>(i, w) \<in> set turns. i < length (processes sb) \<and> i \<noteq> s"
  shows "switching s (take_turns cfg turns sb) \<and> length (processes (take_turns cfg turns sb)) = length (processes sb)
    \<and> pr_job (processes (take_turns cfg turns sb) ! s) = pr_job (processes sb ! s)
    \<and> (\<forall>i < length (processes sb). task_over sb i \<or> i \<in> fst ` set turns \<longrightarrow> task_over (take_turns cfg turns sb) i)"
  using assms
proof (induction turns arbitrary: sb)
  case (Cons t turns)
  obtain i w where t: "t = (i, w)" by (cases t)
  with Cons.prems have i: "i < length (processes sb)" "i \<noteq> s" by auto
  note turn = switching_turn [OF Cons.prems(1) i, where cfg = cfg and w = w]
  from Cons.prems(2) turn(5) have "\<forall>(j, v) \<in> set turns. j < length (processes (process_turn cfg i w sb)) \<and> j \<noteq> s" by auto
  from Cons.IH [OF turn(1) this] turn t show ?case by auto
qed simp

lemma switching_completes:
  assumes "switching s sb" and "\<forall>(i, w) \<in> set turns. i < length (processes sb) \<and> i \<noteq> s"
    and "\<forall>i < length (processes sb). i \<noteq> s \<longrightarrow> i \<in> fst ` set turns"
  shows "(\<exists>i. source_runs (take_turns cfg (turns @ [(s, v)]) sb) i)
    \<and> active (sb_hub (take_turns cfg (turns @ [(s, v)]) sb)) = switch_target (pr_job (processes sb ! s))"
proof -
  let ?sb = "take_turns cfg turns sb"
  note ended = others_end [OF assms(1,2), of cfg]
  then have "process_turn cfg s v ?sb = finish_switch s ?sb"
    using assms(3) by (intro switching_own_turn(2)) auto
  moreover have "steady (finish_switch s ?sb)" using ended by (simp add: finish_switch_steady)
  ultimately show ?thesis
    using ended by (simp add: take_turns_append steady_source active_finish_switch)
qed

lemma dead_turns:
  assumes "\<And>i. \<not> live sb i" and "\<forall>(i, w) \<in> set turns. i < length (processes sb)"
  shows "\<not> live (take_turns cfg turns sb) j"
  using assms
proof (induction turns arbitrary: sb)
  case (Cons t turns)
  obtain i w where t: "t = (i, w)" by (cases t)
  with Cons.prems have i: "i < length (processes sb)" "pr_cancelled (processes sb ! i) \<or> pr_phase (processes sb ! i) = Over"
    using Cons.prems(1) [of i] by (auto simp: live_def task_over_def)
  then have turn: "process_turn cfg i w sb \<in> {sb, set_phase i Over sb}"
    by (cases "pr_cancelled (processes sb ! i)") (simp_all add: process_turn_def Let_def)
  have "\<not> live (process_turn cfg i w sb) k" for k
    using turn Cons.prems(1) by (auto simp: live_set_phase split: if_splits)
  moreover have "\<forall>(j, v) \<in> set turns. j < length (processes (process_turn cfg i w sb))"
    using turn Cons.prems(2) by auto
  ultimately show ?case using Cons.IH t by simp
qed simp

lemma shut_down_parts:
  "live (shut_down sb) i \<longleftrightarrow> live sb i \<and> i \<notin> set (task_list sb)" "task_list (shut_down sb) = []"
  "length (processes (shut_down sb)) = length (processes sb)"
proof -
  let ?sb = "retire_source (invalidate_commands sb)"
  have parts: "processes (shut_down sb) = processes (cancel_tasks (task_list sb) ?sb)"
    by (simp add: shut_down_def Let_def)
  have "live ?sb = live sb" by (rule live_cong) simp
  then show "live (shut_down sb) i \<longleftrightarrow> live sb i \<and> i \<notin> set (task_list sb)"
    by (simp add: live_cong [OF parts] live_cancel_tasks)
  show "task_list (shut_down sb) = []" by (simp add: shut_down_def Let_def)
  show "length (processes (shut_down sb)) = length (processes sb)" by (simp add: parts)
qed

lemma switching_shut_down:
  assumes "switching s sb"
  shows "switching s (shut_down sb)"
proof -
  let ?sb = "retire_source (invalidate_commands sb)"
  from assms have "task_list sb = []" "s < length (processes ?sb)" by (auto simp: switching_def live_def)
  then have "processes (shut_down sb) ! s = processes sb ! s"
    by (simp add: shut_down_def Let_def nth_cancel_tasks del: processes_simps) (simp only: processes_simps)
  with assms show ?thesis by (auto simp: switching_def shut_down_parts)
qed

lemma steady_one:
  assumes "steady sb"
  shows "\<exists>i source g. source_runs sb i \<and> loop_of (pr_job (processes sb ! i)) = Some (source, g) \<and> current_loop source g sb
    \<and> active (sb_hub sb) = source \<and> (\<forall>j. source_runs sb j \<longleftrightarrow> j = i) \<and> (\<forall>j. \<not> switches sb j)"
proof -
  from assms obtain l source g where l: "live sb l" "loop_of (pr_job (processes sb ! l)) = Some (source, g)"
    "current_loop source g sb" "active (sb_hub sb) = source"
    "\<And>i. live sb i \<Longrightarrow> pr_phase (processes sb ! i) = Going \<and> (i = l \<or> loop_of (pr_job (processes sb ! i)) = None)"
    by (auto simp: steady_def)
  have runs: "source_runs sb j \<longleftrightarrow> j = l" for j
    using l(1,2) l(5) [of j] by (cases "j = l") (auto simp: source_runs_def)
  have still: "\<not> switches sb j" for j using l(5) [of j] by (auto simp: switches_def)
  from l(1-4) runs still show ?thesis by blast
qed

lemma switching_alone: "switching s sb \<Longrightarrow> switches sb s \<and> (\<forall>j. live sb j \<longleftrightarrow> j = s)"
  by (auto simp: switching_def switches_def)

lemma running_unconfigured:
  assumes "running cfg sb" and "\<not> mqtt_configured cfg" and "\<not> gateway_configured cfg"
  shows "processes sb = [] \<and> active (sb_hub sb) = ''none''"
  using assms
proof induction
  case (started probed h)
  then show ?case
    by (simp add: select_and_start_def choose_startup_source_def select_source_def set_active_source_def new_source_state_def
        fresh_board_def Let_def)
qed simp

text \<open>C37: From the start of the server on, whatever wakes its tasks and in whatever order: if a source is
  configured, either exactly one loop takes messages or snapshots, it is of the selected source, it
  owns the current state object and no task switches; or one task is in the middle of a switch and no
  other task runs any more. If none is configured, the selected source is none and no task ever runs.\<close>

theorem exactly_one_source:
  assumes "running cfg sb"
  shows "if mqtt_configured cfg \<or> gateway_configured cfg
    then (\<exists>i source g. source_runs sb i \<and> loop_of (pr_job (processes sb ! i)) = Some (source, g) \<and> current_loop source g sb
        \<and> active (sb_hub sb) = source \<and> (\<forall>j. source_runs sb j \<longleftrightarrow> j = i) \<and> (\<forall>j. \<not> switches sb j))
      \<or> (\<exists>s. switches sb s \<and> (\<forall>j. live sb j \<longleftrightarrow> j = s))
    else processes sb = [] \<and> active (sb_hub sb) = ''none''"
proof (cases "mqtt_configured cfg \<or> gateway_configured cfg")
  case False
  with running_unconfigured [OF assms] show ?thesis by simp
next
  case True
  from running_in_order [OF assms True] have "(\<exists>i source g. source_runs sb i \<and> loop_of (pr_job (processes sb ! i)) = Some (source, g)
        \<and> current_loop source g sb
        \<and> active (sb_hub sb) = source \<and> (\<forall>j. source_runs sb j \<longleftrightarrow> j = i) \<and> (\<forall>j. \<not> switches sb j))
      \<or> (\<exists>s. switches sb s \<and> (\<forall>j. live sb j \<longleftrightarrow> j = s))"
    by (auto simp: in_order_def dest: steady_one switching_alone)
  then show ?thesis unfolding if_P [OF True] .
qed

lemma running_switching:
  assumes "running cfg sb" and "mqtt_configured cfg \<or> gateway_configured cfg" and "switches sb s"
  shows "switching s sb"
  using running_in_order [OF assms(1,2)] assms(3) steady_listed [of sb s]
  by (auto simp: in_order_def switches_def switching_def)

text \<open>C39: A switch never hangs: once every other task has had a turn, in which the cancelled ones end,
  the next turn of the switching task starts the other source.\<close>

theorem switch_completes:
  assumes "running cfg sb" and "mqtt_configured cfg \<or> gateway_configured cfg" and "switches sb s"
    and "\<forall>(i, w) \<in> set turns. i < length (processes sb) \<and> i \<noteq> s"
    and "\<forall>i < length (processes sb). i \<noteq> s \<longrightarrow> i \<in> fst ` set turns"
  shows "(\<exists>i. source_runs (take_turns cfg (turns @ [(s, v)]) sb) i)
    \<and> active (sb_hub (take_turns cfg (turns @ [(s, v)]) sb)) = switch_target (pr_job (processes sb ! s))"
  by (rule switching_completes [OF running_switching [OF assms(1-3)] assms(4,5)])

text \<open>C40: The end of the server stops the source for good unless a switch is in progress: the task that
  switches is on no list any more, so it is not cancelled, and it starts a source after the
  shutdown.\<close>

theorem shut_down_misses_a_switch:
  assumes "running cfg sb" and "mqtt_configured cfg \<or> gateway_configured cfg"
  shows "if \<exists>s. switches sb s
    then \<exists>turns. (\<forall>(i, w) \<in> set turns. i < length (processes sb)) \<and> (\<exists>i. source_runs (take_turns cfg turns (shut_down sb)) i)
    else \<forall>turns i. (\<forall>(i, w) \<in> set turns. i < length (processes sb)) \<longrightarrow> \<not> live (take_turns cfg turns (shut_down sb)) i"
proof (cases "\<exists>s. switches sb s")
  case True
  then obtain s where "switches sb s" ..
  with assms have s: "switching s (shut_down sb)" "s < length (processes sb)"
    by (auto simp: switching_shut_down running_switching switches_def live_def)
  let ?turns = "map (\<lambda>i. (i, TimeIsUp)) (filter (\<lambda>i. i \<noteq> s) [0..<length (processes sb)])"
  have "\<exists>i. source_runs (take_turns cfg (?turns @ [(s, TimeIsUp)]) (shut_down sb)) i"
    by (rule switching_completes [OF s(1), THEN conjunct1]) (auto simp: shut_down_parts image_image)
  moreover have "\<forall>(i, w) \<in> set (?turns @ [(s, TimeIsUp)]). i < length (processes sb)" using s(2) by auto
  ultimately show ?thesis unfolding if_P [OF True] by blast
next
  case False
  with running_in_order [OF assms] have "steady sb" by (auto simp: in_order_def switches_def switching_def)
  then have "\<not> live (shut_down sb) i" for i by (auto simp: shut_down_parts steady_listed)
  then have "\<forall>turns i. (\<forall>(i, w) \<in> set turns. i < length (processes sb)) \<longrightarrow> \<not> live (take_turns cfg turns (shut_down sb)) i"
    using dead_turns [of "shut_down sb" _ cfg] by (simp add: shut_down_parts)
  with False show ?thesis by simp
qed

section \<open>Commands\<close>

text \<open>The numbers of the sources and of the selections grow together.\<close>

definition moved :: "switchboard \<Rightarrow> switchboard \<Rightarrow> bool" where
  "moved sb sb1 \<longleftrightarrow>
     (source_generation sb1 = source_generation sb \<and> generation (sb_hub sb1) = generation (sb_hub sb))
     \<or> (source_generation sb < source_generation sb1 \<and> generation (sb_hub sb) < generation (sb_hub sb1))"

lemma moved_trans: "moved sb sb1 \<Longrightarrow> moved sb1 sb2 \<Longrightarrow> moved sb sb2"
  by (auto simp: moved_def)

lemma hub_simps [simp]:
  "sb_hub (set_phase i ph sb) = sb_hub sb" "source_generation (set_phase i ph sb) = source_generation sb"
  "sb_hub (cancel_tasks ws sb) = sb_hub sb" "source_generation (cancel_tasks ws sb) = source_generation sb"
  by (simp_all add: set_phase_def cancel_tasks_def)

lemma moved_begin: "moved sb (begin_switch i sb)"
  by (simp add: moved_def begin_switch_def Let_def retire_source_def invalidate_commands_def)

lemma moved_finish: "moved sb (finish_switch i sb)"
  by (simp add: moved_def finish_switch_def Let_def select_source_def set_active_source_def start_supervised_def
      start_source_def spawn_def retire_source_def new_source_state_def)

lemma moved_turn: "moved sb (process_turn cfg i w sb)"
proof -
  have phase: "moved sb (set_phase i Over sb)" and same: "moved sb sb" by (simp_all add: moved_def)
  have switch: "moved sb (switch_turn i sb)"
    using moved_trans [OF moved_begin moved_finish] by (simp add: switch_turn_def Let_def moved_begin)
  have failover: "moved sb (failover_turn cfg i sb)" using phase switch by (simp add: failover_turn_def)
  have "moved sb (mqtt_turn cfg i w g sb)" for g
    using failover same by (cases w) (simp_all add: moved_def set_flags_def)
  moreover have "moved sb (gateway_turn w sb)" by (cases w) (simp_all add: moved_def set_flags_def)
  moreover have "moved sb (watchdog_turn cfg i sb)" using failover phase by (simp add: watchdog_turn_def)
  moreover have "moved sb (recovery_turn cfg i w sb)" using switch phase same by (simp add: recovery_turn_def)
  ultimately show ?thesis
    using phase same moved_finish
    by (cases "pr_phase (processes sb ! i)"; cases "pr_job (processes sb ! i)") (simp_all add: process_turn_def Let_def)
qed

lemma moved_turns: "moved sb (take_turns cfg turns sb)"
proof (induction turns arbitrary: sb)
  case Nil
  show ?case by (simp add: moved_def)
next
  case (Cons t turns)
  show ?case using moved_trans [OF moved_turn Cons.IH] by (cases t) simp
qed

text \<open>C38: A command given to a source that has been switched away from since, even if it was switched
  back, passes none of the five checks that precede a write: of a controller command, of the ESS mode,
  of the controller's transport, of a water mode and of a native notification.\<close>

theorem switch_refuses_commands:
  assumes "source_generation (take_turns cfg turns sb) \<noteq> source_generation sb"
  shows "\<not> snd (check_controller_command name body (select client (sb_hub sb)) (sb_hub (take_turns cfg turns sb)))
    \<and> \<not> snd (check_ess_mode (select client (sb_hub sb)) (sb_hub (take_turns cfg turns sb)))
    \<and> \<not> snd (check_controller_transport (select client (sb_hub sb)) (sb_hub (take_turns cfg turns sb)))
    \<and> \<not> snd (check_water dashboard which portal (select client (sb_hub sb)) (sb_hub (take_turns cfg turns sb)))
    \<and> \<not> snd (check_notification captured (select client (sb_hub sb)) (sb_hub (take_turns cfg turns sb)))"
proof -
  have stale: "generation (sb_hub (take_turns cfg turns sb)) \<noteq> generation (sb_hub sb)"
    using assms moved_turns [of sb cfg turns] by (auto simp: moved_def)
  then have "\<not> current_source (select client (sb_hub sb)) (sb_hub (take_turns cfg turns sb))"
    by (simp add: current_source_def select_def)
  moreover from stale have "\<not> snd (check_water dashboard which portal (select client (sb_hub sb)) (sb_hub (take_turns cfg turns sb)))"
    by (simp add: check_water_def select_def split: option.split)
  ultimately show ?thesis
    by (simp add: check_controller_command_def check_ess_mode_def check_controller_transport_def check_notification_def)
qed

section \<open>A failover, step by step\<close>

definition demo_config :: source_config where
  "demo_config = \<lparr>mqtt_configured = True, gateway_configured = True\<rparr>"

definition blank_hub :: hub where
  "blank_hub = \<lparr>generation = 0, active = ''none'', gateway_only = False, data_source = '''', mqtt_up = False, gateway_up = False,
     mqtt_client = None, owner = None, controllers = \<lambda>_. controller_init, caches = \<lambda>_. cache_init,
     portal_id = [], config_portal = [], wall_now = 0, mono_now = 0\<rparr>"

text \<open>The broker answers, and the connection of the first source fails.\<close>

definition demo_started :: switchboard where
  "demo_started = select_and_start demo_config True (fresh_board blank_hub)"

definition demo_switching :: switchboard where
  "demo_switching = process_turn demo_config 0 Failed demo_started"

lemma demo_running: "running demo_config demo_started" "running demo_config demo_switching"
proof -
  show started: "running demo_config demo_started" unfolding demo_started_def by (rule running.started)
  have "0 < length (processes demo_started)"
    by (simp add: demo_started_def select_and_start_def demo_config_def choose_startup_source_def start_supervised_def
        start_source_def spawn_def fresh_board_def Let_def)
  with started show "running demo_config demo_switching" unfolding demo_switching_def by (rule running.woken)
qed

lemma demo_configured: "mqtt_configured demo_config \<or> gateway_configured demo_config" by (simp add: demo_config_def)

lemmas demo_start_defs = demo_started_def select_and_start_def demo_config_def choose_startup_source_def start_supervised_def
  start_source_def spawn_def fresh_board_def Let_def select_source_def set_active_source_def new_source_state_def
  retire_source_def blank_hub_def

lemma demo_board:
  "processes demo_started = [\<lparr>pr_job = MqttLoop 1, pr_phase = Going, pr_cancelled = False\<rparr>,
     \<lparr>pr_job = Watchdog, pr_phase = Going, pr_cancelled = False\<rparr>]"
  "task_list demo_started = [0, 1]" "source_generation demo_started = 1" "dual_path demo_started"
  "active (sb_hub demo_started) = ''mqtt''" "owner (sb_hub demo_started) = Some 1" "data_source (sb_hub demo_started) = ''mqtt''"
  by (simp_all add: demo_start_defs)

lemma demo_switch:
  "processes demo_switching = [\<lparr>pr_job = MqttLoop 1, pr_phase = Switching [1], pr_cancelled = False\<rparr>,
     \<lparr>pr_job = Watchdog, pr_phase = Going, pr_cancelled = True\<rparr>]"
  "source_generation demo_switching = 2"
proof -
  have turn: "demo_switching = begin_switch 0 demo_started"
    by (simp add: demo_switching_def process_turn_def demo_board current_loop_def failover_turn_def switch_turn_def Let_def demo_config_def)
  show "processes demo_switching = [\<lparr>pr_job = MqttLoop 1, pr_phase = Switching [1], pr_cancelled = False\<rparr>,
     \<lparr>pr_job = Watchdog, pr_phase = Going, pr_cancelled = True\<rparr>]" "source_generation demo_switching = 2"
    by (simp_all add: turn begin_switch_def Let_def set_phase_def cancel_tasks_def demo_board retire_source_def invalidate_commands_def)
qed

lemma demo_switches: "switches demo_switching 0"
  by (simp add: switches_def live_def task_over_def demo_switch)

lemma exactly_one_source_witness:
  "switches demo_switching 0 \<and> (\<forall>j. live demo_switching j \<longleftrightarrow> j = 0) \<and> (\<exists>i. source_runs demo_started i)"
proof -
  have "live demo_switching 0" "source_runs demo_started 0"
    by (simp_all add: live_def source_runs_def task_over_def demo_switch demo_board)
  with exactly_one_source [OF demo_running(2)] demo_configured demo_switches show ?thesis by (metis (full_types))
qed

lemma switch_completes_witness:
  "(\<exists>i. source_runs (take_turns demo_config ([(1, TimeIsUp)] @ [(0, TimeIsUp)]) demo_switching) i)
    \<and> active (sb_hub (take_turns demo_config ([(1, TimeIsUp)] @ [(0, TimeIsUp)]) demo_switching)) = ''igw''"
proof -
  have turns: "\<forall>(i, w) \<in> set [(1 :: nat, TimeIsUp)]. i < length (processes demo_switching) \<and> i \<noteq> 0"
    by (simp add: demo_switch)
  have "\<forall>i < length (processes demo_switching). i \<noteq> 0 \<longrightarrow> i \<in> fst ` set [(1 :: nat, TimeIsUp)]"
    by (auto simp: demo_switch)
  from switch_completes [OF demo_running(2) demo_configured demo_switches turns this, of TimeIsUp]
  show ?thesis by (simp add: demo_switch)
qed

lemma shut_down_misses_a_switch_witness:
  "\<exists>turns i. source_runs (take_turns demo_config turns (shut_down demo_switching)) i"
proof -
  have "\<exists>s. switches demo_switching s" using demo_switches ..
  with shut_down_misses_a_switch [OF demo_running(2) demo_configured] show ?thesis by (simp only: if_True) blast
qed

lemma switch_refuses_commands_witness:
  "source_generation demo_started = 1
    \<and> \<not> snd (check_ess_mode (select (Some 1) (sb_hub demo_started)) (sb_hub (take_turns demo_config [(0, Failed)] demo_started)))"
proof -
  have "source_generation (take_turns demo_config [(0, Failed)] demo_started) \<noteq> source_generation demo_started"
    by (simp add: demo_switching_def [symmetric] demo_switch demo_board)
  from switch_refuses_commands [OF this] demo_board(3) show ?thesis by blast
qed

end
