(* ===== verification/SettingsStore.thy ===== *)
theory SettingsStore
  imports PushPayload
begin

text \<open>
  The settings of the dashboard (\<open>settings_store.py\<close>): which entries count, what a patch may
  change, the masking of secrets, the steps that write the file, and the connection settings that
  apply at a start. The file is a JSON document; that \<open>json.load\<close> gives back what \<open>json.dump\<close>
  wrote is taken from the library. \<open>env\<close> holds the values of \<open>config\<close> (from the environment and
  \<open>local_config\<close>) at the time the module is imported.
\<close>

section \<open>Keys and values\<close>

datatype setting_type = TStr | TBool | TInt

type_synonym settings = "(pystring \<times> pyval) list"

definition show_keys :: "string list" where
  "show_keys = [''show_daily_stats'', ''show_header_toggles'', ''show_ha_sensors'', ''show_ha_numbers'', ''show_batteries'',
     ''show_solar_production'', ''show_active_loads'', ''show_ev'', ''show_washer'', ''show_dryer'', ''show_dishwasher'',
     ''show_home_section'', ''show_ha_covers'', ''show_ha_media'', ''show_ha_scenes'', ''show_ha_weather'']"

definition allowed_keys :: "(pystring \<times> setting_type) list" where
  "allowed_keys = (py ''camera_topic'', TStr) # map (\<lambda>k. (py k, TBool)) show_keys
     @ [(py ''mqtt_host'', TStr), (py ''mqtt_port'', TInt), (py ''mqtt_username'', TStr), (py ''mqtt_password'', TStr),
        (py ''ha_url'', TStr), (py ''ha_token'', TStr)]"

definition secret_keys :: "pystring list" where
  "secret_keys = [py ''mqtt_password'', py ''ha_token'']"

record environment =
  env_camera_topic :: pystring
  env_mqtt_host :: pystring
  env_mqtt_port :: int
  env_mqtt_username :: pystring
  env_mqtt_password :: pystring

definition defaults :: "environment \<Rightarrow> settings" where
  "defaults env = (py ''camera_topic'', PyStr (env_camera_topic env)) # map (\<lambda>k. (py k, PyBool True)) show_keys
     @ [(py ''mqtt_host'', PyStr (env_mqtt_host env)), (py ''mqtt_port'', PyInt (env_mqtt_port env)),
        (py ''mqtt_username'', PyStr (env_mqtt_username env)), (py ''mqtt_password'', PyStr []),
        (py ''ha_url'', PyStr []), (py ''ha_token'', PyStr [])]"

text \<open>\<open>isinstance\<close>: a boolean is an integer.\<close>

fun has_type :: "setting_type \<Rightarrow> pyval \<Rightarrow> bool" where
  "has_type TStr (PyStr s) \<longleftrightarrow> True"
| "has_type TBool (PyBool b) \<longleftrightarrow> True"
| "has_type TInt (PyInt i) \<longleftrightarrow> True"
| "has_type TInt (PyBool b) \<longleftrightarrow> True"
| "has_type t v \<longleftrightarrow> False"

abbreviation mask :: pyval where
  "mask \<equiv> pylit ''***''"

definition valid_setting :: "pystring \<Rightarrow> pyval \<Rightarrow> setting_type \<Rightarrow> bool" where
  "valid_setting key v t \<longleftrightarrow>
     (if \<not> has_type t v then False
      else if key = py ''mqtt_port'' then (case v of PyInt i \<Rightarrow> 1 \<le> i \<and> i \<le> 65535 | _ \<Rightarrow> False)
      else \<not> (key \<in> set secret_keys \<and> v = mask))"

section \<open>Loading\<close>

text \<open>What \<open>open\<close> and \<open>json.load\<close> find: no readable file, bytes that are not UTF-8, no JSON, or a value.\<close>

datatype stored = Unreadable | Undecodable | NotJson | Document pyval

datatype save_error = BadSetting | BadText | OsError

definition overlay :: "settings \<Rightarrow> settings \<Rightarrow> settings" where
  "overlay stored out =
     fold (\<lambda>(k, t) out. case map_of stored k of
         None \<Rightarrow> out | Some v \<Rightarrow> if valid_setting k v t then AList.update k v out else out) allowed_keys out"

definition mask_value :: "pyval option \<Rightarrow> pyval" where
  "mask_value v = (if v \<in> {None, Some (PyStr [])} then PyStr [] else mask)"

definition mask_secrets :: "settings \<Rightarrow> settings" where
  "mask_secrets out = fold (\<lambda>k out. AList.update k (mask_value (map_of out k)) out) secret_keys out"

text \<open>A \<open>UnicodeDecodeError\<close> is not among the exceptions that \<open>load_settings\<close> handles.\<close>

definition load_settings :: "environment \<Rightarrow> stored \<Rightarrow> save_error + settings" where
  "load_settings env f =
     (case f of
        Undecodable \<Rightarrow> Inl BadText
      | Document v \<Rightarrow> Inr (if is_dict v then overlay (py_items v) (defaults env) else defaults env)
      | _ \<Rightarrow> Inr (defaults env))"

definition masked_settings :: "environment \<Rightarrow> stored \<Rightarrow> save_error + settings" where
  "masked_settings env f = (case load_settings env f of Inl e \<Rightarrow> Inl e | Inr out \<Rightarrow> Inr (mask_secrets out))"

section \<open>Writing\<close>

text \<open>The settings file, and the temporary file of this call. Every step may raise an \<open>OSError\<close>; a
  write that fails has left part of the text.\<close>

record settings_disk =
  sd_file :: stored
  sd_temporary :: "stored option"

datatype write_step = MakeDirs | MakeTemporary | WriteText | Replace | SyncDirectory | Unlink

text \<open>\<open>_write_private_settings\<close>: the states of the disk one after the other, and whether it raised. The
  clean-up runs on every path after the temporary file was made.\<close>

definition write_text :: "(write_step \<Rightarrow> bool) \<Rightarrow> settings \<Rightarrow> settings_disk \<Rightarrow> settings_disk list \<times> bool" where
  "write_text fails merged d =
     (if fails WriteText then ([d\<lparr>sd_temporary := Some NotJson\<rparr>], True)
      else
        let d1 = d\<lparr>sd_temporary := Some (Document (PyDict merged))\<rparr> in
        if fails Replace then ([d1], True)
        else ([d1, \<lparr>sd_file = Document (PyDict merged), sd_temporary = None\<rparr>], fails SyncDirectory))"

definition clean_up :: "(write_step \<Rightarrow> bool) \<Rightarrow> settings_disk list \<times> bool \<Rightarrow> settings_disk list \<times> bool" where
  "clean_up fails r =
     (case r of (states, raised) \<Rightarrow>
        if sd_temporary (last states) = None then (states, raised)
        else if fails Unlink then (states, True)
        else (states @ [(last states)\<lparr>sd_temporary := None\<rparr>], raised))"

definition write_private_settings ::
  "bool \<Rightarrow> (write_step \<Rightarrow> bool) \<Rightarrow> settings \<Rightarrow> settings_disk \<Rightarrow> settings_disk list \<times> bool" where
  "write_private_settings makes_directory fails merged d =
     (if makes_directory \<and> fails MakeDirs \<or> fails MakeTemporary then ([d], True)
      else
        let d1 = d\<lparr>sd_temporary := Some NotJson\<rparr>
        in case clean_up fails (write_text fails merged d1) of (states, raised) \<Rightarrow> (d # d1 # states, raised))"

section \<open>Saving\<close>

fun clean_patch :: "settings \<Rightarrow> save_error + settings" where
  "clean_patch [] = Inr []"
| "clean_patch ((k, v) # patch) =
     (case map_of allowed_keys k of
        None \<Rightarrow> Inl BadSetting
      | Some t \<Rightarrow>
          if k \<in> set secret_keys \<and> v = mask then clean_patch patch
          else if \<not> valid_setting k v t then Inl BadSetting
          else (case clean_patch patch of Inl e \<Rightarrow> Inl e | Inr clean \<Rightarrow> Inr ((k, v) # clean)))"

definition merge :: "settings \<Rightarrow> settings \<Rightarrow> settings" where
  "merge clean out = fold (\<lambda>(k, v). AList.update k v) clean out"

definition save_settings ::
  "environment \<Rightarrow> bool \<Rightarrow> (write_step \<Rightarrow> bool) \<Rightarrow> settings \<Rightarrow> settings_disk \<Rightarrow> settings_disk list \<times> (save_error + settings)" where
  "save_settings env makes_directory fails patch d =
     (case clean_patch patch of
        Inl e \<Rightarrow> ([d], Inl e)
      | Inr clean \<Rightarrow>
          (case load_settings env (sd_file d) of
             Inl e \<Rightarrow> ([d], Inl e)
           | Inr out \<Rightarrow>
               let merged = merge clean out in
               (case write_private_settings makes_directory fails merged d of
                  (states, raised) \<Rightarrow> (states, if raised then Inl OsError else Inr merged))))"

section \<open>At a start\<close>

text \<open>\<open>apply_connection_overrides\<close>: what \<open>config\<close> and the credentials of the Home Assistant client become.\<close>

definition setting_of :: "settings \<Rightarrow> string \<Rightarrow> pyval" where
  "setting_of out k = (case map_of out (py k) of None \<Rightarrow> PyNone | Some v \<Rightarrow> v)"

definition applied_override :: "environment \<Rightarrow> settings \<Rightarrow> string \<Rightarrow> pyval option" where
  "applied_override env out k =
     (let v = setting_of out k in
      if v \<notin> {PyNone, PyStr []} \<and> v \<noteq> setting_of (defaults env) k then Some v else None)"

definition apply_connection_overrides :: "environment \<Rightarrow> settings \<Rightarrow> environment" where
  "apply_connection_overrides env out =
     (let str = (\<lambda>k old. case applied_override env out k of Some (PyStr s) \<Rightarrow> s | _ \<Rightarrow> old)
      in env\<lparr>env_mqtt_host := str ''mqtt_host'' (env_mqtt_host env),
             env_mqtt_port := (case applied_override env out ''mqtt_port'' of Some (PyInt i) \<Rightarrow> i | _ \<Rightarrow> env_mqtt_port env),
             env_mqtt_username := str ''mqtt_username'' (env_mqtt_username env),
             env_mqtt_password := str ''mqtt_password'' (env_mqtt_password env)\<rparr>)"

definition home_credentials :: "settings \<Rightarrow> (pystring option \<times> pystring option) option" where
  "home_credentials out =
     (let given = (\<lambda>k. case setting_of out k of PyStr s \<Rightarrow> if s = [] then None else Some s | _ \<Rightarrow> None);
          url = given ''ha_url''; token = given ''ha_token''
      in if url = None \<and> token = None then None else Some (url, token))"

section \<open>The keys\<close>

lemma allowed_distinct: "distinct (map fst allowed_keys)"
  by (simp add: allowed_keys_def show_keys_def)

lemma defaults_keys: "map fst (defaults env) = map fst allowed_keys"
  by (simp add: defaults_def allowed_keys_def)

lemma secrets_allowed: "k \<in> set secret_keys \<Longrightarrow> map_of allowed_keys k = Some TStr"
  by (auto simp: secret_keys_def allowed_keys_def show_keys_def)

lemma same_settings:
  assumes "map fst xs = map fst ys" and "distinct (map fst xs)" and "\<And>k. k \<in> fst ` set xs \<Longrightarrow> map_of xs k = map_of ys k"
  shows "xs = ys"
  using assms
proof (induction xs arbitrary: ys)
  case (Cons x xs)
  then obtain y ys1 where ys: "ys = y # ys1" "fst x = fst y" "map fst xs = map fst ys1"
    by (cases ys) auto
  from Cons.prems(3) [of "fst x"] ys have "x = y" by (cases x; cases y) simp
  moreover have "xs = ys1"
  proof (rule Cons.IH [OF ys(3)])
    show "distinct (map fst xs)" using Cons.prems(2) by simp
    fix k
    assume "k \<in> fst ` set xs"
    with Cons.prems(2,3) ys show "map_of xs k = map_of ys1 k"
      by (metis (no_types, lifting) distinct.simps(2) fun_upd_apply image_set insertCI list.set(2) list.simps(9) map_of.simps(2))
  qed
  ultimately show ?case using ys by simp
qed simp

lemma update_same: "map_of xs k = Some v \<Longrightarrow> AList.update k v xs = xs"
  by (induction xs) (auto split: if_splits)

lemma update_keys_same: "k \<in> fst ` set xs \<Longrightarrow> map fst (AList.update k v xs) = map fst xs"
  by (induction xs) auto

text \<open>The overlay, entry by entry.\<close>

lemma overlay_fold:
  assumes "distinct (map fst keys)"
  shows "map_of (fold (\<lambda>(k, t) out. case map_of stored k of
           None \<Rightarrow> out | Some v \<Rightarrow> if valid_setting k v t then AList.update k v out else out) keys out) k =
    (case (map_of keys k, map_of stored k) of
       (Some t, Some v) \<Rightarrow> if valid_setting k v t then Some v else map_of out k
     | _ \<Rightarrow> map_of out k)"
  using assms
proof (induction keys arbitrary: out)
  case (Cons kt keys)
  obtain k0 t0 where kt: "kt = (k0, t0)" by (cases kt)
  with Cons have "k0 \<notin> fst ` set keys" by simp
  then have "map_of keys k0 = None" by (simp add: map_of_eq_None_iff)
  with Cons kt show ?case by (auto simp: update_conv' split: option.splits)
qed (simp split: option.splits)

lemma overlay_at:
  "map_of (overlay stored out) k =
    (case (map_of allowed_keys k, map_of stored k) of
       (Some t, Some v) \<Rightarrow> if valid_setting k v t then Some v else map_of out k
     | _ \<Rightarrow> map_of out k)"
  unfolding overlay_def by (rule overlay_fold [OF allowed_distinct])

lemma overlay_keys: "map fst out = map fst allowed_keys \<Longrightarrow> map fst (overlay stored out) = map fst allowed_keys"
proof -
  let ?step = "\<lambda>(k, t) out. case map_of stored k of
       None \<Rightarrow> out | Some v \<Rightarrow> if valid_setting k v t then AList.update k v out else out"
  have "fst ` set keys \<subseteq> set (map fst out) \<Longrightarrow> map fst (fold ?step keys out) = map fst out" for keys
  proof (induction keys arbitrary: out)
    case (Cons kt keys)
    have same: "map fst (?step kt out) = map fst out"
      using Cons.prems by (cases kt) (simp add: update_keys_same split: option.split)
    with Cons.prems have "fst ` set keys \<subseteq> set (map fst (?step kt out))" by simp
    from Cons.IH [OF this] same show ?case by simp
  qed simp
  note keep = this [of allowed_keys]
  assume "map fst out = map fst allowed_keys"
  with keep show ?thesis unfolding overlay_def by simp
qed

section \<open>Settings as the code keeps them\<close>

definition settled :: "settings \<Rightarrow> bool" where
  "settled s \<longleftrightarrow> map fst s = map fst allowed_keys
     \<and> (\<forall>k t. map_of allowed_keys k = Some t \<longrightarrow> (\<exists>v. map_of s k = Some v \<and> valid_setting k v t))"

definition port_ok :: "environment \<Rightarrow> bool" where
  "port_ok env \<longleftrightarrow> 1 \<le> env_mqtt_port env \<and> env_mqtt_port env \<le> 65535"

lemma defaults_valid:
  assumes "port_ok env"
  shows "list_all (\<lambda>(k, t). case map_of (defaults env) k of None \<Rightarrow> False | Some v \<Rightarrow> valid_setting k v t) allowed_keys"
  using assms
  by (simp add: allowed_keys_def show_keys_def defaults_def valid_setting_def secret_keys_def port_ok_def)

lemma defaults_settled: "port_ok env \<Longrightarrow> settled (defaults env)"
  using defaults_valid [of env] defaults_keys [of env]
  by (fastforce simp: settled_def list_all_iff dest: map_of_SomeD split: option.splits)

lemma overlay_settled: "settled out \<Longrightarrow> settled (overlay stored out)"
  by (auto simp: settled_def overlay_keys overlay_at split: option.splits)

lemma load_settled: "load_settings env f = Inr s \<Longrightarrow> port_ok env \<Longrightarrow> settled s"
  by (auto simp: load_settings_def defaults_settled intro: overlay_settled split: stored.splits if_splits)

lemma settled_distinct: "settled s \<Longrightarrow> distinct (map fst s)"
  by (simp add: settled_def allowed_distinct)

lemma settled_reload: "settled s \<Longrightarrow> load_settings env (Document (PyDict s)) = Inr s"
proof -
  assume s: "settled s"
  have "overlay s (defaults env) = s"
  proof (rule same_settings)
    show keys: "map fst (overlay s (defaults env)) = map fst s"
      using s overlay_keys [OF defaults_keys] by (simp add: settled_def)
    with s show "distinct (map fst (overlay s (defaults env)))" by (simp add: settled_distinct)
    fix k
    assume "k \<in> fst ` set (overlay s (defaults env))"
    with keys s have "k \<in> fst ` set allowed_keys" by (metis image_set settled_def)
    then obtain t where "map_of allowed_keys k = Some t"
      by (metis map_of_eq_None_iff option.exhaust)
    with s show "map_of (overlay s (defaults env)) k = map_of s k"
      by (fastforce simp: settled_def overlay_at)
  qed
  then show ?thesis by (simp add: load_settings_def)
qed

section \<open>Properties\<close>

lemma mask_secrets_at:
  "map_of (mask_secrets s) k = (if k \<in> set secret_keys then Some (mask_value (map_of s k)) else map_of s k)"
  by (simp add: mask_secrets_def secret_keys_def update_conv')

lemma settled_has: "settled s \<Longrightarrow> map_of allowed_keys k = Some t \<Longrightarrow> k \<in> set (map fst s)"
  by (metis image_set map_of_eq_None_iff option.distinct(1) settled_def)

lemma mask_secrets_keys:
  assumes "settled s"
  shows "map fst (mask_secrets s) = map fst s"
proof -
  have "set ks \<subseteq> set (map fst s) \<Longrightarrow>
    map fst (fold (\<lambda>k out. AList.update k (mask_value (map_of out k)) out) ks s) = map fst s" for ks
  proof (induction ks arbitrary: s)
    case (Cons k ks)
    then have same: "map fst (AList.update k (mask_value (map_of s k)) s) = map fst s"
      by (simp add: update_keys_same)
    with Cons.prems have "set ks \<subseteq> set (map fst (AList.update k (mask_value (map_of s k)) s))" by simp
    from Cons.IH [OF this] same show ?case by simp
  qed simp
  moreover have "set secret_keys \<subseteq> set (map fst s)"
    using settled_has [OF assms] secrets_allowed by blast
  ultimately show ?thesis unfolding mask_secrets_def by blast
qed

lemma clean_patch_same:
  assumes "\<And>k v. (k, v) \<in> set patch \<Longrightarrow> \<exists>t. map_of allowed_keys k = Some t
    \<and> (k \<in> set secret_keys \<and> v = mask \<or> valid_setting k v t \<and> map_of s k = Some v)"
  shows "\<exists>clean. clean_patch patch = Inr clean \<and> merge clean s = s"
  using assms
proof (induction patch)
  case (Cons kv patch)
  obtain k v where kv: "kv = (k, v)" by (cases kv)
  from Cons.IH Cons.prems obtain clean where clean: "clean_patch patch = Inr clean" "merge clean s = s"
    by (metis list.set_intros(2))
  from Cons.prems [of k v] kv obtain t where "map_of allowed_keys k = Some t"
    "k \<in> set secret_keys \<and> v = mask \<or> valid_setting k v t \<and> map_of s k = Some v" by auto
  with clean kv show ?case by (auto simp: merge_def update_same)
qed (simp add: merge_def)

lemma write_succeeds:
  assumes "\<And>step. \<not> fails step"
  shows "\<exists>states. write_private_settings mk fails merged d = (states, False)
    \<and> last states = \<lparr>sd_file = Document (PyDict merged), sd_temporary = None\<rparr>"
  using assms by (simp add: write_private_settings_def write_text_def clean_up_def Let_def)

text \<open>C29: Saving what the settings answer shows changes nothing: the masked secrets keep their values, the
  settings read back are the same, and the answer holds no secret.\<close>

theorem masked_answer_saves_unchanged:
  assumes "port_ok env" and "masked_settings env (sd_file d) = Inr answer" and "\<And>step. \<not> fails step"
  shows "\<exists>s states. load_settings env (sd_file d) = Inr s \<and> save_settings env mk fails answer d = (states, Inr s)
    \<and> load_settings env (sd_file (last states)) = Inr s
    \<and> (\<forall>k \<in> set secret_keys. map_of answer k \<in> {Some (PyStr []), Some mask})"
proof -
  from assms(2) obtain s where load: "load_settings env (sd_file d) = Inr s" and answer: "answer = mask_secrets s"
    by (auto simp: masked_settings_def split: sum.splits)
  from load_settled [OF load assms(1)] have s: "settled s" .
  then have once: "distinct (map fst answer)"
    using mask_secrets_keys [OF s] settled_distinct [OF s] by (simp add: answer)
  have "\<exists>t. map_of allowed_keys k = Some t \<and> (k \<in> set secret_keys \<and> v = mask \<or> valid_setting k v t \<and> map_of s k = Some v)"
    if "(k, v) \<in> set answer" for k v
  proof -
    from that once have v: "map_of answer k = Some v" by simp
    from that have "k \<in> set (map fst answer)" by force
    then have "k \<in> fst ` set allowed_keys"
      using s mask_secrets_keys [OF s] by (metis answer image_set settled_def)
    then obtain t where t: "map_of allowed_keys k = Some t" by (metis map_of_eq_None_iff option.exhaust)
    with s obtain w where "map_of s k = Some w" "valid_setting k w t" unfolding settled_def by blast
    with v t show ?thesis
      by (auto simp: answer mask_secrets_at mask_value_def split: if_splits)
  qed
  from clean_patch_same [OF this] obtain clean where clean: "clean_patch answer = Inr clean" "merge clean s = s"
    by blast
  from write_succeeds [OF assms(3)] obtain states where
    "write_private_settings mk fails s d = (states, False)" "sd_file (last states) = Document (PyDict s)" by fastforce
  with clean load settled_reload [OF s, of env] have "save_settings env mk fails answer d = (states, Inr s)"
    "load_settings env (sd_file (last states)) = Inr s"
    by (simp_all add: save_settings_def)
  moreover have "map_of answer k \<in> {Some (PyStr []), Some mask}" if "k \<in> set secret_keys" for k
    using that by (simp add: answer mask_secrets_at mask_value_def)
  ultimately show ?thesis using load by blast
qed

text \<open>C28: Whatever step of a save fails, and wherever it is cut off, the settings file is the old one or the
  complete new one; a save that answers wrote exactly the merged settings, a rejected patch touches
  nothing, and no temporary file stays behind unless its removal fails.\<close>

theorem settings_file_is_never_partial:
  assumes "save_settings env mk fails patch d = (states, r)" and "sd_temporary d = None"
  shows "(\<forall>x \<in> set states. sd_file x = sd_file d
      \<or> (\<exists>clean out. clean_patch patch = Inr clean \<and> load_settings env (sd_file d) = Inr out
           \<and> sd_file x = Document (PyDict (merge clean out))))
    \<and> (case r of
         Inr merged \<Rightarrow> last states = \<lparr>sd_file = Document (PyDict merged), sd_temporary = None\<rparr>
       | Inl OsError \<Rightarrow> fails Unlink \<or> sd_temporary (last states) = None
       | Inl _ \<Rightarrow> states = [d])"
proof (cases "clean_patch patch")
  case (Inl e)
  then have "e = BadSetting"
  proof (induction patch)
    case (Cons kv patch)
    then show ?case by (cases kv) (auto split: option.splits if_splits sum.splits)
  qed simp
  with assms(1) show ?thesis by (auto simp: save_settings_def Inl)
next
  case (Inr clean)
  show ?thesis
  proof (cases "load_settings env (sd_file d)")
    case (Inl e)
    then have "e = BadText" by (auto simp: load_settings_def split: stored.splits)
    with assms(1) show ?thesis by (auto simp: save_settings_def Inl Inr)
  next
    case out: (Inr out)
    with Inr assms show ?thesis
      by (auto simp: save_settings_def write_private_settings_def write_text_def clean_up_def Let_def split: if_splits)
  qed
qed

lemma clean_patch_valid:
  "clean_patch patch = Inr clean \<Longrightarrow> (k, v) \<in> set clean \<Longrightarrow>
     (k, v) \<in> set patch \<and> (\<exists>t. map_of allowed_keys k = Some t \<and> valid_setting k v t)"
proof (induction patch arbitrary: clean)
  case (Cons kv patch)
  then show ?case by (cases kv) (auto split: option.splits if_splits sum.splits)
qed simp

lemma update_settled:
  assumes "settled s" and "map_of allowed_keys k = Some t" and "valid_setting k v t"
  shows "settled (AList.update k v s)"
proof -
  from settled_has [OF assms(1,2)] have "k \<in> fst ` set s" by simp
  with assms show ?thesis by (auto simp: settled_def update_keys_same update_conv')
qed

lemma merge_settled:
  assumes "settled s" and "\<And>k v. (k, v) \<in> set clean \<Longrightarrow> \<exists>t. map_of allowed_keys k = Some t \<and> valid_setting k v t"
  shows "settled (merge clean s) \<and> (\<forall>k. k \<notin> fst ` set clean \<longrightarrow> map_of (merge clean s) k = map_of s k)"
  using assms unfolding merge_def
proof (induction clean arbitrary: s)
  case (Cons kv clean)
  obtain k1 v where kv: "kv = (k1, v)" by (cases kv)
  from Cons.prems kv have "settled (AList.update k1 v s)" by (auto intro: update_settled)
  from Cons.IH [OF this] Cons.prems(2) kv show ?case by (auto simp: update_conv')
qed simp

text \<open>C30: Let there be no settings file and a configured, non-empty MQTT host. After a first save of
  settings that do not name the host, successful in every step, the server loads that host from the
  file at its next start and connects to it even though the configured host is another one by then
  (a host on the command line, which is applied later, aside).\<close>

theorem first_save_keeps_old_connection:
  assumes "sd_file d = Unreadable" and "save_settings env mk fails patch d = (states, Inr s)"
    and "py ''mqtt_host'' \<notin> fst ` set patch" and "env_mqtt_host env \<noteq> []" and "port_ok env"
    and "env_mqtt_host env2 \<noteq> env_mqtt_host env"
  shows "\<exists>s2. load_settings env2 (sd_file (last states)) = Inr s2
    \<and> env_mqtt_host (apply_connection_overrides env2 s2) = env_mqtt_host env"
proof -
  from assms(2) obtain clean where clean: "clean_patch patch = Inr clean"
    by (auto simp: save_settings_def split: sum.splits)
  have load: "load_settings env (sd_file d) = Inr (defaults env)" by (simp add: assms(1) load_settings_def)
  with assms(2) clean have s: "s = merge clean (defaults env)" and saved: "sd_file (last states) = Document (PyDict s)"
    by (auto simp: save_settings_def write_private_settings_def write_text_def clean_up_def Let_def split: if_splits)
  note valid = clean_patch_valid [OF clean]
  have "settled s" "map_of s (py ''mqtt_host'') = map_of (defaults env) (py ''mqtt_host'')"
    using merge_settled [OF defaults_settled [OF assms(5)], of clean] valid assms(3) unfolding s by force+
  moreover have "map_of (defaults e) (py ''mqtt_host'') = Some (PyStr (env_mqtt_host e))" for e
    by (simp add: defaults_def show_keys_def)
  ultimately show ?thesis
    using assms(4,6) settled_reload [of s env2]
    by (simp add: saved apply_connection_overrides_def applied_override_def setting_of_def Let_def)
qed

section \<open>Witnesses\<close>

definition demo_env :: environment where
  "demo_env = \<lparr>env_camera_topic = [], env_mqtt_host = py ''h'', env_mqtt_port = 1883, env_mqtt_username = [],
     env_mqtt_password = []\<rparr>"

definition demo_disk :: settings_disk where
  "demo_disk = \<lparr>sd_file = Unreadable, sd_temporary = None\<rparr>"

definition demo_patch :: settings where
  "demo_patch = [(py ''show_ev'', PyBool False)]"

lemma demo_load: "load_settings demo_env (sd_file demo_disk) = Inr (defaults demo_env)" "port_ok demo_env"
  by (simp_all add: load_settings_def demo_disk_def port_ok_def demo_env_def)

lemma demo_clean: "clean_patch demo_patch = Inr demo_patch"
  by (simp add: demo_patch_def allowed_keys_def show_keys_def secret_keys_def valid_setting_def)

lemma masked_answer_saves_unchanged_witness:
  "\<exists>states. save_settings demo_env True (\<lambda>_. False) (mask_secrets (defaults demo_env)) demo_disk
     = (states, Inr (defaults demo_env))"
proof -
  have "masked_settings demo_env (sd_file demo_disk) = Inr (mask_secrets (defaults demo_env))"
    by (simp add: masked_settings_def demo_load)
  from masked_answer_saves_unchanged [OF demo_load(2) this, of "\<lambda>_. False" True] demo_load(1) show ?thesis by auto
qed

lemma settings_file_is_never_partial_witness:
  "\<exists>states. save_settings demo_env True (\<lambda>step. step = Replace) demo_patch demo_disk = (states, Inl OsError)
     \<and> sd_temporary (last states) = None"
proof -
  obtain states where run: "save_settings demo_env True (\<lambda>step. step = Replace) demo_patch demo_disk = (states, Inl OsError)"
    by (simp add: save_settings_def demo_load demo_clean write_private_settings_def write_text_def clean_up_def Let_def)
  from settings_file_is_never_partial [OF this] run show ?thesis by (simp add: demo_disk_def)
qed

lemma first_save_keeps_old_connection_witness:
  "\<exists>states s s2. save_settings demo_env True (\<lambda>_. False) demo_patch demo_disk = (states, Inr s)
     \<and> load_settings (demo_env\<lparr>env_mqtt_host := py ''new''\<rparr>) (sd_file (last states)) = Inr s2
     \<and> env_mqtt_host (apply_connection_overrides (demo_env\<lparr>env_mqtt_host := py ''new''\<rparr>) s2) = py ''h''"
proof -
  obtain states s where run: "save_settings demo_env True (\<lambda>_. False) demo_patch demo_disk = (states, Inr s)"
    by (simp add: save_settings_def demo_load demo_clean write_private_settings_def write_text_def clean_up_def Let_def)
  have "sd_file demo_disk = Unreadable" by (simp add: demo_disk_def)
  from first_save_keeps_old_connection [OF this run, of "demo_env\<lparr>env_mqtt_host := py ''new''\<rparr>"] demo_load(2) run
  show ?thesis by (simp add: demo_env_def demo_patch_def)
qed

end
