(* ===== verification/Spec2Isabelle.thy ===== *)
theory Spec2Isabelle
  imports NotificationWorker NotificationMessages FixtureNetwork Readiness AcceptanceMain PushSystem
    PushApi PushObserver BannerPush ControllerCommands DataSources SettingsStore
begin

text \<open>
  A verification development for the inverter dashboard: the push notification path from the server
  to the browser, the commands from the browser to the inverter, and the acceptance run that decides
  whether a built frontend may be published.

  \<^bold>\<open>The program and its parts.\<close> The repository holds a Python server
  (\<open>src/inverter_dashboard\<close>), the single-page application it serves (built and minified), the
  service worker \<open>static/notifications-sw.js\<close> that receives push messages, and the scripts
  \<open>browser-acceptance.cjs\<close>, \<open>browser-socket-fixture.cjs\<close> and \<open>browser-readiness.cjs\<close> that drive
  a real browser against a fixture server and write the release evidence. Three chains are modelled.

  The push chain: packets and snapshots fill the device cache and the banners, \<open>PushObserver\<close> hands
  native notifications and samples of them to \<open>EventProcessor\<close>, \<open>event_payload\<close> builds a message,
  \<open>PushService.queue\<close> stores it with \<open>PushStore.enqueue\<close>, two workers send it with
  \<open>PushTransport.send\<close>, the browser wakes the service worker, \<open>normalizedEvent\<close> validates it, and
  \<open>deliver\<close> shows it once if the user has enabled delivery. Browsers subscribe through \<open>PushAPI\<close>.

  The command chain: a WebSocket client sends an action, \<open>_dispatch_action\<close> makes a command of it
  that captures the selected data source, and the command is written over MQTT or to the gateway
  only after its checks of the source, of the controller's status and of the device.

  The acceptance chain: the committed frontend is walked, hashed and compared with its manifest; a
  fixture server serves it to the browser; eleven scenarios run; only then is evidence written.

  \<^bold>\<open>Theories.\<close>

  \<^item> \<open>Prelude\<close>: JavaScript values and primitives, promises, lemmas on sorted lists.
  \<^item> \<open>ObjectStore\<close>: IndexedDB object stores and transactions; the locales \<open>object_store\<close>
    and \<open>dedup_ledger\<close>, the contract of a ledger in which a key is claimed at most once more than
    it is forgotten. It is interpreted twice: for the worker's IndexedDB ledger and for the
    server's SQLite table of events.
  \<^item> \<open>NotificationEvents\<close>, \<open>NotificationSettings\<close>, \<open>NotificationDelivery\<close>, \<open>NotificationMessages\<close>:
    the service worker function by function (\<open>normalizedEvent\<close>, \<open>pruneEvents\<close>, \<open>claimEvent\<close>,
    \<open>releaseClaim\<close>, \<open>settings\<close>, \<open>changeSettings\<close>, \<open>deliver\<close>, the listeners). A function that awaits is a
    task whose segments run atomically (\<open>deliver_step\<close>); \<open>NotificationWorker\<close> interleaves any
    number of tasks with settings requests, failing transactions and refused displays.
  \<^item> \<open>PythonValues\<close>: code points, UTF-8 and UTF-16, the JSON text of Python. \<open>PythonUrl\<close>: the
    string methods and \<open>urlsplit\<close> with its authority attributes.
  \<^item> \<open>PushPayload\<close> and \<open>PushEvents\<close> (\<open>push_events.py\<close>): building, trimming and validating payloads,
    what the browser makes of them, priming, native events and sampled transitions.
  \<^item> \<open>PushStore\<close> and \<open>PushStart\<close> (\<open>push_store.py\<close>, \<open>PushService.__init__\<close>): the three tables, every
    operation with the commits that may fail, the checks at start.
  \<^item> \<open>PushService\<close>, \<open>PushDelivery\<close>, \<open>PushSystem\<close> (\<open>push_service.py\<close>): queueing, requests, claims and
    completions; what each stretch between awaits does to the outbox; all interleavings.
  \<^item> \<open>PushTransport\<close> (\<open>push_transport.py\<close>): endpoints, keys, addresses, and what a send checks and posts.
  \<^item> \<open>PushApi\<close> (\<open>push_api.py\<close>): origin, rate limit, body, and the four mutating routes.
  \<^item> \<open>DeviceState\<close> (\<open>cerbo.py\<close>): the cache of native device values. \<open>PushObserver\<close>
    (\<open>push_observer.py\<close>): what is sampled of it, and what packets and snapshots make of the samples.
  \<^item> \<open>BannerNotifications\<close> (\<open>notifications.py\<close>, \<open>handle_alarm\<close>): slots, raw alarms, notices and
    dismissals; \<open>BannerDisplay\<close>: the ids of slots and the list an operation leaves; \<open>BannerHistory\<close>:
    all sequences of events and their invariant, with the locale \<open>alarm_contract\<close> (what survives
    raw alarms being raised, remembered and removed), which the invariants of the banners interpret;
    \<open>BannerDismissal\<close>: banners against slots, and how long a dismissal lasts; \<open>BannerPush\<close>: the two
    transports, and \<open>native_notifications\<close> of \<open>push_observer.py\<close>.
  \<^item> \<open>ControllerState\<close> (\<open>controller_commands.py\<close>, \<open>ess_mode.py\<close>, \<open>MqttState\<close> of \<open>server.py\<close>,
    \<open>gateway.apply_snapshot\<close>): what is known of the controller, and since when.
  \<^item> \<open>CommandDispatch\<close>, \<open>WaterCommands\<close>, \<open>ControllerCommands\<close> (\<open>websocket_handler.py\<close>, parts of
    \<open>gateway.py\<close>): a command as a task of segments, and the checks. The locale \<open>command_guard\<close> is
    the contract of a check (it passes only on the selected, connected source and with the
    authority of the command); what a task may write is proved once in it, and the five checks of
    the code are its interpretations.
  \<^item> \<open>DataSources\<close> (\<open>server.py\<close>, \<open>gateway.py\<close>): which source runs; its loops, the watchdog and the
    recovery as tasks that switch between the sources, and the end of the server.
  \<^item> \<open>SettingsStore\<close> (\<open>settings_store.py\<close>): the settings file and the connection overrides.
  \<^item> \<open>FrontendInventory\<close>, \<open>FrontendRelease\<close>: the verification of the committed frontend.
  \<^item> \<open>SocketFixture\<close>, \<open>FixtureServer\<close>, \<open>FixtureNetwork\<close>: the close handshake, the HTTP and WebSocket
    handlers of the fixture, and all sequences of socket events.
  \<^item> \<open>Readiness\<close>, \<open>AcceptanceRun\<close>, \<open>BrowserDriver\<close>, \<open>AcceptanceScenarios\<close>, \<open>AcceptanceMain\<close>: waiting for
    the hydrated page, polling, the bodies of the eleven scenarios as scripts over a browser
    driver, and \<open>main\<close> with its \<open>try\<close>, \<open>catch\<close> and \<open>finally\<close>.

  This theory joins the two ends of the push chain (\<open>stored_event_is_displayed\<close>).

  \<^bold>\<open>State.\<close> Each component keeps the code's state as a record or as an association list: the
  stores of IndexedDB, the tables of SQLite, \<open>fixture.state\<close>, \<open>EventProcessor\<close>, \<open>PushService\<close>,
  \<open>MqttState\<close>, the selection of the data source. Operations return the changed state; what the
  code throws or rejects is a left value (\<open>promise\<close>, \<open>outcome\<close>); a failing transaction, commit or
  file operation is an argument of the operation. Concurrency is explicit: JavaScript and asyncio
  interleave only at awaits, so a step of a system is one such stretch of code.

  \<^bold>\<open>What the lemmas show.\<close> Worker: a notification is shown at most once more than its key is
  forgotten; nothing is shown without consent; what is shown was validated; pruning keeps exactly
  the newest unexpired keys. Push server: payloads fit 3072 bytes with the longest body that does,
  validate when read back, and mean to the worker what the server wrote; priming is silent;
  whatever the running service does keeps the tables well formed, and a store is accepted again at the
  next start; an identity is taken once more than it is pruned; a queued event is sent at most three
  times to a subscription, to an allowed provider only, and its source time is fresh when it arrives;
  the API is rate limited and a refused request queues nothing. Commands:
  a command is written at most once, on the source it was given to, under a live authority at
  that moment, and an override answered as accepted was confirmed by its controller; the authority
  comes from live observations, never from retained ones. Sources: one loop runs at a time, of the
  selected source; a switch ends and leaves no command of the old source behind; a shutdown in the
  middle of one misses it. Banners: bounded and distinct whatever arrives; those of the device are
  what its slots give now and a closed one stays hidden until the device reports something new, as
  long as no notice takes the id of a native banner; both transports show the same; of the banners of
  the device only those of a known type are pushed. Settings: the file is never partial, and saving a masked answer changes nothing. Acceptance: only recorded bytes are served, broadcasts
  reach exactly the open sockets, evidence implies that every scenario passed, and an exit code of
  0 implies evidence and a complete clean-up.

  \<^bold>\<open>Bounds and termination.\<close> All recursive functions are total but \<open>trim_body\<close>, a
  \<open>partial_function\<close> with the value \<open>None\<close> for a loop that does not end; \<open>event_payload_fits\<close>
  proves that it ends for every kind, source and time the server passes. \<open>poll_until\<close> and
  \<open>poll_page\<close> measure the time left until their deadline; \<open>poll_until_settles\<close> bounds the reads.
  The wait for an acknowledgement has no bound of its own; its deadline is a cancellation, which may
  end any segment. No fuel is used.

  \<^bold>\<open>Parameters.\<close> SHA-256, the ISO date parser and the float formats of Python (\<open>runtime\<close>), its
  number parsers, date texts and the order of a set (\<open>banner_env\<close>), the
  browser behind the driver, the file system, the provider's answer to a send with the encryption
  and the signature before it (\<open>provider\<close>), the IPv6 parser and the registry of public addresses of
  \<open>ipaddress\<close>, the points of P-256, the JSON parser on bytes, and the dashboard's authorisation are
  arguments; so is the check of a stored subscription where the store alone is at stake, with
  \<open>stored_check\<close> of \<open>PushTransport\<close> as the code's. Hypotheses on them are documented behaviour: a
  digest has 64 hexadecimal digits, a date has a year of four digits, a set is listed
  once each, a send ends before the 30 s lease of its claim (the transport's total timeout is 10 s).
  The history of the banners has a hypothesis on their sources, \<open>well_sourced\<close>, which the code does
  not enforce for the notices of the controller; it is part of the properties that need it.

  \<^bold>\<open>Not modelled.\<close> The minified bundles under \<open>static/assets\<close> (build output of another repository
  and vendored libraries); the tests of the fixtures; encryption, TLS and DNS, the VAPID key and
  contact of the push transport; the file permissions, lock and key metadata of the push database;
  the case of letters beyond ASCII in the names of alarms; the dashboard tiles derived from the device
  cache; the Home Assistant client; HTTP routes, static files, the delays and counters of the data
  sources and the fan-out to WebSocket clients; logging. Floats are the rationals they denote, so the
  rounding of clock arithmetic and of integers beyond 2^53 is not modelled; rows due at the same instant are taken in insertion order, which SQL leaves open; clocks read twice in one
  stretch of code read the same.
\<close>

section \<open>From the outbox to the screen\<close>

lemma check_delivery_key:
  assumes "check_delivery rt d = Inr ()"
  shows "valid_payload rt (d_payload d)" "ev_key (worker_event (d_payload d)) = utf16 (d_event d)"
  using assms
  by (auto simp: check_delivery_def validate_Inr_iff worker_event_def payload_text_def
      split: sum.splits if_splits)

text \<open>C6: End to end: take a delivery from a store that passed the checks of a start and that the
  service then used. If it arrives at the service worker fresh and with a title, delivery is enabled
  there, its key is unclaimed, every transaction of the worker commits and the browser agrees to
  display it, then exactly the notification of its payload is displayed, tagged with its event
  identity.\<close>

theorem stored_event_is_displayed:
  assumes "keys_ok st" and "startup rt check st = Inr ()" and "served rt check st st1"
    and row: "d \<in> set (deliveries st1)" and titled: "payload_text (d_payload d) ''title'' \<noteq> []"
    and times: "fresh (a_clock (ans 0) 0) (payload_time (d_payload d) ''sourceTimestampMs'')"
      "fresh (a_clock (ans 0) 0) (payload_time (d_payload d) ''observedAtMs'')"
    and on: "enabled (current_setting (w_settings w))" and new: "\<not> held (w_events w) (utf16 (d_event d))"
    and commits: "\<forall>i. a_fault (ans i) = NoFault" and shown: "a_displays (ans 4)"
  shows "\<exists>w'. deliver lt ans (to_js (d_payload d)) w = (w', Resolved True)
    \<and> w_shown w' = w_shown w @ [notification_of lt (worker_event (d_payload d))]
    \<and> n_tag (notification_of lt (worker_event (d_payload d))) = utf16 (d_event d)"
proof -
  from assms(1,2) have st: "db_ok st" "rows_ok rt check st" by (simp_all add: startup_iff)
  from served_ok [OF assms(3) st] have "rows_ok rt check st1" ..
  with row have checked: "check_delivery rt d = Inr ()" unfolding rows_ok_def by blast
  note d = check_delivery_key [OF checked]
  from titled times have "normalizedEvent (a_clock (ans 0) 0) (to_js (d_payload d)) = Some (worker_event (d_payload d))"
    by (simp add: normalizedEvent_iff worker_reads_payload [OF d(1)])
  with on new commits shown d(2) show ?thesis
    by (simp add: deliver_shows notification_of_def)
qed

definition demo_received :: "nat \<Rightarrow> answer" where
  "demo_received = (\<lambda>_. \<lparr>a_fault = NoFault, a_clock = (\<lambda>_. 1700000001000), a_displays = True\<rparr>)"

lemma demo_store_served: "served demo_runtime Inr empty_store demo_store"
  unfolding demo_store_def
  by (intro served.called served.opened)
     (simp_all add: test_event_valid preferences_def demo_preferences_def default_preferences_def)

lemma stored_event_is_displayed_witness:
  "\<exists>w'. deliver (\<lambda>_. js ''noon'') demo_received (to_js test_event) demo_worker = (w', Resolved True)
    \<and> length (w_shown w') = 1"
proof -
  have "keys_ok empty_store" "startup demo_runtime Inr empty_store = Inr ()"
    by (simp_all add: keys_ok_def empty_store_def startup_def validate_existing_rows_def foreign_keys_ok_def
        subscriptions_def)
  moreover have "test_event = d_payload demo_delivery" "demo_delivery \<in> set (deliveries demo_store)"
    by (simp_all add: demo_delivery_def demo_row)
  moreover have "payload_text test_event ''title'' \<noteq> []" "payload_time test_event ''sourceTimestampMs'' = 1700000000000"
    "payload_time test_event ''observedAtMs'' = 1700000000000"
    by (simp_all add: test_event_def payload_fields_def payload_text_def payload_time_def py_item_def)
  ultimately show ?thesis
    using stored_event_is_displayed [OF _ _ demo_store_served, of demo_delivery demo_received demo_worker "\<lambda>_. js ''noon''"]
      demo_worker_setting
    by (auto simp: demo_received_def demo_worker_def fresh_def MAX_SAFE_INTEGER_def MAX_EVENT_AGE_MS_def)
qed

end
